(* ===== verification/Prelude.thy ===== *)
theory Prelude
  imports Main "HOL-Library.Word"
begin

text \<open>
  Shared vocabulary of the development: the machine integers of the C sources, the byte
  orders the wire format uses, a C string, a bounded memory with explicit failure, the
  Ethernet address and the lexicographic byte comparison that \<^verbatim>\<open>memcmp\<close> performs.
  Three collections of rewrite rules are filled by the theories that follow:
  \<open>wire_simps\<close> (what a buffer operation does on a well-formed buffer),
  \<open>layout_simps\<close> (how a packed struct lies in memory) and
  \<open>word_simps\<close> (bytes and words of the two byte orders).
\<close>

unbundle bit_operations_syntax

named_theorems wire_simps \<open>buffer operations on well-formed buffers\<close>
named_theorems layout_simps \<open>byte layout of packed structs\<close>
named_theorems word_simps \<open>byte orders\<close>

type_synonym u8 = "8 word"
type_synonym u16 = "16 word"
type_synonym u32 = "32 word"
type_synonym u64 = "64 word"

section \<open>C integers\<close>

text \<open>The range of the C type \<^verbatim>\<open>int\<close> on the supported platforms. A signed operation that
  leaves it has undefined behaviour.\<close>

definition INT_MAX :: int where
  "INT_MAX = 2147483647"

definition INT_MIN :: int where
  "INT_MIN = - 2147483648"

definition int_range :: "int \<Rightarrow> bool" where
  "int_range x \<longleftrightarrow> INT_MIN \<le> x \<and> x \<le> INT_MAX"

lemmas int_range_simps = int_range_def INT_MAX_def INT_MIN_def

text \<open>C's integer division truncates towards zero.\<close>

definition c_div :: "int \<Rightarrow> int \<Rightarrow> int" where
  "c_div a b = sgn a * sgn b * (\<bar>a\<bar> div \<bar>b\<bar>)"

lemma c_div_nonneg [simp]: "0 \<le> a \<Longrightarrow> 0 < b \<Longrightarrow> c_div a b = a div b"
  by (cases "a = 0") (simp_all add: c_div_def)

text \<open>Bounds of the unsigned types.\<close>

lemma unat_u8_less: "unat (w :: u8) < 256"
  using unsigned_less [of w, where ?'a = nat] by simp

lemma unat_u16_less: "unat (w :: u16) < 65536"
  using unsigned_less [of w, where ?'a = nat] by simp

lemma unat_u32_less: "unat (w :: u32) < 4294967296"
  using unsigned_less [of w, where ?'a = nat] by simp

lemma unat_u64_less: "unat (w :: u64) < 18446744073709551616"
  using unsigned_less [of w, where ?'a = nat] by simp

lemmas unat_bounds = unat_u8_less unat_u16_less unat_u32_less unat_u64_less

lemma int_unat_u8: "int (unat (w :: u8)) < 256"
  using unat_u8_less [of w] by linarith

lemma int_unat_u16: "int (unat (w :: u16)) < 65536"
  using unat_u16_less [of w] by linarith

lemma unat_word_of_int_u8: "0 \<le> k \<Longrightarrow> k < 256 \<Longrightarrow> unat (word_of_int k :: u8) = nat k"
  by (simp add: unat_eq_nat_uint uint_word_of_int)

text \<open>Distinct offsets below the modulus stay distinct on a ring.\<close>

lemma ring_offset_inject:
  fixes i j m t :: nat
  assumes "i < m" and "j < m"
  shows "(t + i) mod m = (t + j) mod m \<longleftrightarrow> i = j"
proof
  assume eq: "(t + i) mod m = (t + j) mod m"
  have step: "k = 0" if "l + k < m" and "(t + l) mod m = (t + (l + k)) mod m" for k l
  proof -
    from that(2) have "m dvd (t + (l + k)) - (t + l)"
      by (metis mod_eq_dvd_iff_nat add.assoc le_add1)
    then have "m dvd k" by (simp add: algebra_simps)
    with that(1) show ?thesis by (auto dest: dvd_imp_le)
  qed
  show "i = j"
  proof (cases "i \<le> j")
    case True
    with step [of i "j - i"] eq assms show ?thesis by simp
  next
    case False
    with step [of j "i - j"] eq assms show ?thesis by simp
  qed
qed simp

lemma mod_mult_div:
  fixes a m n :: nat
  assumes "0 < m"
  shows "a mod (m * n) div m = a div m mod n"
  using assms by (simp add: mod_mult2_eq)

lemma div_add_window:
  fixes t d m :: nat
  assumes "0 < m"
  shows "t mod m + d < m \<Longrightarrow> (t + d) div m = t div m"
    and "t mod m + d = m \<Longrightarrow> (t + d) div m = t div m + 1"
proof -
  have "(t + d) div m = (m * (t div m) + (t mod m + d)) div m" by (simp flip: add.assoc)
  also have "\<dots> = t div m + (t mod m + d) div m" using assms by (simp only: div_mult_self4)
  finally have "(t + d) div m = t div m + (t mod m + d) div m" .
  then show "t mod m + d < m \<Longrightarrow> (t + d) div m = t div m"
    and "t mod m + d = m \<Longrightarrow> (t + d) div m = t div m + 1" using assms by simp_all
qed

section \<open>Byte orders\<close>

text \<open>The bytes \<^verbatim>\<open>htole16\<close>, \<^verbatim>\<open>htobe16\<close>, \<^verbatim>\<open>htole32\<close> and \<^verbatim>\<open>htobe32\<close> leave in memory, whatever
  the byte order of the host, and the values the inverse macros read back.\<close>

definition le16_bytes :: "u16 \<Rightarrow> u8 list" where
  "le16_bytes w = [ucast w, ucast (drop_bit 8 w)]"

definition be16_bytes :: "u16 \<Rightarrow> u8 list" where
  "be16_bytes w = [ucast (drop_bit 8 w), ucast w]"

definition le32_bytes :: "u32 \<Rightarrow> u8 list" where
  "le32_bytes w = [ucast w, ucast (drop_bit 8 w), ucast (drop_bit 16 w), ucast (drop_bit 24 w)]"

definition be32_bytes :: "u32 \<Rightarrow> u8 list" where
  "be32_bytes w = [ucast (drop_bit 24 w), ucast (drop_bit 16 w), ucast (drop_bit 8 w), ucast w]"

definition le16_value :: "u8 list \<Rightarrow> u16" where
  "le16_value bs = ucast (bs ! 0) OR push_bit 8 (ucast (bs ! 1))"

definition be16_value :: "u8 list \<Rightarrow> u16" where
  "be16_value bs = ucast (bs ! 1) OR push_bit 8 (ucast (bs ! 0))"

definition le32_value :: "u8 list \<Rightarrow> u32" where
  "le32_value bs = ucast (bs ! 0) OR push_bit 8 (ucast (bs ! 1)) OR
     push_bit 16 (ucast (bs ! 2)) OR push_bit 24 (ucast (bs ! 3))"

definition be32_value :: "u8 list \<Rightarrow> u32" where
  "be32_value bs = ucast (bs ! 3) OR push_bit 8 (ucast (bs ! 2)) OR
     push_bit 16 (ucast (bs ! 1)) OR push_bit 24 (ucast (bs ! 0))"

lemma le16_round_trip [simp, word_simps]: "le16_value (le16_bytes w) = w"
  by (rule bit_word_eqI) (auto simp: le16_value_def le16_bytes_def bit_simps)

lemma be16_round_trip [simp, word_simps]: "be16_value (be16_bytes w) = w"
  by (rule bit_word_eqI) (auto simp: be16_value_def be16_bytes_def bit_simps)

lemma le32_round_trip [simp, word_simps]: "le32_value (le32_bytes w) = w"
proof (rule bit_word_eqI)
  fix n :: nat
  assume "n < LENGTH(32)"
  then show "bit (le32_value (le32_bytes w)) n \<longleftrightarrow> bit w n"
    by (cases "24 \<le> n"; cases "16 \<le> n") (auto simp: le32_value_def le32_bytes_def bit_simps)
qed

lemma be32_round_trip [simp, word_simps]: "be32_value (be32_bytes w) = w"
proof (rule bit_word_eqI)
  fix n :: nat
  assume "n < LENGTH(32)"
  then show "bit (be32_value (be32_bytes w)) n \<longleftrightarrow> bit w n"
    by (cases "24 \<le> n"; cases "16 \<le> n") (auto simp: be32_value_def be32_bytes_def bit_simps)
qed

lemma length_endian_bytes [simp, word_simps]:
  "length (le16_bytes w) = 2" "length (be16_bytes w) = 2"
  "length (le32_bytes v) = 4" "length (be32_bytes v) = 4"
  by (simp_all add: le16_bytes_def be16_bytes_def le32_bytes_def be32_bytes_def)

text \<open>The two byte orders hold the same bytes in opposite order.\<close>

lemma be16_is_rev_le16: "be16_bytes w = rev (le16_bytes w)"
  by (simp add: be16_bytes_def le16_bytes_def)

lemma be32_is_rev_le32: "be32_bytes w = rev (le32_bytes w)"
  by (simp add: be32_bytes_def le32_bytes_def)

section \<open>Memory\<close>

text \<open>An allocation is the list of its bytes. A read or write outside it is undefined
  behaviour, here the value \<^term>\<open>None\<close>.\<close>

definition mem_read :: "u8 list \<Rightarrow> nat \<Rightarrow> nat \<Rightarrow> u8 list option" where
  "mem_read m i n = (if i + n \<le> length m then Some (take n (drop i m)) else None)"

definition mem_write :: "u8 list \<Rightarrow> nat \<Rightarrow> u8 list \<Rightarrow> u8 list option" where
  "mem_write m i bs =
     (if i + length bs \<le> length m then Some (take i m @ bs @ drop (i + length bs) m) else None)"

lemma mem_write_length: "mem_write m i bs = Some m' \<Longrightarrow> length m' = length m"
  by (auto simp: mem_write_def split: if_splits)

lemma mem_read_written: "mem_write m i bs = Some m' \<Longrightarrow> mem_read m' i (length bs) = Some bs"
  by (auto simp: mem_write_def mem_read_def split: if_splits)

lemma mem_read_elsewhere:
  assumes "mem_write m i bs = Some m'" and "j + n \<le> i \<or> i + length bs \<le> j"
  shows "mem_read m' j n = mem_read m j n"
proof -
  from assms(1) have m': "m' = take i m @ bs @ drop (i + length bs) m" and le: "i + length bs \<le> length m"
    by (auto simp: mem_write_def split: if_splits)
  from assms(2) show ?thesis
  proof
    assume "j + n \<le> i"
    then have "take n (drop j m') = take n (drop j m)"
      using le by (simp add: m' drop_take)
    with \<open>j + n \<le> i\<close> show ?thesis using le by (simp add: mem_read_def m')
  next
    assume "i + length bs \<le> j"
    then have "drop j m' = drop j m" using le by (simp add: m')
    then show ?thesis using le by (simp add: mem_read_def m')
  qed
qed

text \<open>A window of length \<open>l\<close> at the front of the memory.\<close>

lemma take_drop_window: "i + n \<le> l \<Longrightarrow> take n (drop i (take l xs)) = take n (drop i xs)"
  by (simp add: drop_take)

lemma patch_window:
  assumes "i + length bs \<le> l"
  shows "take l (take i xs @ bs @ drop (i + length bs) xs) =
    take i (take l xs) @ bs @ drop (i + length bs) (take l xs)"
proof -
  have "take l (take i xs) = take i (take l xs)" by (simp add: min.commute)
  moreover have "take (l - length (take i xs)) bs = bs" using assms by simp
  moreover have "take (l - length (take i xs) - length bs) (drop (i + length bs) xs) =
      drop (i + length bs) (take l xs)"
    by (cases "i \<le> length xs") (simp_all add: drop_take)
  ultimately show ?thesis by (simp only: take_append)
qed

section \<open>C strings\<close>

text \<open>The characters of a \<^verbatim>\<open>char\<close> array up to its terminator.\<close>

definition c_string :: "u8 list \<Rightarrow> u8 list" where
  "c_string bs = takeWhile (\<lambda>b. b \<noteq> 0) bs"

lemma c_string_terminated [simp]: "c_string (xs @ 0 # ys) = c_string xs"
  by (simp add: c_string_def takeWhile_tail)

lemma c_string_id [simp]: "0 \<notin> set xs \<Longrightarrow> c_string xs = xs"
  by (auto simp: c_string_def takeWhile_eq_all_conv)

lemma c_string_short:
  assumes "0 \<in> set (take n bs)"
  shows "length (c_string bs) < n"
proof -
  from assms obtain i where i: "i < n" "i < length bs" "bs ! i = 0" by (auto simp: in_set_conv_nth)
  then have "\<not> i < length (c_string bs)" using nth_length_takeWhile takeWhile_nth [of i "\<lambda>b. b \<noteq> 0" bs]
    by (metis (mono_tags, lifting) c_string_def nth_mem set_takeWhileD)
  with i(1) show ?thesis by simp
qed

section \<open>Ethernet addresses and memcmp\<close>

datatype ether_addr = EtherAddr u8 u8 u8 u8 u8 u8

primrec ether_bytes :: "ether_addr \<Rightarrow> u8 list" where
  "ether_bytes (EtherAddr a b c d e f) = [a, b, c, d, e, f]"

definition ether_of_bytes :: "u8 list \<Rightarrow> ether_addr" where
  "ether_of_bytes bs = EtherAddr (bs ! 0) (bs ! 1) (bs ! 2) (bs ! 3) (bs ! 4) (bs ! 5)"

lemma length_ether_bytes [simp, layout_simps]: "length (ether_bytes a) = 6"
  by (cases a) simp

lemma ether_round_trip [simp, layout_simps]: "ether_of_bytes (ether_bytes a) = a"
  by (cases a) (simp add: ether_of_bytes_def)

lemma ether_bytes_of_bytes: "length bs = 6 \<Longrightarrow> ether_bytes (ether_of_bytes bs) = bs"
  by (rule nth_equalityI) (auto simp: ether_of_bytes_def nth_Cons' numeral_eq_Suc less_Suc_eq)

lemma ether_bytes_inject [simp]: "ether_bytes a = ether_bytes b \<longleftrightarrow> a = b"
  by (cases a; cases b) simp

text \<open>\<^verbatim>\<open>memcmp\<close> orders byte strings lexicographically by unsigned bytes; only the sign of its
  result is specified.\<close>

fun memcmp :: "u8 list \<Rightarrow> u8 list \<Rightarrow> int" where
  "memcmp (x # xs) (y # ys) = (if x < y then - 1 else if y < x then 1 else memcmp xs ys)"
| "memcmp _ _ = 0"

lemma memcmp_eq_0: "length xs = length ys \<Longrightarrow> memcmp xs ys = 0 \<longleftrightarrow> xs = ys"
  by (induction xs ys rule: list_induct2) auto

lemma memcmp_swap: "length xs = length ys \<Longrightarrow> memcmp ys xs = - memcmp xs ys"
  by (induction xs ys rule: list_induct2) auto

lemma memcmp_less_trans:
  "length xs = length ys \<Longrightarrow> length ys = length zs \<Longrightarrow>
   memcmp xs ys < 0 \<Longrightarrow> memcmp ys zs < 0 \<Longrightarrow> memcmp xs zs < 0"
  by (induction xs ys zs rule: list_induct3) (auto split: if_splits)

lemma memcmp_lt_cases: "length xs = length ys \<Longrightarrow> memcmp xs ys < 0 \<or> xs = ys \<or> memcmp ys xs < 0"
  by (induction xs ys rule: list_induct2) auto

text \<open>The order of \<^verbatim>\<open>memcmp\<close> makes the addresses a linear order.\<close>

instantiation ether_addr :: linorder
begin

definition less_ether_addr :: "ether_addr \<Rightarrow> ether_addr \<Rightarrow> bool" where
  "less_ether_addr a b \<longleftrightarrow> memcmp (ether_bytes a) (ether_bytes b) < 0"

definition less_eq_ether_addr :: "ether_addr \<Rightarrow> ether_addr \<Rightarrow> bool" where
  "less_eq_ether_addr a b \<longleftrightarrow> a = b \<or> memcmp (ether_bytes a) (ether_bytes b) < 0"

instance
proof
  fix x y z :: ether_addr
  have self: "memcmp (ether_bytes x) (ether_bytes x) = 0" by (simp add: memcmp_eq_0)
  have swap: "memcmp (ether_bytes y) (ether_bytes x) = - memcmp (ether_bytes x) (ether_bytes y)"
    by (rule memcmp_swap) simp
  show "x < y \<longleftrightarrow> x \<le> y \<and> \<not> y \<le> x"
    using self swap by (auto simp: less_ether_addr_def less_eq_ether_addr_def)
  show "x \<le> x" by (simp add: less_eq_ether_addr_def)
  show "x \<le> y \<Longrightarrow> y \<le> z \<Longrightarrow> x \<le> z"
    using memcmp_less_trans [of "ether_bytes x" "ether_bytes y" "ether_bytes z"]
    by (auto simp: less_eq_ether_addr_def)
  show "x \<le> y \<Longrightarrow> y \<le> x \<Longrightarrow> x = y"
    using swap by (auto simp: less_eq_ether_addr_def)
  show "x \<le> y \<or> y \<le> x"
    using memcmp_lt_cases [of "ether_bytes x" "ether_bytes y"] by (auto simp: less_eq_ether_addr_def)
qed

end

lemma memcmp_ether_less: "memcmp (ether_bytes a) (ether_bytes b) < 0 \<longleftrightarrow> a < b"
  by (simp add: less_ether_addr_def)

lemma memcmp_ether_greater: "0 < memcmp (ether_bytes a) (ether_bytes b) \<longleftrightarrow> b < a"
  using memcmp_swap [of "ether_bytes a" "ether_bytes b"] by (auto simp: less_ether_addr_def)

lemma memcmp_ether_eq: "memcmp (ether_bytes a) (ether_bytes b) = 0 \<longleftrightarrow> a = b"
  by (simp add: memcmp_eq_0)

lemmas memcmp_ether = memcmp_ether_less memcmp_ether_greater memcmp_ether_eq

end
