(* ===== verification/Siphash.thy ===== *)
theory Siphash
  imports Prelude
begin

text \<open>
  Model of \<^verbatim>\<open>src/src/siphash24.c\<close>, the keyed hash of the peer table, on a little-endian host
  (the code loads and stores words with \<^verbatim>\<open>memcpy\<close>). The optimised routine, with its loop over
  whole words and its fall-through switch for the remaining bytes, is shown to compute
  SipHash-2-4 as published: a specification that shares nothing with the code but the words.
\<close>

section \<open>The routine\<close>

definition load64_le :: "u8 list \<Rightarrow> u64" where
  "load64_le src = ucast (src ! 0) OR push_bit 8 (ucast (src ! 1)) OR push_bit 16 (ucast (src ! 2)) OR
     push_bit 24 (ucast (src ! 3)) OR push_bit 32 (ucast (src ! 4)) OR push_bit 40 (ucast (src ! 5)) OR
     push_bit 48 (ucast (src ! 6)) OR push_bit 56 (ucast (src ! 7))"

definition rotl64 :: "u64 \<Rightarrow> nat \<Rightarrow> u64" where
  "rotl64 x b = push_bit b x OR drop_bit (64 - b) x"

type_synonym sip_state = "u64 \<times> u64 \<times> u64 \<times> u64"

definition SIPROUND :: "sip_state \<Rightarrow> sip_state" where
  "SIPROUND v =
     (let (v0, v1, v2, v3) = v;
          v0 = v0 + v1;
          v1 = rotl64 v1 13;
          v1 = v1 XOR v0;
          v0 = rotl64 v0 32;
          v2 = v2 + v3;
          v3 = rotl64 v3 16;
          v3 = v3 XOR v2;
          v0 = v0 + v3;
          v3 = rotl64 v3 21;
          v3 = v3 XOR v0;
          v2 = v2 + v1;
          v1 = rotl64 v1 17;
          v1 = v1 XOR v2;
          v2 = rotl64 v2 32
      in (v0, v1, v2, v3))"

text \<open>One message word: the body of the loop.\<close>

definition sip_absorb :: "sip_state \<Rightarrow> u64 \<Rightarrow> sip_state" where
  "sip_absorb v m =
     (let (v0, v1, v2, v3) = v;
          (v0, v1, v2, v3) = SIPROUND (SIPROUND (v0, v1, v2, v3 XOR m))
      in (v0 XOR m, v1, v2, v3))"

text \<open>The loop over whole words; it stops with the bytes that are left.\<close>

fun sip_loop :: "sip_state \<Rightarrow> u8 list \<Rightarrow> sip_state \<times> u8 list" where
  "sip_loop v (b0 # b1 # b2 # b3 # b4 # b5 # b6 # b7 # rest) =
     sip_loop (sip_absorb v (load64_le [b0, b1, b2, b3, b4, b5, b6, b7])) rest"
| "sip_loop v rest = (v, rest)"

text \<open>The fall-through switch on the number of bytes left.\<close>

definition sip_tail :: "u64 \<Rightarrow> u8 list \<Rightarrow> u64" where
  "sip_tail b rest =
     (let left = length rest;
          b = (if left \<ge> 7 then b OR push_bit 48 (ucast (rest ! 6)) else b);
          b = (if left \<ge> 6 then b OR push_bit 40 (ucast (rest ! 5)) else b);
          b = (if left \<ge> 5 then b OR push_bit 32 (ucast (rest ! 4)) else b);
          b = (if left \<ge> 4 then b OR push_bit 24 (ucast (rest ! 3)) else b);
          b = (if left \<ge> 3 then b OR push_bit 16 (ucast (rest ! 2)) else b);
          b = (if left \<ge> 2 then b OR push_bit 8 (ucast (rest ! 1)) else b);
          b = (if left \<ge> 1 then b OR ucast (rest ! 0) else b)
      in b)"

definition siphash24 :: "u8 list \<Rightarrow> u8 list \<Rightarrow> u64" where
  "siphash24 inp k =
     (let v0 = 0x736f6d6570736575;
          v1 = 0x646f72616e646f6d;
          v2 = 0x6c7967656e657261;
          v3 = 0x7465646279746573;
          k0 = load64_le k;
          k1 = load64_le (drop 8 k);
          b = push_bit 56 (of_nat (length inp));
          v3 = v3 XOR k1;
          v2 = v2 XOR k0;
          v1 = v1 XOR k1;
          v0 = v0 XOR k0;
          (v, rest) = sip_loop (v0, v1, v2, v3) inp;
          b = sip_tail b rest;
          (v0, v1, v2, v3) = v;
          v3 = v3 XOR b;
          (v0, v1, v2, v3) = SIPROUND (SIPROUND (v0, v1, v2, v3));
          v0 = v0 XOR b;
          v2 = v2 XOR 0xff;
          (v0, v1, v2, v3) = SIPROUND (SIPROUND (SIPROUND (SIPROUND (v0, v1, v2, v3))))
      in v0 XOR v1 XOR v2 XOR v3)"

section \<open>The specification\<close>

text \<open>SipHash-2-4 as its authors define it, with none of the functions of the code: words are little-endian values, a rotation is
  the library's, the two halves of a round run side by side. The message is padded with zeros and its length
  modulo 256 to whole words, every word is compressed with two rounds, four rounds finalise.\<close>

primrec le_nat :: "u8 list \<Rightarrow> nat" where
  "le_nat [] = 0"
| "le_nat (b # bs) = unat b + 256 * le_nat bs"

definition le_word :: "u8 list \<Rightarrow> u64" where
  "le_word bs = of_nat (le_nat bs)"

definition SipRound :: "sip_state \<Rightarrow> sip_state" where
  "SipRound v =
     (case v of (v0, v1, v2, v3) \<Rightarrow>
        (let (a0, a2) = (v0 + v1, v2 + v3);
             (a1, a3) = (word_rotl 13 v1 XOR a0, word_rotl 16 v3 XOR a2);
             (b2, b0) = (a2 + a1, word_rotl 32 a0 + a3);
             (b1, b3) = (word_rotl 17 a1 XOR b2, word_rotl 21 a3 XOR b0) in
         (b0, b1, word_rotl 32 b2, b3)))"

definition sip_compress :: "sip_state \<Rightarrow> u64 \<Rightarrow> sip_state" where
  "sip_compress v m =
     (case v of (v0, v1, v2, v3) \<Rightarrow>
        (case (SipRound ^^ 2) (v0, v1, v2, v3 XOR m) of (v0, v1, v2, v3) \<Rightarrow> (v0 XOR m, v1, v2, v3)))"

definition sip_pad :: "u8 list \<Rightarrow> u8 list" where
  "sip_pad m = m @ replicate (7 - length m mod 8) 0 @ [of_nat (length m mod 256)]"

definition sip_words :: "u8 list \<Rightarrow> u64 list" where
  "sip_words bs = map (\<lambda>i. le_word (take 8 (drop (8 * i) bs))) [0..<length bs div 8]"

definition sip_init :: "u8 list \<Rightarrow> sip_state" where
  "sip_init k =
     (let k0 = le_word (take 8 k); k1 = le_word (take 8 (drop 8 k)) in
      (k0 XOR 0x736f6d6570736575, k1 XOR 0x646f72616e646f6d, k0 XOR 0x6c7967656e657261, k1 XOR 0x7465646279746573))"

definition sip_final :: "sip_state \<Rightarrow> u64" where
  "sip_final v =
     (case v of (v0, v1, v2, v3) \<Rightarrow>
        (case (SipRound ^^ 4) (v0, v1, v2 XOR 0xff, v3) of (v0, v1, v2, v3) \<Rightarrow> v0 XOR v1 XOR v2 XOR v3))"

definition siphash24_spec :: "u8 list \<Rightarrow> u8 list \<Rightarrow> u64" where
  "siphash24_spec m k = sip_final (foldl sip_compress (sip_init k) (sip_words (sip_pad m)))"

section \<open>Correctness\<close>

lemma rotl64_word_rotl:
  assumes "0 < b" and "b < 64"
  shows "rotl64 x b = word_rotl b x"
proof (rule bit_word_eqI)
  fix n
  assume "n < LENGTH(64)"
  then have n: "n < 64" by simp
  then have "(n + 64 - b) mod 64 = (if b \<le> n then n - b else 64 + n - b)" using assms by (auto simp: mod_if)
  moreover have "\<not> bit x (64 + n - b)" if "b \<le> n" using bit_imp_le_length [of x "64 + n - b"] that by auto
  ultimately show "bit (rotl64 x b) n \<longleftrightarrow> bit (word_rotl b x) n"
    using assms n by (auto simp: rotl64_def bit_simps)
qed

lemma SIPROUND_SipRound: "SIPROUND = SipRound"
  by (rule ext) (simp add: SIPROUND_def SipRound_def rotl64_word_rotl Let_def split: prod.split)

lemma sip_absorb_compress: "sip_absorb = sip_compress"
  by (intro ext) (simp add: sip_absorb_def sip_compress_def SIPROUND_SipRound Let_def eval_nat_numeral split: prod.split)

lemma le_word_Nil [simp]: "le_word [] = 0"
  by (simp add: le_word_def)

lemma le_word_Cons: "le_word (b # bs) = ucast b OR push_bit 8 (le_word bs)"
proof -
  have "le_word (b # bs) = ucast b + push_bit 8 (le_word bs)"
    by (simp add: le_word_def push_bit_eq_mult mult.commute)
  also have "\<dots> = ucast b OR push_bit 8 (le_word bs)"
    by (rule disjunctive_add) (auto simp: bit_simps dest: bit_imp_le_length)
  finally show ?thesis .
qed

lemma load64_le_word:
  assumes "8 \<le> length bs"
  shows "load64_le bs = le_word (take 8 bs)"
proof -
  obtain b0 b1 b2 b3 b4 b5 b6 b7 rest where "bs = b0 # b1 # b2 # b3 # b4 # b5 # b6 # b7 # rest"
    using assms by (auto simp: Suc_le_length_iff eval_nat_numeral)
  then show ?thesis
    by (simp add: load64_le_def le_word_Cons push_bit_or push_bit_push_bit del: push_bit_numeral)
qed

lemma sip_words_short: "length bs < 8 \<Longrightarrow> sip_words bs = []"
  by (simp add: sip_words_def)

lemma sip_words_Cons: "8 \<le> length bs \<Longrightarrow> sip_words bs = le_word (take 8 bs) # sip_words (drop 8 bs)"
proof -
  assume "8 \<le> length bs"
  then have "length bs div 8 = Suc (length (drop 8 bs) div 8)" by (simp add: le_div_geq)
  then show ?thesis
    by (simp add: sip_words_def upt_conv_Cons map_Suc_upt [symmetric] comp_def add.commute del: upt_Suc)
qed

lemma sip_loop_words:
  "sip_loop v m = (v', rest) \<Longrightarrow>
   length rest < 8 \<and> length rest = length m mod 8 \<and>
   (\<exists>ws. v' = foldl sip_compress v ws \<and> (\<forall>tl. sip_words (m @ tl) = ws @ sip_words (rest @ tl)))"
proof (induction v m arbitrary: rule: sip_loop.induct)
  case (1 v b0 b1 b2 b3 b4 b5 b6 b7 r)
  let ?bs = "[b0, b1, b2, b3, b4, b5, b6, b7]"
  have w: "load64_le ?bs = le_word ?bs" using load64_le_word [of ?bs] by simp
  from "1" obtain ws where ws: "v' = foldl sip_compress (sip_compress v (le_word ?bs)) ws"
    "\<forall>tl. sip_words (r @ tl) = ws @ sip_words (rest @ tl)"
    and len: "length rest < 8" "length rest = length r mod 8" by (auto simp: w sip_absorb_compress)
  have "v' = foldl sip_compress v (le_word ?bs # ws)" using ws(1) by simp
  moreover have "\<forall>tl. sip_words ((b0 # b1 # b2 # b3 # b4 # b5 # b6 # b7 # r) @ tl) = (le_word ?bs # ws) @ sip_words (rest @ tl)"
    using ws(2) by (simp add: sip_words_Cons)
  moreover have "length rest = length (b0 # b1 # b2 # b3 # b4 # b5 # b6 # b7 # r) mod 8"
    using len(2) by simp
  ultimately show ?case using len(1) by blast
qed (auto intro: exI [of _ "[]"])

text \<open>The switch builds the last padded word.\<close>

lemma sip_tail_word:
  assumes "length rest < 8"
  shows "sip_words (rest @ replicate (7 - length rest) 0 @ [of_nat n]) = [sip_tail (push_bit 56 (of_nat n)) rest]"
proof -
  let ?bs = "rest @ replicate (7 - length rest) 0 @ [of_nat n]"
  have "push_bit 56 (ucast (of_nat n :: u8)) = push_bit 56 (of_nat n :: u64)"
    by (rule bit_word_eqI) (auto simp: bit_simps)
  then have top: "ucast (of_nat n :: u8) * 0x100000000000000 = (of_nat n * 0x100000000000000 :: u64)"
    by (simp add: push_bit_eq_mult)
  have len: "length ?bs = 8" using assms by simp
  have "length rest = 0 \<or> length rest = 1 \<or> length rest = 2 \<or> length rest = 3 \<or> length rest = 4 \<or>
      length rest = 5 \<or> length rest = 6 \<or> length rest = 7"
    using assms by linarith
  then have "load64_le ?bs = sip_tail (push_bit 56 (of_nat n)) rest"
    by (elim disjE; clarsimp simp: length_Suc_conv eval_nat_numeral)
      (simp_all add: load64_le_def sip_tail_def top ac_simps eval_nat_numeral)
  moreover have "sip_words ?bs = [le_word (take 8 ?bs)]"
    using sip_words_Cons [of ?bs] sip_words_short [of "drop 8 ?bs"] by (simp only: len length_drop)
  ultimately show ?thesis using load64_le_word [of ?bs] len by simp
qed

section \<open>Properties\<close>

text \<open>C31. The optimised hash routine computes SipHash-2-4, as its authors specify it, of every message under every
  key of 16 bytes.\<close>

theorem siphash24_correct:
  assumes "length k = 16"
  shows "siphash24 m k = siphash24_spec m k"
proof -
  have keys: "load64_le k = le_word (take 8 k)" "load64_le (drop 8 k) = le_word (take 8 (drop 8 k))"
    using load64_le_word [of k] load64_le_word [of "drop 8 k"] assms by simp_all
  obtain v rest where loop: "sip_loop (sip_init k) m = (v, rest)" by fastforce
  from sip_loop_words [OF loop] obtain ws where v: "v = foldl sip_compress (sip_init k) ws"
    and ws: "\<And>tl. sip_words (m @ tl) = ws @ sip_words (rest @ tl)"
    and len: "length rest < 8" "length rest = length m mod 8" by blast
  have "(of_nat (length m mod 256) :: u8) = of_nat (length m)" by (simp add: word_of_nat_eq_iff take_bit_eq_mod)
  then have "sip_words (sip_pad m) = ws @ [sip_tail (push_bit 56 (of_nat (length m))) rest]"
    using sip_tail_word [OF len(1), of "length m"] by (simp add: sip_pad_def ws len(2))
  moreover have "SIPROUND (SIPROUND x) = (SipRound ^^ 2) x" "SIPROUND (SIPROUND (SIPROUND (SIPROUND x))) = (SipRound ^^ 4) x" for x
    by (simp_all add: SIPROUND_SipRound eval_nat_numeral)
  ultimately show ?thesis
    using loop by (simp add: siphash24_def siphash24_spec_def sip_init_def sip_final_def sip_compress_def Let_def v keys
        xor.commute split: prod.splits)
qed

lemma siphash_vector_rounds:
  shows "SIPROUND (0x7469686173716475, 0x6b617f6d656e6665, 0x6b7f62616d677361, 0x7c6d6c6a717c6d7b) =
      (0x64668a929363847f, 0x4ed232083d9aa8dc, 0xf2f74892d8141a2e, 0x9290f9810552f4a8)"
    and "SIPROUND (0x64668a929363847f, 0x4ed232083d9aa8dc, 0xf2f74892d8141a2e, 0x9290f9810552f4a8) =
      (0x4d07749cdd0858e0, 0xd52f6f62a4f59a4, 0x634cb3577b01fd3d, 0xa5224d6f55c7d9c8)"
    and "SIPROUND (0x4a017198de0a59e0, 0xd52f6f62a4f59a4, 0x634cb3577b01fd3d, 0xaa2c40635ecdd0c0) =
      (0x557560fb6063d060, 0x4c8e675bd961133e, 0xbd3d002b1703a181, 0xfb9441179a4a7315)"
    and "SIPROUND (0x557560fb6063d060, 0x4c8e675bd961133e, 0xbd3d002b1703a181, 0xfb9441179a4a7315) =
      (0x338bbea7645fb759, 0x414fc3fb98efe374, 0xccf13ea527b9f4bd, 0x5293f5da84008f82)"
    and "SIPROUND (0x3c85b3ab6f55be51, 0x414fc3fb98efe374, 0xccf13ea527b9f442, 0x5293f5da84008f82) =
      (0xf2a55244a20e48fe, 0xac5ad16ccc3ca6e4, 0x9fe5adb0a52f393a, 0xfd41d55e88f30308)"
    and "SIPROUND (0xf2a55244a20e48fe, 0xac5ad16ccc3ca6e4, 0x9fe5adb0a52f393a, 0xfd41d55e88f30308) =
      (0xb6c3fbdecc2ae4b4, 0x1638c86adc6b3cf0, 0x28b8b6ab62553d46, 0xc9465e86ec43eb95)"
    and "SIPROUND (0xb6c3fbdecc2ae4b4, 0x1638c86adc6b3cf0, 0x28b8b6ab62553d46, 0xc9465e86ec43eb95) =
      (0x58101b167209a5e6, 0xf8792ae75b66e7dd, 0x1da14c3ec7f0b4f7, 0x7624ba8a41bc4ad9)"
    and "SIPROUND (0x58101b167209a5e6, 0xf8792ae75b66e7dd, 0x1da14c3ec7f0b4f7, 0x7624ba8a41bc4ad9) =
      (0xf6bcd53893fecff1, 0x54b9964c7ea0d937, 0x1b38329c099bb55a, 0x1814bb89ad7be679)"
  by code_simp+

lemma siphash_vector_words:
  "load64_le [0, 1, 2, 3, 4, 5, 6, 7] = 0x0706050403020100"
  "load64_le [8, 9, 10, 11, 12, 13, 14, 15] = 0x0f0e0d0c0b0a0908"
  "sip_tail 0xf00000000000000 [8, 9, 10, 11, 12, 13, 14] = 0x0f0e0d0c0b0a0908"
  by code_simp+

text \<open>The routine reproduces the published SipHash-2-4 test vector (key 00 to 0f, message
  00 to 0e).\<close>

theorem siphash24_test_vector:
  "siphash24 [0, 1, 2, 3, 4, 5, 6, 7, 8, 9, 10, 11, 12, 13, 14]
     [0, 1, 2, 3, 4, 5, 6, 7, 8, 9, 10, 11, 12, 13, 14, 15] = 0xa129ca6149be45e5"
proof -
  have "load64_le [0, 1, 2, 3, 4, 5, 6, 7, 8, 9, 10, 11, 12, 13, 14, 15] = 0x0706050403020100"
    by code_simp
  then show ?thesis
    by (simp add: siphash24_def sip_absorb_def siphash_vector_words siphash_vector_rounds)
qed

text \<open>Hence the specification gives the published value too.\<close>

theorem siphash24_correct_witness:
  "siphash24_spec [0, 1, 2, 3, 4, 5, 6, 7, 8, 9, 10, 11, 12, 13, 14]
     [0, 1, 2, 3, 4, 5, 6, 7, 8, 9, 10, 11, 12, 13, 14, 15] = 0xa129ca6149be45e5"
  using siphash24_correct [of "[0, 1, 2, 3, 4, 5, 6, 7, 8, 9, 10, 11, 12, 13, 14, 15]"
      "[0, 1, 2, 3, 4, 5, 6, 7, 8, 9, 10, 11, 12, 13, 14]"] siphash24_test_vector by simp

end
