(* ===== verification/Hashmap.thy ===== *)
theory Hashmap
  imports Siphash
begin

text \<open>
  Model of \<^verbatim>\<open>src/src/hashmap.c\<close> and \<^verbatim>\<open>src/src/hashmap.h\<close>: the open-addressing hash map with
  linear probing (at most eight steps), doubling and an index-based iterator that stores the
  peer table. Keys are byte strings of the map's key size, \<^verbatim>\<open>any_t\<close> values are options (NULL is
  \<^term>\<open>None\<close>). Whether \<^verbatim>\<open>calloc\<close> of a number of elements succeeds is the parameter \<open>mem\<close>;
  mutual recursion between insertion and rehashing is bounded by fuel, and a lemma gives the fuel
  that is always enough. The locale \<open>finite_map\<close> states what the peer table relies on.
\<close>

section \<open>The map\<close>

datatype map_status = MAP_OK | MAP_OMEM | MAP_FULL | MAP_MISSING

record 'v hashmap_element =
  e_key :: "u8 list option"
  e_in_use :: bool
  e_data :: "'v option"

record 'v hashmap_map =
  hm_table_size :: nat
  hm_size :: int
  hm_key_size :: nat
  hm_data :: "'v hashmap_element list"
  hm_seed :: "u8 list"

definition INITIAL_SIZE :: nat where
  "INITIAL_SIZE = 256"

definition MAX_CHAIN_LENGTH :: nat where
  "MAX_CHAIN_LENGTH = 8"

text \<open>An element of memory cleared by \<^verbatim>\<open>calloc\<close>, also what removal leaves behind.\<close>

definition blank :: "'v hashmap_element" where
  "blank = \<lparr>e_key = None, e_in_use = False, e_data = None\<rparr>"

definition hashmap_new :: "(nat \<Rightarrow> bool) \<Rightarrow> nat \<Rightarrow> 'v hashmap_map option" where
  "hashmap_new mem key_size =
     (if mem INITIAL_SIZE
      then Some \<lparr>hm_table_size = INITIAL_SIZE, hm_size = 0, hm_key_size = key_size,
                 hm_data = replicate INITIAL_SIZE blank, hm_seed = replicate 16 0\<rparr>
      else None)"

definition hashmap_hash_int :: "'v hashmap_map \<Rightarrow> u8 list \<Rightarrow> nat" where
  "hashmap_hash_int m key = unat (siphash24 (take (hm_key_size m) key) (hm_seed m)) mod hm_table_size m"

definition key_matches :: "'v hashmap_map \<Rightarrow> nat \<Rightarrow> u8 list \<Rightarrow> bool" where
  "key_matches m i key =
     (case e_key (hm_data m ! i) of
        None \<Rightarrow> False
      | Some k \<Rightarrow> take (hm_key_size m) k = take (hm_key_size m) key)"

text \<open>The probing loop of \<^verbatim>\<open>hashmap_hash\<close> with \<open>n\<close> steps left; \<^term>\<open>None\<close> is MAP_FULL.\<close>

fun hash_probe :: "'v hashmap_map \<Rightarrow> u8 list \<Rightarrow> nat \<Rightarrow> nat \<Rightarrow> nat option" where
  "hash_probe m key 0 cur = None"
| "hash_probe m key (Suc n) cur =
     (if \<not> e_in_use (hm_data m ! cur) then Some cur
      else if e_in_use (hm_data m ! cur) \<and> key_matches m cur key then Some cur
      else hash_probe m key n ((cur + 1) mod hm_table_size m))"

definition hashmap_hash :: "'v hashmap_map \<Rightarrow> u8 list \<Rightarrow> nat option" where
  "hashmap_hash m key =
     (if hm_size m \<ge> int (hm_table_size m div 2) then None
      else hash_probe m key MAX_CHAIN_LENGTH (hashmap_hash_int m key))"

definition hm_store :: "'v hashmap_map \<Rightarrow> nat \<Rightarrow> u8 list \<Rightarrow> 'v option \<Rightarrow> 'v hashmap_map" where
  "hm_store m i key value =
     m\<lparr>hm_data := (hm_data m)[i := \<lparr>e_key = Some key, e_in_use = True, e_data = value\<rparr>],
       hm_size := hm_size m + 1\<rparr>"

text \<open>Insertion and rehashing call each other. The result is \<^term>\<open>None\<close> when the fuel (one unit
  per nested rehash) is used up or the new table size overflows \<^verbatim>\<open>int\<close>.\<close>

function (sequential)
  hashmap_put :: "nat \<Rightarrow> (nat \<Rightarrow> bool) \<Rightarrow> 'v hashmap_map \<Rightarrow> u8 list \<Rightarrow> 'v option \<Rightarrow> (map_status \<times> 'v hashmap_map) option"
  and hashmap_rehash :: "nat \<Rightarrow> (nat \<Rightarrow> bool) \<Rightarrow> 'v hashmap_map \<Rightarrow> (map_status \<times> 'v hashmap_map) option"
  and rehash_elements :: "nat \<Rightarrow> (nat \<Rightarrow> bool) \<Rightarrow> 'v hashmap_element list \<Rightarrow> 'v hashmap_map \<Rightarrow> (map_status \<times> 'v hashmap_map) option"
where
  "hashmap_put fuel mem m key value =
     (case hashmap_hash m key of
        Some index \<Rightarrow> Some (MAP_OK, hm_store m index key value)
      | None \<Rightarrow>
          (case fuel of
             0 \<Rightarrow> None
           | Suc f \<Rightarrow>
               (case hashmap_rehash f mem m of
                  None \<Rightarrow> None
                | Some (st, m') \<Rightarrow>
                    if st = MAP_OMEM then Some (MAP_OMEM, m') else hashmap_put f mem m' key value)))"
| "hashmap_rehash fuel mem m =
     (if \<not> int_range (2 * int (hm_table_size m)) then None
      else if \<not> mem (2 * hm_table_size m) then Some (MAP_OMEM, m)
      else rehash_elements fuel mem (take (hm_table_size m) (hm_data m))
        (m\<lparr>hm_data := replicate (2 * hm_table_size m) blank,
           hm_table_size := 2 * hm_table_size m, hm_size := 0\<rparr>))"
| "rehash_elements fuel mem [] m = Some (MAP_OK, m)"
| "rehash_elements fuel mem (e # es) m =
     (if \<not> e_in_use e then rehash_elements fuel mem es m
      else case e_key e of
        None \<Rightarrow> None
      | Some key \<Rightarrow>
          (case hashmap_put fuel mem m key (e_data e) of
             None \<Rightarrow> None
           | Some (st, m') \<Rightarrow>
               if st \<noteq> MAP_OK then Some (st, m') else rehash_elements fuel mem es m'))"
  by pat_completeness auto
termination
  by (relation "measures [\<lambda>x. case x of Inl (f, _) \<Rightarrow> f | Inr (Inl (f, _)) \<Rightarrow> f | Inr (Inr (f, _)) \<Rightarrow> f,
      \<lambda>x. case x of Inl _ \<Rightarrow> 0 | Inr (Inl _) \<Rightarrow> 2 | Inr (Inr _) \<Rightarrow> 1,
      \<lambda>x. case x of Inr (Inr (_, _, es, _)) \<Rightarrow> length es | _ \<Rightarrow> 0]") auto

declare hashmap_put.simps [simp del] hashmap_rehash.simps [simp del]

fun get_probe :: "'v hashmap_map \<Rightarrow> u8 list \<Rightarrow> nat \<Rightarrow> nat \<Rightarrow> nat option" where
  "get_probe m key 0 cur = None"
| "get_probe m key (Suc n) cur =
     (if e_in_use (hm_data m ! cur) \<and> key_matches m cur key then Some cur
      else get_probe m key n ((cur + 1) mod hm_table_size m))"

definition hm_remove_at :: "'v hashmap_map \<Rightarrow> nat \<Rightarrow> 'v hashmap_map" where
  "hm_remove_at m i = m\<lparr>hm_data := (hm_data m)[i := blank], hm_size := hm_size m - 1\<rparr>"

definition hashmap_get :: "'v hashmap_map \<Rightarrow> u8 list \<Rightarrow> bool \<Rightarrow> map_status \<times> 'v option \<times> 'v hashmap_map" where
  "hashmap_get m key remove =
     (case get_probe m key MAX_CHAIN_LENGTH (hashmap_hash_int m key) of
        Some i \<Rightarrow> (MAP_OK, e_data (hm_data m ! i), if remove then hm_remove_at m i else m)
      | None \<Rightarrow> (MAP_MISSING, None, m))"

definition hashmap_length :: "'v hashmap_map option \<Rightarrow> int" where
  "hashmap_length m = (case m of Some m \<Rightarrow> hm_size m | None \<Rightarrow> 0)"

text \<open>An iterator is its current index; the map it points to is passed along.\<close>

definition hashmap_it_new :: int where
  "hashmap_it_new = - 1"

function it_scan :: "'v hashmap_map \<Rightarrow> nat \<Rightarrow> nat option" where
  "it_scan m i =
     (if i < hm_table_size m
      then (if e_in_use (hm_data m ! i) then Some i else it_scan m (i + 1)) else None)"
  by pat_completeness auto
termination
  by (relation "measure (\<lambda>(m, i). hm_table_size m - i)") auto

declare it_scan.simps [simp del]

definition hashmap_it_next :: "'v hashmap_map \<Rightarrow> int \<Rightarrow> map_status \<times> int \<times> u8 list option \<times> 'v option" where
  "hashmap_it_next m it =
     (case it_scan m (nat (it + 1)) of
        Some i \<Rightarrow> (MAP_OK, int i, e_key (hm_data m ! i), e_data (hm_data m ! i))
      | None \<Rightarrow> (MAP_MISSING, max (it + 1) (int (hm_table_size m)), None, None))"

definition hashmap_it_remove :: "'v hashmap_map \<Rightarrow> int \<Rightarrow> map_status \<times> 'v hashmap_map" where
  "hashmap_it_remove m it =
     (if it < 0 \<or> it \<ge> int (hm_table_size m) then (MAP_MISSING, m)
      else if \<not> e_in_use (hm_data m ! nat it) then (MAP_MISSING, m)
      else (MAP_OK, hm_remove_at m (nat it)))"

text \<open>The loop \<^verbatim>\<open>while (hashmap_it_next(...) == MAP_OK)\<close> of the clients: the body looks at the
  element, updates the client's state and says whether the element is removed.\<close>

lemma it_scan_bounds: "it_scan m i = Some j \<Longrightarrow> i \<le> j \<and> j < hm_table_size m \<and> e_in_use (hm_data m ! j)"
proof (induction m i rule: it_scan.induct)
  case (1 m i)
  from 1(2) show ?case
    unfolding it_scan.simps [of m i] using 1(1) by (fastforce split: if_splits)
qed

lemma hm_remove_at_table_size [simp]: "hm_table_size (hm_remove_at m i) = hm_table_size m"
  by (simp add: hm_remove_at_def)

lemma hashmap_it_remove_table_size [simp]:
  "hm_table_size (snd (hashmap_it_remove m it)) = hm_table_size m"
  by (simp add: hashmap_it_remove_def)

lemma hashmap_it_next_advances:
  "hashmap_it_next m it = (MAP_OK, it', k, v) \<Longrightarrow> it < it' \<and> 0 \<le> it' \<and> it' < int (hm_table_size m)"
  by (auto simp: hashmap_it_next_def dest: it_scan_bounds split: option.splits)

function it_loop :: "('v option \<Rightarrow> 's \<Rightarrow> bool \<times> 's) \<Rightarrow> 'v hashmap_map \<Rightarrow> int \<Rightarrow> 's \<Rightarrow> 'v hashmap_map \<times> 's" where
  "it_loop body m it s =
     (case hashmap_it_next m it of
        (status, it', key, value) \<Rightarrow>
          if status = MAP_OK
          then (case body value s of
                  (remove, s') \<Rightarrow>
                    it_loop body (if remove then snd (hashmap_it_remove m it') else m) it' s')
          else (m, s))"
  by pat_completeness auto
termination
  by (relation "measure (\<lambda>(b, m, it, s). nat (int (hm_table_size m) - it))")
    (auto dest!: hashmap_it_next_advances sym [of "(_, _)" "hashmap_it_next _ _"])

declare it_loop.simps [simp del]

text \<open>A client that got a pointer from the map writes through it.\<close>

definition hm_write :: "'v hashmap_map \<Rightarrow> u8 list \<Rightarrow> 'v \<Rightarrow> 'v hashmap_map" where
  "hm_write m key value =
     (case get_probe m key MAX_CHAIN_LENGTH (hashmap_hash_int m key) of
        Some i \<Rightarrow> m\<lparr>hm_data := (hm_data m)[i := (hm_data m ! i)\<lparr>e_data := Some value\<rparr>]\<rparr>
      | None \<Rightarrow> m)"

section \<open>The finite map a table stands for\<close>

definition slot :: "'v hashmap_element \<Rightarrow> (u8 list \<times> 'v option) list" where
  "slot e = (if e_in_use e then [(the (e_key e), e_data e)] else [])"

definition elem_entries :: "'v hashmap_element list \<Rightarrow> (u8 list \<times> 'v option) list" where
  "elem_entries es = concat (map slot es)"

definition hm_entries :: "'v hashmap_map \<Rightarrow> (u8 list \<times> 'v option) list" where
  "hm_entries m = elem_entries (hm_data m)"

definition hm_map :: "'v hashmap_map \<Rightarrow> u8 list \<rightharpoonup> 'v option" where
  "hm_map m = map_of (hm_entries m)"

definition hm_reach :: "'v hashmap_map \<Rightarrow> nat \<Rightarrow> u8 list \<Rightarrow> bool" where
  "hm_reach m i k \<longleftrightarrow> (\<exists>j < MAX_CHAIN_LENGTH. i = (hashmap_hash_int m k + j) mod hm_table_size m)"

definition elem_ok :: "'v hashmap_map \<Rightarrow> nat \<Rightarrow> 'v hashmap_element \<Rightarrow> bool" where
  "elem_ok m i e \<longleftrightarrow> (e_in_use e \<longrightarrow>
     (\<exists>k. e_key e = Some k \<and> length k = hm_key_size m \<and> hm_reach m i k))"

definition hm_inv :: "'v hashmap_map \<Rightarrow> bool" where
  "hm_inv m \<longleftrightarrow> 0 < hm_table_size m \<and> length (hm_data m) = hm_table_size m \<and>
     (\<forall>i < hm_table_size m. elem_ok m i (hm_data m ! i)) \<and>
     distinct (map fst (hm_entries m)) \<and> hm_size m = int (length (hm_entries m))"

lemma slot_simps [simp]:
  "\<not> e_in_use e \<Longrightarrow> slot e = []"
  "e_in_use e \<Longrightarrow> slot e = [(the (e_key e), e_data e)]"
  "slot blank = []" "\<not> e_in_use blank"
  by (simp_all add: slot_def blank_def)

lemma elem_entries_simps [simp]:
  "elem_entries [] = []" "elem_entries (e # es) = slot e @ elem_entries es"
  "elem_entries (xs @ ys) = elem_entries xs @ elem_entries ys"
  by (simp_all add: elem_entries_def)

lemma elem_entries_blank [simp]: "elem_entries (replicate n blank) = []"
  by (induction n) simp_all

lemma elem_entries_at:
  assumes "i < length es"
  shows "elem_entries es = elem_entries (take i es) @ slot (es ! i) @ elem_entries (drop (Suc i) es)"
  using id_take_nth_drop [OF assms] by (metis elem_entries_simps(2,3))

lemma elem_entries_update:
  assumes "i < length es"
  shows "elem_entries (es[i := e]) = elem_entries (take i es) @ slot e @ elem_entries (drop (Suc i) es)"
  using assms by (simp add: upd_conv_take_nth_drop)

lemma elem_entries_memD:
  "(k, v) \<in> set (elem_entries es) \<Longrightarrow> \<exists>i < length es. e_in_use (es ! i) \<and> the (e_key (es ! i)) = k \<and> e_data (es ! i) = v"
  by (induction es) (fastforce simp: slot_def split: if_splits)+

lemma elem_entries_memI:
  "i < length es \<Longrightarrow> e_in_use (es ! i) \<Longrightarrow> (the (e_key (es ! i)), e_data (es ! i)) \<in> set (elem_entries es)"
  by (simp add: elem_entries_at [of i es])

lemma hm_map_eq_iff:
  "hm_inv m \<Longrightarrow> hm_inv m' \<Longrightarrow> hm_map m = hm_map m' \<longleftrightarrow> set (hm_entries m) = set (hm_entries m')"
  by (simp add: hm_map_def hm_inv_def map_of_inject_set)

lemma hm_inv_slot:
  assumes "hm_inv m" and "i < hm_table_size m" and "e_in_use (hm_data m ! i)"
  obtains k where "e_key (hm_data m ! i) = Some k" and "length k = hm_key_size m" and "hm_reach m i k"
    and "(k, e_data (hm_data m ! i)) \<in> set (hm_entries m)"
  using assms elem_entries_memI [of i "hm_data m"]
  by (fastforce simp: hm_inv_def elem_ok_def hm_entries_def)

section \<open>Probing\<close>

lemma get_probe_Some:
  "get_probe m key n cur = Some i \<Longrightarrow> cur < hm_table_size m \<Longrightarrow>
   i < hm_table_size m \<and> e_in_use (hm_data m ! i) \<and> key_matches m i key"
  by (induction n arbitrary: cur) (auto split: if_splits)

lemma get_probe_None:
  "get_probe m key n cur = None \<Longrightarrow> j < n \<Longrightarrow> cur < hm_table_size m \<Longrightarrow>
   \<not> (e_in_use (hm_data m ! ((cur + j) mod hm_table_size m)) \<and>
      key_matches m ((cur + j) mod hm_table_size m) key)"
proof (induction n arbitrary: cur j)
  case (Suc n)
  show ?case
  proof (cases j)
    case 0
    with Suc.prems show ?thesis by (auto split: if_splits)
  next
    case (Suc j')
    have "(((cur + 1) mod hm_table_size m) + j') mod hm_table_size m = (cur + j) mod hm_table_size m"
      by (simp add: Suc mod_add_left_eq)
    moreover have "get_probe m key n ((cur + 1) mod hm_table_size m) = None"
      using Suc.prems by (auto split: if_splits)
    ultimately show ?thesis
      using Suc.IH [of "(cur + 1) mod hm_table_size m" j'] Suc.prems Suc by auto
  qed
qed simp

lemma hash_probe_Some:
  "hash_probe m key n cur = Some i \<Longrightarrow> cur < hm_table_size m \<Longrightarrow>
   i < hm_table_size m \<and> (\<exists>j < n. i = (cur + j) mod hm_table_size m) \<and>
   (e_in_use (hm_data m ! i) \<longrightarrow> key_matches m i key)"
proof (induction n arbitrary: cur)
  case (Suc n)
  show ?case
  proof (cases "e_in_use (hm_data m ! cur) \<longrightarrow> key_matches m cur key")
    case True
    with Suc.prems have "i = cur" by (auto split: if_splits)
    with Suc.prems True show ?thesis by (auto intro!: exI [of _ 0])
  next
    case False
    then have "hash_probe m key n ((cur + 1) mod hm_table_size m) = Some i"
      using Suc.prems by (auto split: if_splits)
    with Suc.IH Suc.prems obtain j where "i < hm_table_size m" "j < n"
      "i = ((cur + 1) mod hm_table_size m + j) mod hm_table_size m"
      "e_in_use (hm_data m ! i) \<longrightarrow> key_matches m i key"
      by fastforce
    then show ?thesis by (auto simp: mod_add_left_eq intro!: exI [of _ "Suc j"])
  qed
qed simp

lemma hashmap_hash_int_less: "0 < hm_table_size m \<Longrightarrow> hashmap_hash_int m key < hm_table_size m"
  by (simp add: hashmap_hash_int_def)

text \<open>On a table that satisfies the invariant a lookup finds exactly the stored keys.\<close>

lemma get_probe_entry:
  assumes "hm_inv m" and "length key = hm_key_size m"
    and "get_probe m key MAX_CHAIN_LENGTH (hashmap_hash_int m key) = Some i"
  shows "i < hm_table_size m" "e_in_use (hm_data m ! i)" "e_key (hm_data m ! i) = Some key"
    "(key, e_data (hm_data m ! i)) \<in> set (hm_entries m)"
proof -
  have "0 < hm_table_size m" using assms(1) by (simp add: hm_inv_def)
  with get_probe_Some [OF assms(3)] hashmap_hash_int_less
  have *: "i < hm_table_size m" "e_in_use (hm_data m ! i)" "key_matches m i key" by auto
  moreover obtain k where "e_key (hm_data m ! i) = Some k" "length k = hm_key_size m"
    "(k, e_data (hm_data m ! i)) \<in> set (hm_entries m)"
    by (rule hm_inv_slot [OF assms(1) *(1,2)])
  ultimately show "i < hm_table_size m" "e_in_use (hm_data m ! i)" "e_key (hm_data m ! i) = Some key"
    "(key, e_data (hm_data m ! i)) \<in> set (hm_entries m)"
    using assms(2) by (auto simp: key_matches_def)
qed

lemma get_probe_absent:
  assumes "hm_inv m" and "length key = hm_key_size m"
    and "get_probe m key MAX_CHAIN_LENGTH (hashmap_hash_int m key) = None"
  shows "key \<notin> fst ` set (hm_entries m)"
proof
  assume "key \<in> fst ` set (hm_entries m)"
  then obtain v where "(key, v) \<in> set (elem_entries (hm_data m))" by (auto simp: hm_entries_def)
  from elem_entries_memD [OF this] obtain i where
    i: "i < hm_table_size m" "e_in_use (hm_data m ! i)" "the (e_key (hm_data m ! i)) = key"
    using assms(1) by (auto simp: hm_inv_def)
  obtain k' where "e_key (hm_data m ! i) = Some k'" "hm_reach m i k'"
    by (rule hm_inv_slot [OF assms(1) i(1,2)])
  with i(3) have k: "e_key (hm_data m ! i) = Some key" "hm_reach m i key" by auto
  then obtain j where "j < MAX_CHAIN_LENGTH" "i = (hashmap_hash_int m key + j) mod hm_table_size m"
    by (auto simp: hm_reach_def)
  moreover have "hashmap_hash_int m key < hm_table_size m"
    using i(1) by (intro hashmap_hash_int_less) simp
  moreover have "key_matches m i key" using k(1) by (simp add: key_matches_def)
  ultimately show False
    using get_probe_None [OF assms(3)] i(2) by blast
qed

lemma hashmap_get_lookup:
  assumes "hm_inv m" and "length key = hm_key_size m"
  shows "fst (hashmap_get m key remove) = (if hm_map m key = None then MAP_MISSING else MAP_OK)"
    and "fst (snd (hashmap_get m key remove)) = Option.bind (hm_map m key) id"
proof -
  have d: "distinct (map fst (hm_entries m))" using assms(1) by (simp add: hm_inv_def)
  have "hm_map m key = map_option (\<lambda>i. e_data (hm_data m ! i))
      (get_probe m key MAX_CHAIN_LENGTH (hashmap_hash_int m key))"
    using get_probe_absent [OF assms] map_of_is_SomeI [OF d get_probe_entry(4) [OF assms]]
    by (cases "get_probe m key MAX_CHAIN_LENGTH (hashmap_hash_int m key)")
      (simp_all add: hm_map_def map_of_eq_None_iff)
  then show "fst (hashmap_get m key remove) = (if hm_map m key = None then MAP_MISSING else MAP_OK)"
    and "fst (snd (hashmap_get m key remove)) = Option.bind (hm_map m key) id"
    by (auto simp: hashmap_get_def split: option.splits)
qed

section \<open>Changing one slot\<close>

lemma hm_reach_cong:
  "hm_table_size m' = hm_table_size m \<Longrightarrow> hm_key_size m' = hm_key_size m \<Longrightarrow> hm_seed m' = hm_seed m \<Longrightarrow>
   hm_reach m' = hm_reach m"
  by (simp add: hm_reach_def hashmap_hash_int_def fun_eq_iff)

lemma hm_update_inv:
  assumes "hm_inv m" and "i < hm_table_size m" and "elem_ok m i e"
    and "distinct (map fst (hm_entries (m\<lparr>hm_data := (hm_data m)[i := e]\<rparr>)))"
    and "sz = hm_size m - int (length (slot (hm_data m ! i))) + int (length (slot e))"
  shows "hm_inv (m\<lparr>hm_data := (hm_data m)[i := e], hm_size := sz\<rparr>)"
proof -
  let ?m = "m\<lparr>hm_data := (hm_data m)[i := e], hm_size := sz\<rparr>"
  have reach: "hm_reach ?m = hm_reach m" by (rule hm_reach_cong) simp_all
  have len: "length (hm_data m) = hm_table_size m" using assms(1) by (simp add: hm_inv_def)
  then have "int (length (hm_entries ?m)) = sz"
    using assms(1,2,5) elem_entries_at [of i "hm_data m"]
    by (simp add: hm_inv_def hm_entries_def elem_entries_update)
  moreover have "\<forall>j < hm_table_size m. elem_ok ?m j (hm_data ?m ! j)"
    using assms(1,2,3) len by (auto simp: hm_inv_def elem_ok_def reach nth_list_update)
  ultimately show ?thesis using assms(1,4) len by (simp add: hm_inv_def hm_entries_def)
qed

lemma hm_remove_at_inv:
  assumes "hm_inv m" and "i < hm_table_size m" and "e_in_use (hm_data m ! i)" and "e_key (hm_data m ! i) = Some k"
  shows "hm_inv (hm_remove_at m i)" "hm_map (hm_remove_at m i) = (hm_map m)(k := None)"
proof -
  let ?A = "elem_entries (take i (hm_data m))" and ?B = "elem_entries (drop (Suc i) (hm_data m))"
  have len: "i < length (hm_data m)" using assms(1,2) by (simp add: hm_inv_def)
  have old: "hm_entries m = ?A @ (k, e_data (hm_data m ! i)) # ?B"
    using elem_entries_at [OF len] assms(3,4) by (simp add: hm_entries_def)
  have new: "hm_entries (hm_remove_at m i) = ?A @ ?B"
    by (simp add: hm_entries_def hm_remove_at_def elem_entries_update [OF len])
  have d: "distinct (map fst (hm_entries m))" using assms(1) by (simp add: hm_inv_def)
  with old new have "distinct (map fst (hm_entries (m\<lparr>hm_data := (hm_data m)[i := blank]\<rparr>)))"
    by (auto simp: hm_entries_def hm_remove_at_def)
  then show "hm_inv (hm_remove_at m i)"
    unfolding hm_remove_at_def by (rule hm_update_inv [OF assms(1,2), rotated]) (use assms(3) in \<open>auto simp: elem_ok_def\<close>)
  from d old have "k \<notin> fst ` set ?A" "k \<notin> fst ` set ?B" by (auto simp: image_iff)
  then have "map_of ?A k = None" "map_of ?B k = None" by (auto simp: map_of_eq_None_iff)
  then show "hm_map (hm_remove_at m i) = (hm_map m)(k := None)"
    unfolding hm_map_def old new by (auto simp: fun_eq_iff map_add_def split: option.splits)
qed

lemma hashmap_get_remove:
  assumes "hm_inv m" and "length key = hm_key_size m" and "hashmap_get m key remove = (st, v, m')"
  shows "hm_inv m'" "hm_map m' = (if remove then (hm_map m)(key := None) else hm_map m)"
proof -
  have absent: "hm_map m key = None" if "get_probe m key MAX_CHAIN_LENGTH (hashmap_hash_int m key) = None"
    using get_probe_absent [OF assms(1,2) that] by (auto simp: hm_map_def map_of_eq_None_iff)
  show "hm_inv m'" "hm_map m' = (if remove then (hm_map m)(key := None) else hm_map m)"
    using assms hm_remove_at_inv [OF assms(1)] get_probe_entry [OF assms(1,2)] absent
    by (auto simp: hashmap_get_def fun_upd_idem split: option.splits if_splits)
qed

lemma hm_store_inv:
  assumes "hm_inv m" and "i < hm_table_size m" and "\<not> e_in_use (hm_data m ! i)" and "hm_reach m i k"
    and "length k = hm_key_size m" and "hm_map m k = None"
  shows "hm_inv (hm_store m i k v)" "set (hm_entries (hm_store m i k v)) = insert (k, v) (set (hm_entries m))"
proof -
  let ?A = "elem_entries (take i (hm_data m))" and ?B = "elem_entries (drop (Suc i) (hm_data m))"
  let ?e = "\<lparr>e_key = Some k, e_in_use = True, e_data = v\<rparr>"
  have len: "i < length (hm_data m)" using assms(1,2) by (simp add: hm_inv_def)
  have old: "hm_entries m = ?A @ ?B"
    using elem_entries_at [OF len] assms(3) by (simp add: hm_entries_def)
  have new: "hm_entries (hm_store m i k v) = ?A @ (k, v) # ?B"
    by (simp add: hm_entries_def hm_store_def elem_entries_update [OF len])
  then show "set (hm_entries (hm_store m i k v)) = insert (k, v) (set (hm_entries m))"
    unfolding old by simp
  have "distinct (map fst (hm_entries m))" "k \<notin> fst ` set (hm_entries m)"
    using assms(1,6) by (auto simp: hm_inv_def hm_map_def map_of_eq_None_iff)
  with old new have "distinct (map fst (hm_entries (m\<lparr>hm_data := (hm_data m)[i := ?e]\<rparr>)))"
    by (auto simp: hm_entries_def hm_store_def)
  then show "hm_inv (hm_store m i k v)"
    unfolding hm_store_def by (rule hm_update_inv [OF assms(1,2), rotated]) (use assms in \<open>auto simp: elem_ok_def\<close>)
qed

lemma hm_write_inv:
  assumes "hm_inv m" and "length k = hm_key_size m" and "hm_map m k \<noteq> None"
  shows "hm_inv (hm_write m k v)" "hm_map (hm_write m k v) = (hm_map m)(k \<mapsto> Some v)"
    "hm_size (hm_write m k v) = hm_size m" "hm_key_size (hm_write m k v) = hm_key_size m"
    "map fst (hm_entries (hm_write m k v)) = map fst (hm_entries m)"
proof -
  obtain i where gp: "get_probe m k MAX_CHAIN_LENGTH (hashmap_hash_int m k) = Some i"
    using get_probe_absent [OF assms(1,2)] assms(3)
    by (cases "get_probe m k MAX_CHAIN_LENGTH (hashmap_hash_int m k)") (auto simp: hm_map_def map_of_eq_None_iff)
  note i = get_probe_entry [OF assms(1,2) gp]
  let ?e = "(hm_data m ! i)\<lparr>e_data := Some v\<rparr>"
  let ?A = "elem_entries (take i (hm_data m))" and ?B = "elem_entries (drop (Suc i) (hm_data m))"
  have eq: "hm_write m k v = m\<lparr>hm_data := (hm_data m)[i := ?e]\<rparr>" by (simp add: hm_write_def gp)
  have len: "i < length (hm_data m)" using assms(1) i(1) by (simp add: hm_inv_def)
  have old: "hm_entries m = ?A @ (k, e_data (hm_data m ! i)) # ?B"
    using elem_entries_at [OF len] i by (simp add: hm_entries_def)
  have new: "hm_entries (hm_write m k v) = ?A @ (k, Some v) # ?B"
    using i by (simp add: hm_entries_def eq elem_entries_update [OF len])
  from old new show fst: "map fst (hm_entries (hm_write m k v)) = map fst (hm_entries m)" by simp
  have d: "distinct (map fst (hm_entries m))" using assms(1) by (simp add: hm_inv_def)
  have "hm_inv (m\<lparr>hm_data := (hm_data m)[i := ?e], hm_size := hm_size m\<rparr>)"
  proof (rule hm_update_inv [OF assms(1) i(1)])
    show "elem_ok m i ?e" using assms(1) i(1) by (simp add: hm_inv_def elem_ok_def)
    show "distinct (map fst (hm_entries (m\<lparr>hm_data := (hm_data m)[i := ?e]\<rparr>)))"
      using d fst by (simp add: eq)
  qed (use i in simp)
  then show "hm_inv (hm_write m k v)" by (simp add: eq)
  from d old have "k \<notin> fst ` set ?A" by (auto simp: image_iff)
  then have "map_of ?A k = None" by (auto simp: map_of_eq_None_iff)
  then show "hm_map (hm_write m k v) = (hm_map m)(k \<mapsto> Some v)"
    unfolding hm_map_def old new by (auto simp: fun_eq_iff map_add_def split: option.splits)
qed (simp_all add: hm_write_def split: option.splits)

section \<open>Insertion and rehashing\<close>

lemma hm_store_sizes [simp]:
  "hm_table_size (hm_store m i k v) = hm_table_size m" "hm_key_size (hm_store m i k v) = hm_key_size m"
  "hm_seed (hm_store m i k v) = hm_seed m"
  by (simp_all add: hm_store_def)

lemma hashmap_hash_free_slot:
  assumes "hm_inv m" and "length key = hm_key_size m" and "hm_map m key = None" and "hashmap_hash m key = Some i"
  shows "i < hm_table_size m" "\<not> e_in_use (hm_data m ! i)" "hm_reach m i key"
proof -
  have ts: "0 < hm_table_size m" using assms(1) by (simp add: hm_inv_def)
  from assms(4) have "hash_probe m key MAX_CHAIN_LENGTH (hashmap_hash_int m key) = Some i"
    by (auto simp: hashmap_hash_def split: if_splits)
  from hash_probe_Some [OF this hashmap_hash_int_less [OF ts]]
  show i: "i < hm_table_size m" and "hm_reach m i key"
    by (auto simp: hm_reach_def)
  show "\<not> e_in_use (hm_data m ! i)"
  proof
    assume u: "e_in_use (hm_data m ! i)"
    with \<open>hash_probe m key _ _ = Some i\<close> have "key_matches m i key"
      using hash_probe_Some hashmap_hash_int_less [OF ts] by blast
    moreover obtain k where "e_key (hm_data m ! i) = Some k" "length k = hm_key_size m"
      "(k, e_data (hm_data m ! i)) \<in> set (hm_entries m)"
      by (rule hm_inv_slot [OF assms(1) i u])
    ultimately show False
      using assms(2,3) by (force simp: key_matches_def hm_map_def map_of_eq_None_iff)
  qed
qed

lemma chain_Suc: "MAX_CHAIN_LENGTH = Suc 7"
  by (simp add: MAX_CHAIN_LENGTH_def)

lemma probe_first:
  "\<not> e_in_use (hm_data m ! i) \<Longrightarrow> hash_probe m key MAX_CHAIN_LENGTH i = Some i"
  "e_in_use (hm_data m ! i) \<Longrightarrow> key_matches m i key \<Longrightarrow> get_probe m key MAX_CHAIN_LENGTH i = Some i"
  unfolding chain_Suc hash_probe.simps get_probe.simps by simp_all

lemma hashmap_hash_first:
  "hm_size m < int (hm_table_size m div 2) \<Longrightarrow> \<not> e_in_use (hm_data m ! hashmap_hash_int m key) \<Longrightarrow>
   hashmap_hash m key = Some (hashmap_hash_int m key)"
  by (simp add: hashmap_hash_def probe_first)

text \<open>What insertion, rehashing and the rehashing loop leave behind, and how they end.\<close>

definition put_post where
  "put_post m new st m' \<longleftrightarrow> hm_inv m' \<and> hm_key_size m' = hm_key_size m \<and> hm_seed m' = hm_seed m \<and>
     hm_table_size m \<le> hm_table_size m' \<and> (st = MAP_OK \<or> st = MAP_OMEM) \<and>
     set (hm_entries m') \<subseteq> set (hm_entries m) \<union> new \<and>
     (st = MAP_OK \<longrightarrow> set (hm_entries m') = set (hm_entries m) \<union> new)"

definition elems_ok :: "'v hashmap_map \<Rightarrow> 'v hashmap_element list \<Rightarrow> bool" where
  "elems_ok m es \<longleftrightarrow> (\<forall>e \<in> set es. e_in_use e \<longrightarrow> (\<exists>k. e_key e = Some k \<and> length k = hm_key_size m)) \<and>
     distinct (map fst (elem_entries es)) \<and> fst ` set (elem_entries es) \<inter> fst ` set (hm_entries m) = {}"

lemma hm_map_None_iff: "hm_map m k = None \<longleftrightarrow> k \<notin> fst ` set (hm_entries m)"
  by (simp add: hm_map_def map_of_eq_None_iff)

lemma fresh_table:
  assumes "hm_inv m"
  defines "m' \<equiv> m\<lparr>hm_data := replicate (2 * hm_table_size m) blank, hm_table_size := 2 * hm_table_size m, hm_size := 0\<rparr>"
  shows "hm_inv m'" "hm_entries m' = []"
  using assms by (auto simp: hm_inv_def hm_entries_def elem_ok_def)

lemma elems_ok_table:
  assumes "hm_inv m" and "hm_key_size m' = hm_key_size m" and "hm_entries m' = []"
  shows "elems_ok m' (take (hm_table_size m) (hm_data m))"
proof -
  have "\<exists>k. e_key e = Some k \<and> length k = hm_key_size m" if "e \<in> set (hm_data m)" "e_in_use e" for e
    using that assms(1) by (auto simp: in_set_conv_nth hm_inv_def elem_ok_def)
  with assms show ?thesis by (simp add: elems_ok_def hm_inv_def flip: hm_entries_def)
qed

lemma put_post_trans:
  "put_post m new MAP_OK m1 \<Longrightarrow> put_post m1 new' st m2 \<Longrightarrow> put_post m (new \<union> new') st m2"
  unfolding put_post_def by auto

text \<open>The steps of the mutual induction, each with the results of the calls it makes.\<close>

lemma put_post_put:
  assumes "hm_inv m" and "length key = hm_key_size m" and "hm_map m key = None" and "hashmap_put fuel mem m key v = Some (st, m')"
    and rehash: "\<And>f st1 m1. hashmap_hash m key = None \<Longrightarrow> fuel = Suc f \<Longrightarrow> hashmap_rehash f mem m = Some (st1, m1) \<Longrightarrow> put_post m {} st1 m1"
    and put: "\<And>f st1 m1. hashmap_hash m key = None \<Longrightarrow> fuel = Suc f \<Longrightarrow> hashmap_rehash f mem m = Some (st1, m1) \<Longrightarrow> st1 \<noteq> MAP_OMEM \<Longrightarrow>
      hm_inv m1 \<Longrightarrow> length key = hm_key_size m1 \<Longrightarrow> hm_map m1 key = None \<Longrightarrow> hashmap_put f mem m1 key v = Some (st, m') \<Longrightarrow>
      put_post m1 {(key, v)} st m'"
  shows "put_post m {(key, v)} st m'"
proof (cases "hashmap_hash m key")
  case (Some i)
  with assms(4) show ?thesis
    using hm_store_inv [OF assms(1) _ _ _ assms(2,3), of i v] hashmap_hash_free_slot [OF assms(1-3) Some]
    by (auto simp: hashmap_put.simps [of fuel] put_post_def)
next
  case None
  with assms(4) obtain f st1 m1 where f: "fuel = Suc f" and r: "hashmap_rehash f mem m = Some (st1, m1)"
    and fin: "if st1 = MAP_OMEM then (st, m') = (MAP_OMEM, m1) else hashmap_put f mem m1 key v = Some (st, m')"
    by (auto simp: hashmap_put.simps [of fuel] split: nat.splits option.splits prod.splits if_splits)
  note post = rehash [OF None f r]
  show ?thesis
  proof (cases "st1 = MAP_OMEM")
    case True
    with post fin show ?thesis by (auto simp: put_post_def)
  next
    case False
    with post have ok: "put_post m {} MAP_OK m1" by (auto simp: put_post_def)
    then have "hm_inv m1" "length key = hm_key_size m1" "hm_map m1 key = None"
      using assms(2,3) by (auto simp: put_post_def hm_map_None_iff)
    with put [OF None f r False] fin False have "put_post m1 {(key, v)} st m'" by simp
    from put_post_trans [OF ok this] show ?thesis by simp
  qed
qed

definition doubled :: "'v hashmap_map \<Rightarrow> 'v hashmap_map" where
  "doubled m = m\<lparr>hm_data := replicate (2 * hm_table_size m) blank, hm_table_size := 2 * hm_table_size m, hm_size := 0\<rparr>"

lemma doubled_table:
  assumes "hm_inv m"
  shows "hm_inv (doubled m)" and "elems_ok (doubled m) (take (hm_table_size m) (hm_data m))" and "hm_entries (doubled m) = []"
    and "elem_entries (take (hm_table_size m) (hm_data m)) = hm_entries m"
    and "hm_table_size (doubled m) = 2 * hm_table_size m" and "hm_key_size (doubled m) = hm_key_size m" and "hm_seed (doubled m) = hm_seed m"
proof -
  note fresh = fresh_table [OF assms]
  show "hm_inv (doubled m)" "hm_entries (doubled m) = []" unfolding doubled_def by (rule fresh)+
  show "elems_ok (doubled m) (take (hm_table_size m) (hm_data m))"
    unfolding doubled_def by (rule elems_ok_table [OF assms]) (simp_all add: fresh)
  show "elem_entries (take (hm_table_size m) (hm_data m)) = hm_entries m"
    using assms by (simp add: hm_inv_def hm_entries_def)
qed (simp_all add: doubled_def)

lemma put_post_rehash:
  assumes "hm_inv m" and "hashmap_rehash fuel mem m = Some (st, m')"
    and elements: "\<And>st m'. rehash_elements fuel mem (take (hm_table_size m) (hm_data m)) (doubled m) = Some (st, m') \<Longrightarrow>
      put_post (doubled m) (set (elem_entries (take (hm_table_size m) (hm_data m)))) st m'"
  shows "put_post m {} st m'"
proof (cases "mem (2 * hm_table_size m)")
  case True
  with assms(2) have "rehash_elements fuel mem (take (hm_table_size m) (hm_data m)) (doubled m) = Some (st, m')"
    by (auto simp: hashmap_rehash.simps [of fuel] doubled_def split: if_splits)
  from elements [OF this] show ?thesis unfolding put_post_def doubled_table [OF assms(1)] by simp
next
  case False
  with assms(1,2) show ?thesis by (auto simp: hashmap_rehash.simps [of fuel] put_post_def split: if_splits)
qed

lemma put_post_elements:
  assumes "hm_inv m" and "elems_ok m (e # es)" and "rehash_elements fuel mem (e # es) m = Some (st, m')" and "e_in_use e"
    and put: "\<And>key st1 m1. e_key e = Some key \<Longrightarrow> length key = hm_key_size m \<Longrightarrow> hm_map m key = None \<Longrightarrow>
      hashmap_put fuel mem m key (e_data e) = Some (st1, m1) \<Longrightarrow> put_post m {(key, e_data e)} st1 m1"
    and rest: "\<And>key m1. e_key e = Some key \<Longrightarrow> hashmap_put fuel mem m key (e_data e) = Some (MAP_OK, m1) \<Longrightarrow> hm_inv m1 \<Longrightarrow> elems_ok m1 es \<Longrightarrow>
      rehash_elements fuel mem es m1 = Some (st, m') \<Longrightarrow> put_post m1 (set (elem_entries es)) st m'"
  shows "put_post m (set (elem_entries (e # es))) st m'"
proof -
  obtain key where key: "e_key e = Some key" "length key = hm_key_size m" "hm_map m key = None"
    using assms(2,4) by (auto simp: elems_ok_def hm_map_None_iff)
  with assms(3,4) obtain st1 m1 where p: "hashmap_put fuel mem m key (e_data e) = Some (st1, m1)"
    and fin: "if st1 \<noteq> MAP_OK then (st, m') = (st1, m1) else rehash_elements fuel mem es m1 = Some (st, m')"
    by (auto split: option.splits prod.splits if_splits)
  note post = put [OF key p]
  show ?thesis
  proof (cases "st1 = MAP_OK")
    case False
    with post fin assms(4) key(1) show ?thesis by (auto simp: put_post_def)
  next
    case ok: True
    from post ok assms(2,4) key(1) have "hm_inv m1" "elems_ok m1 es" by (auto simp: put_post_def elems_ok_def)
    with rest [OF key(1) p [unfolded ok]] ok fin have "put_post m1 (set (elem_entries es)) st m'" by simp
    from put_post_trans [OF post [unfolded ok] this] assms(4) key(1) show ?thesis by simp
  qed
qed

lemma put_rehash_post:
  shows "hm_inv m \<Longrightarrow> length key = hm_key_size m \<Longrightarrow> hm_map m key = None \<Longrightarrow>
      hashmap_put fuel mem m key v = Some (st, m') \<Longrightarrow> put_post m {(key, v)} st m'"
    and "hm_inv m \<Longrightarrow> hashmap_rehash fuel mem m = Some (st, m') \<Longrightarrow> put_post m {} st m'"
    and "hm_inv m \<Longrightarrow> elems_ok m es \<Longrightarrow>
      rehash_elements fuel mem es m = Some (st, m') \<Longrightarrow> put_post m (set (elem_entries es)) st m'"
proof (induction fuel mem m key v and fuel mem m and fuel mem es m
    arbitrary: st m' and st m' and st m' rule: hashmap_put_hashmap_rehash_rehash_elements.induct)
  case (1 fuel mem m key v)
  show ?case
    by (rule put_post_put [OF 1(3-6)]) (use 1(1) [OF _ _ 1(3)] 1(2) [OF _ _ _ refl] in blast)+
next
  case (2 fuel mem m)
  have "int_range (2 * int (hm_table_size m))" "mem (2 * hm_table_size m) \<or> st = MAP_OMEM \<and> m' = m"
    using 2(3) by (auto simp: hashmap_rehash.simps [of fuel] split: if_splits)
  then show ?case
    using put_post_rehash [OF 2(2,3)] 2(1) [folded doubled_def, OF _ _ doubled_table(1,2) [OF 2(2)]] 2(2)
    by (cases "mem (2 * hm_table_size m)") (auto simp: put_post_def)
next
  case (4 fuel mem e es m)
  show ?case
  proof (cases "e_in_use e")
    case False
    with 4(1) [OF False \<open>hm_inv m\<close>] 4(5,6) show ?thesis by (auto simp: elems_ok_def)
  next
    case True
    show ?thesis
      by (rule put_post_elements [OF 4(4-6) True]) (use True 4(2) [OF _ _ 4(4)] 4(3) [OF _ _ _ refl] in auto)
  qed
qed (simp add: put_post_def)

text \<open>Each nested rehash doubles the table, so when \<^verbatim>\<open>calloc\<close> fails above \<open>L\<close> elements the
  recursion ends after as many nestings as it takes to double the table beyond \<open>L\<close>.\<close>

lemma put_total_put:
  assumes "hm_inv m" and "length key = hm_key_size m" and "hm_map m key = None" and "hm_table_size m \<le> L" and "L < hm_table_size m * 2 ^ fuel"
    and rehash: "\<And>f. hashmap_hash m key = None \<Longrightarrow> fuel = Suc f \<Longrightarrow> L < 2 * hm_table_size m * 2 ^ f \<Longrightarrow>
      \<exists>st m'. hashmap_rehash f mem m = Some (st, m') \<and> hm_table_size m' \<le> L \<and> (st \<noteq> MAP_OMEM \<longrightarrow> 2 * hm_table_size m \<le> hm_table_size m')"
    and put: "\<And>f st1 m1. hashmap_hash m key = None \<Longrightarrow> fuel = Suc f \<Longrightarrow> hashmap_rehash f mem m = Some (st1, m1) \<Longrightarrow> st1 \<noteq> MAP_OMEM \<Longrightarrow>
      hm_inv m1 \<Longrightarrow> length key = hm_key_size m1 \<Longrightarrow> hm_map m1 key = None \<Longrightarrow> hm_table_size m1 \<le> L \<Longrightarrow> L < hm_table_size m1 * 2 ^ f \<Longrightarrow>
      \<exists>st m'. hashmap_put f mem m1 key v = Some (st, m') \<and> hm_table_size m' \<le> L"
  shows "\<exists>st m'. hashmap_put fuel mem m key v = Some (st, m') \<and> hm_table_size m' \<le> L"
proof (cases "hashmap_hash m key")
  case (Some i)
  with assms(4) show ?thesis by (simp add: hashmap_put.simps [of fuel])
next
  case None
  have "fuel \<noteq> 0" using assms(4,5) by (intro notI) simp
  then obtain f where f: "fuel = Suc f" by (cases fuel) auto
  from rehash [OF None f] assms(5) f obtain st1 m1 where r: "hashmap_rehash f mem m = Some (st1, m1)" and le: "hm_table_size m1 \<le> L"
    and grow: "st1 \<noteq> MAP_OMEM \<longrightarrow> 2 * hm_table_size m \<le> hm_table_size m1"
    by (auto simp: mult.assoc)
  show ?thesis
  proof (cases "st1 = MAP_OMEM")
    case True
    with None f r le show ?thesis by (simp add: hashmap_put.simps [of "Suc f"])
  next
    case False
    have "2 * hm_table_size m * 2 ^ f \<le> hm_table_size m1 * 2 ^ f" using grow False by (intro mult_le_mono1) simp
    then have "L < hm_table_size m1 * 2 ^ f" using assms(5) unfolding f power_Suc by linarith
    moreover have "hm_inv m1" "length key = hm_key_size m1" "hm_map m1 key = None"
      using put_rehash_post(2) [OF assms(1) r] False assms(2,3) by (auto simp: put_post_def hm_map_None_iff)
    ultimately show ?thesis using put [OF None f r False] le None f r False by (simp add: hashmap_put.simps [of "Suc f"])
  qed
qed

lemma put_total_elements:
  assumes "hm_inv m" and "elems_ok m (e # es)" and "L < hm_table_size m * 2 ^ fuel" and "e_in_use e"
    and put: "\<And>key. e_key e = Some key \<Longrightarrow> length key = hm_key_size m \<Longrightarrow> hm_map m key = None \<Longrightarrow>
      \<exists>st m'. hashmap_put fuel mem m key (e_data e) = Some (st, m') \<and> hm_table_size m' \<le> L"
    and rest: "\<And>key m1. e_key e = Some key \<Longrightarrow> hashmap_put fuel mem m key (e_data e) = Some (MAP_OK, m1) \<Longrightarrow> hm_inv m1 \<Longrightarrow> elems_ok m1 es \<Longrightarrow>
      hm_table_size m1 \<le> L \<Longrightarrow> L < hm_table_size m1 * 2 ^ fuel \<Longrightarrow>
      \<exists>st m'. rehash_elements fuel mem es m1 = Some (st, m') \<and> hm_table_size m' \<le> L"
  shows "\<exists>st m'. rehash_elements fuel mem (e # es) m = Some (st, m') \<and> hm_table_size m' \<le> L"
proof -
  obtain key where key: "e_key e = Some key" "length key = hm_key_size m" "hm_map m key = None"
    using assms(2,4) by (auto simp: elems_ok_def hm_map_None_iff)
  then obtain st1 m1 where p: "hashmap_put fuel mem m key (e_data e) = Some (st1, m1)" and le: "hm_table_size m1 \<le> L"
    using put by blast
  have post: "put_post m {(key, e_data e)} st1 m1" by (rule put_rehash_post(1) [OF assms(1) key(2,3) p])
  show ?thesis
  proof (cases "st1 = MAP_OK")
    case False
    with p le assms(4) key(1) show ?thesis by simp
  next
    case ok: True
    from post ok assms(2,4) key(1) have "hm_inv m1" "elems_ok m1 es" by (auto simp: put_post_def elems_ok_def)
    moreover have "L < hm_table_size m1 * 2 ^ fuel"
      by (rule less_le_trans [OF assms(3) mult_le_mono1]) (use post in \<open>simp add: put_post_def\<close>)
    ultimately show ?thesis
      using rest [OF key(1) p [unfolded ok]] assms(4) ok p key(1) le by simp
  qed
qed

lemma put_rehash_total:
  assumes mem: "\<And>n. mem n \<Longrightarrow> n \<le> L" and L: "2 * int L \<le> INT_MAX"
  shows "hm_inv m \<Longrightarrow> length key = hm_key_size m \<Longrightarrow> hm_map m key = None \<Longrightarrow> hm_table_size m \<le> L \<Longrightarrow>
      L < hm_table_size m * 2 ^ fuel \<Longrightarrow>
      \<exists>st m'. hashmap_put fuel mem m key v = Some (st, m') \<and> hm_table_size m' \<le> L"
    and "hm_inv m \<Longrightarrow> hm_table_size m \<le> L \<Longrightarrow> L < 2 * hm_table_size m * 2 ^ fuel \<Longrightarrow>
      \<exists>st m'. hashmap_rehash fuel mem m = Some (st, m') \<and> hm_table_size m' \<le> L \<and>
        (st \<noteq> MAP_OMEM \<longrightarrow> 2 * hm_table_size m \<le> hm_table_size m')"
    and "hm_inv m \<Longrightarrow> elems_ok m es \<Longrightarrow> hm_table_size m \<le> L \<Longrightarrow> L < hm_table_size m * 2 ^ fuel \<Longrightarrow>
      \<exists>st m'. rehash_elements fuel mem es m = Some (st, m') \<and> hm_table_size m' \<le> L"
  using mem
proof (induction fuel mem m key v and fuel mem m and fuel mem es m
    rule: hashmap_put_hashmap_rehash_rehash_elements.induct)
  case (1 fuel mem m key v)
  show ?case
    by (rule put_total_put [OF 1(3-7)])
      (use 1(1) [OF _ _ 1(3,6) _ 1(8)] 1(2) [OF _ _ _ refl _ _ _ _ _ _ 1(8)] in blast)+
next
  case (2 fuel mem m)
  note doubled = doubled_table [OF 2(2)]
  have range: "int_range (2 * int (hm_table_size m))" using 2(3) L by (simp add: int_range_def INT_MIN_def)
  show ?case
  proof (cases "mem (2 * hm_table_size m)")
    case True
    obtain st m' where r: "rehash_elements fuel mem (take (hm_table_size m) (hm_data m)) (doubled m) = Some (st, m')"
      and le: "hm_table_size m' \<le> L"
      using 2(1) [folded doubled_def, OF _ _ doubled(1,2)] 2(4,5) True range doubled(5) by auto
    from put_rehash_post(3) [OF doubled(1,2) r] have "2 * hm_table_size m \<le> hm_table_size m'"
      by (simp add: put_post_def doubled(5))
    with r le True range show ?thesis by (simp add: hashmap_rehash.simps [of fuel] doubled_def)
  next
    case False
    with range 2(3) show ?thesis by (simp add: hashmap_rehash.simps [of fuel])
  qed
next
  case (4 fuel mem e es m)
  show ?case
  proof (cases "e_in_use e")
    case False
    with 4(1) [OF False \<open>hm_inv m\<close>] 4(5,6,7,8) show ?thesis by (auto simp: elems_ok_def)
  next
    case True
    show ?thesis
      by (rule put_total_elements [OF 4(4,5,7) True])
        (use True 4(2) [OF _ _ 4(4) _ _ 4(6,7,8)] 4(3) [OF _ _ _ refl _ _ _ _ _ 4(8)] in auto)
  qed
qed simp

section \<open>Iteration\<close>

text \<open>The loop of a client as a fold over the entries in table order; the first component is
  what remains.\<close>

fun it_fold :: "('v option \<Rightarrow> 's \<Rightarrow> bool \<times> 's) \<Rightarrow> (u8 list \<times> 'v option) list \<Rightarrow> 's \<Rightarrow>
    (u8 list \<times> 'v option) list \<times> 's" where
  "it_fold body [] s = ([], s)"
| "it_fold body ((k, v) # es) s =
     (case body v s of
        (remove, s1) \<Rightarrow>
          (case it_fold body es s1 of (es', s2) \<Rightarrow> (if remove then es' else (k, v) # es', s2)))"

lemma elem_entries_step:
  assumes "i < length es"
  shows "elem_entries (drop i es) = slot (es ! i) @ elem_entries (drop (Suc i) es)"
    and "elem_entries (take (Suc i) es) = elem_entries (take i es) @ slot (es ! i)"
  using assms by (simp_all add: take_Suc_conv_app_nth flip: Cons_nth_drop_Suc)

lemma it_scan_None:
  "it_scan m i = None \<Longrightarrow> length (hm_data m) = hm_table_size m \<Longrightarrow> elem_entries (drop i (hm_data m)) = []"
proof (induction m i rule: it_scan.induct)
  case (1 m i)
  from 1(2) show ?case
    unfolding it_scan.simps [of m i] using 1(1,3) elem_entries_step(1) [of i "hm_data m"]
    by (auto split: if_splits)
qed

lemma it_scan_Some:
  "it_scan m i = Some j \<Longrightarrow> length (hm_data m) = hm_table_size m \<Longrightarrow>
   elem_entries (take j (hm_data m)) = elem_entries (take i (hm_data m)) \<and>
   elem_entries (drop i (hm_data m)) = slot (hm_data m ! j) @ elem_entries (drop (Suc j) (hm_data m))"
proof (induction m i rule: it_scan.induct)
  case (1 m i)
  from 1(2) show ?case
    unfolding it_scan.simps [of m i] using 1(1,3) elem_entries_step [of i "hm_data m"]
    by (auto split: if_splits)
qed

lemma it_loop_fold:
  assumes "hm_inv m" and "- 1 \<le> it" and "it_loop body m it s = (m', s')"
  shows "hm_inv m' \<and> hm_key_size m' = hm_key_size m \<and> hm_table_size m' = hm_table_size m \<and> hm_seed m' = hm_seed m \<and>
    (\<exists>es. it_fold body (elem_entries (drop (nat (it + 1)) (hm_data m))) s = (es, s') \<and>
       hm_entries m' = elem_entries (take (nat (it + 1)) (hm_data m)) @ es)"
  using assms
proof (induction body m it s arbitrary: m' s' rule: it_loop.induct)
  case (1 body m it s)
  let ?i = "nat (it + 1)"
  have len: "length (hm_data m) = hm_table_size m" using 1(2) by (simp add: hm_inv_def)
  show ?case
  proof (cases "it_scan m ?i")
    case None
    then have "m' = m" "s' = s" using 1(4) by (auto simp: it_loop.simps [of body m it s] hashmap_it_next_def)
    with it_scan_None [OF None len] 1(2) show ?thesis
      using append_take_drop_id [of ?i "hm_data m"]
      by (metis append_Nil2 elem_entries_simps(3) hm_entries_def it_fold.simps(1))
  next
    case (Some j)
    note j = it_scan_bounds [OF Some] it_scan_Some [OF Some len]
    obtain k where k: "e_key (hm_data m ! j) = Some k"
      by (rule hm_inv_slot [OF 1(2), of j]) (use j in auto)
    let ?v = "e_data (hm_data m ! j)"
    obtain r s1 where b: "body ?v s = (r, s1)" by fastforce
    define m1 where "m1 = (if r then hm_remove_at m j else m)"
    have next_eq: "hashmap_it_next m it = (MAP_OK, int j, Some k, ?v)"
      using Some k by (simp add: hashmap_it_next_def)
    have m1: "(if r then snd (hashmap_it_remove m (int j)) else m) = m1"
      using j by (simp add: m1_def hashmap_it_remove_def)
    have inv1: "hm_inv m1" using hm_remove_at_inv(1) [OF 1(2) _ _ k] 1(2) j by (simp add: m1_def)
    have loop: "it_loop body m1 (int j) s1 = (m', s')"
      using 1(4) b m1 by (simp add: it_loop.simps [of body m it s] next_eq)
    have sizes: "hm_key_size m1 = hm_key_size m" "hm_table_size m1 = hm_table_size m" "hm_seed m1 = hm_seed m"
      by (simp_all add: m1_def hm_remove_at_def)
    have rest: "drop (Suc j) (hm_data m1) = drop (Suc j) (hm_data m)"
      by (simp add: m1_def hm_remove_at_def)
    have jj: "nat (int j + 1) = Suc j" "- 1 \<le> int j" by simp_all
    note IH = 1(1) [OF next_eq [symmetric] refl refl refl b [symmetric], unfolded m1, OF inv1 jj(2) loop,
        unfolded jj(1) sizes rest]
    then obtain es where es: "it_fold body (elem_entries (drop (Suc j) (hm_data m))) s1 = (es, s')"
      and ents: "hm_entries m' = elem_entries (take (Suc j) (hm_data m1)) @ es"
      by blast
    have "elem_entries (take (Suc j) (hm_data m1)) =
        elem_entries (take ?i (hm_data m)) @ (if r then [] else [(k, ?v)])"
      using j k len by (auto simp: m1_def hm_remove_at_def take_Suc_conv_app_nth)
    with ents have "hm_entries m' = elem_entries (take ?i (hm_data m)) @ (if r then es else (k, ?v) # es)"
      by simp
    moreover have "it_fold body (elem_entries (drop ?i (hm_data m))) s = (if r then es else (k, ?v) # es, s')"
      using j k b es by simp
    ultimately show ?thesis using IH by blast
  qed
qed

lemma it_fold_read:
  "(\<And>v s. \<not> fst (body v s)) \<Longrightarrow> it_fold body es s = (es, foldl (\<lambda>s e. snd (body (snd e) s)) s es)"
  by (induction body es s rule: it_fold.induct) (auto split: prod.split, metis fst_conv)

lemma it_loop_read:
  assumes "hm_inv m" and "\<And>v s. \<not> fst (body v s)"
  shows "snd (it_loop body m hashmap_it_new s) = foldl (\<lambda>s e. snd (body (snd e) s)) s (hm_entries m)"
proof -
  obtain m' s' where l: "it_loop body m hashmap_it_new s = (m', s')" by fastforce
  have "it_fold body (hm_entries m) s = (hm_entries m, foldl (\<lambda>s e. snd (body (snd e) s)) s (hm_entries m))"
    by (rule it_fold_read [OF assms(2)])
  with it_loop_fold [OF assms(1) _ l] have "s' = foldl (\<lambda>s e. snd (body (snd e) s)) s (hm_entries m)"
    by (auto simp: hashmap_it_new_def hm_entries_def)
  then show ?thesis by (simp add: l)
qed

section \<open>The contract of the table\<close>

text \<open>What the peer table relies on: a partial map in which a client looks up a key, inserts a key
  that is absent (which may fail for lack of memory), writes through a pointer it got, and deletes.\<close>

locale finite_map =
  fixes inv :: "'m \<Rightarrow> bool"
    and key_ok :: "'m \<Rightarrow> 'k \<Rightarrow> bool"
    and lookup :: "'m \<Rightarrow> 'k \<Rightarrow> 'v option"
    and add_new :: "'m \<Rightarrow> 'k \<Rightarrow> 'v \<Rightarrow> 'm option"
    and overwrite :: "'m \<Rightarrow> 'k \<Rightarrow> 'v \<Rightarrow> 'm"
    and delete :: "'m \<Rightarrow> 'k \<Rightarrow> 'm"
  assumes add_new_inv: "inv m \<Longrightarrow> key_ok m k \<Longrightarrow> lookup m k = None \<Longrightarrow> add_new m k v = Some m' \<Longrightarrow>
      inv m' \<and> key_ok m' = key_ok m"
    and add_new_lookup: "inv m \<Longrightarrow> key_ok m k \<Longrightarrow> lookup m k = None \<Longrightarrow> add_new m k v = Some m' \<Longrightarrow>
      key_ok m k' \<Longrightarrow> lookup m' k' = (if k' = k then Some v else lookup m k')"
    and overwrite_inv: "inv m \<Longrightarrow> key_ok m k \<Longrightarrow> lookup m k \<noteq> None \<Longrightarrow>
      inv (overwrite m k v) \<and> key_ok (overwrite m k v) = key_ok m"
    and overwrite_lookup: "inv m \<Longrightarrow> key_ok m k \<Longrightarrow> lookup m k \<noteq> None \<Longrightarrow> key_ok m k' \<Longrightarrow>
      lookup (overwrite m k v) k' = (if k' = k then Some v else lookup m k')"
    and delete_inv: "inv m \<Longrightarrow> key_ok m k \<Longrightarrow> inv (delete m k) \<and> key_ok (delete m k) = key_ok m"
    and delete_lookup: "inv m \<Longrightarrow> key_ok m k \<Longrightarrow> key_ok m k' \<Longrightarrow>
      lookup (delete m k) k' = (if k' = k then None else lookup m k')"
begin

text \<open>Find or insert, then write: the shape of every update of a peer.\<close>

lemma find_or_add:
  assumes "inv m" and "key_ok m k"
    and "(if lookup m k = None then add_new m k fresh else Some m) = Some m1"
    and "m2 = overwrite m1 k v"
  shows "inv m2" and "key_ok m k' \<Longrightarrow> lookup m2 k' = (if k' = k then Some v else lookup m k')"
proof -
  have *: "inv m1" "key_ok m1 = key_ok m" "lookup m1 k \<noteq> None"
    using assms add_new_inv [of m k fresh m1] add_new_lookup [of m k fresh m1 k]
    by (auto split: if_splits)
  with overwrite_inv assms(2,4) show "inv m2" by simp
  have "lookup m1 k' = (if k' = k \<and> lookup m k = None then Some fresh else lookup m k')" if "key_ok m k'"
    using assms(1-3) add_new_lookup [of m k fresh m1 k'] that by (auto split: if_splits)
  with * overwrite_lookup [of m1 k k' v] assms(2,4)
  show "key_ok m k' \<Longrightarrow> lookup m2 k' = (if k' = k then Some v else lookup m k')" by simp
qed

lemma overwrite_same:
  assumes "inv m" and "key_ok m k" and "lookup m k = Some v" and "key_ok m k'"
  shows "lookup (overwrite m k v) k' = lookup m k'"
  using assms overwrite_lookup [of m k k' v] by auto

lemma delete_added:
  assumes "inv m" and "key_ok m k" and "lookup m k = None" and "add_new m k v = Some m1" and "key_ok m k'"
  shows "lookup (delete m1 k) k' = lookup m k'"
  using assms add_new_inv [of m k v m1] add_new_lookup [of m k v m1 k'] delete_lookup [of m1 k k'] by auto

end

text \<open>The hash map with non-NULL values provides it.\<close>

definition hm_ok :: "'v hashmap_map \<Rightarrow> bool" where
  "hm_ok m \<longleftrightarrow> hm_inv m \<and> (\<forall>k. hm_map m k \<noteq> Some None)"

definition hm_lookup :: "'v hashmap_map \<Rightarrow> u8 list \<Rightarrow> 'v option" where
  "hm_lookup m k = fst (snd (hashmap_get m k False))"

definition hm_add :: "nat \<Rightarrow> (nat \<Rightarrow> bool) \<Rightarrow> 'v hashmap_map \<Rightarrow> u8 list \<Rightarrow> 'v \<Rightarrow> 'v hashmap_map option" where
  "hm_add fuel mem m k v =
     (case hashmap_put fuel mem m k (Some v) of
        Some (st, m') \<Rightarrow> if st = MAP_OK then Some m' else None
      | None \<Rightarrow> None)"

definition hm_delete :: "'v hashmap_map \<Rightarrow> u8 list \<Rightarrow> 'v hashmap_map" where
  "hm_delete m k = snd (snd (hashmap_get m k True))"

lemma hm_map_in: "hm_map m k = Some v \<Longrightarrow> (k, v) \<in> set (hm_entries m)"
  by (simp add: hm_map_def map_of_SomeD)

lemma hm_lookup_eq: "hm_ok m \<Longrightarrow> length k = hm_key_size m \<Longrightarrow> hm_lookup m k = Option.bind (hm_map m k) id"
  by (simp add: hm_lookup_def hashmap_get_lookup hm_ok_def)

lemma hm_lookup_None: "hm_ok m \<Longrightarrow> length k = hm_key_size m \<Longrightarrow> hm_lookup m k = None \<longleftrightarrow> hm_map m k = None"
  by (cases "hm_map m k"; cases "the (hm_map m k)") (auto simp: hm_lookup_eq hm_ok_def)

lemma put_post_map:
  assumes "hm_inv m" and "hm_map m k = None" and "put_post m {(k, v)} MAP_OK m'"
  shows "hm_map m' = (hm_map m)(k \<mapsto> v)"
proof -
  have "distinct (map fst ((k, v) # hm_entries m))" "distinct (map fst (hm_entries m'))"
    using assms by (auto simp: hm_inv_def put_post_def hm_map_None_iff)
  moreover have "set (hm_entries m') = set ((k, v) # hm_entries m)"
    using assms(3) by (auto simp: put_post_def)
  ultimately show ?thesis
    using map_of_inject_set [of "hm_entries m'" "(k, v) # hm_entries m"] by (simp add: hm_map_def)
qed

lemma hm_add_map:
  assumes "hm_ok m" and "length k = hm_key_size m" and "hm_map m k = None" and "hm_add fuel mem m k v = Some m'"
  shows "hm_ok m' \<and> hm_key_size m' = hm_key_size m \<and> hm_map m' = (hm_map m)(k \<mapsto> Some v)"
proof -
  from assms(4) have "hashmap_put fuel mem m k (Some v) = Some (MAP_OK, m')"
    by (auto simp: hm_add_def split: option.splits if_splits)
  from put_rehash_post(1) [OF _ assms(2,3) this] assms(1) have post: "put_post m {(k, Some v)} MAP_OK m'"
    by (simp add: hm_ok_def)
  moreover from put_post_map [OF _ assms(3) post] assms(1) have "hm_map m' = (hm_map m)(k \<mapsto> Some v)"
    by (simp add: hm_ok_def)
  ultimately show ?thesis using assms(1) by (simp add: hm_ok_def put_post_def)
qed

lemma hashmap_get_key_size [simp]: "hm_key_size (snd (snd (hashmap_get m k r))) = hm_key_size m"
  by (simp add: hashmap_get_def hm_remove_at_def split: option.split)

lemma hm_delete_map:
  assumes "hm_ok m" and "length k = hm_key_size m"
  shows "hm_ok (hm_delete m k) \<and> hm_key_size (hm_delete m k) = hm_key_size m \<and>
    hm_map (hm_delete m k) = (hm_map m)(k := None)"
proof -
  obtain st v m' where "hashmap_get m k True = (st, v, m')" by (metis prod_cases3)
  from hashmap_get_remove [OF _ assms(2) this] assms(1) this show ?thesis
    using hashmap_get_key_size [of m k True] by (simp add: hm_delete_def hm_ok_def)
qed

lemma hm_write_map:
  assumes "hm_ok m" and "length k = hm_key_size m" and "hm_map m k \<noteq> None"
  shows "hm_ok (hm_write m k v) \<and> hm_key_size (hm_write m k v) = hm_key_size m \<and>
    hm_map (hm_write m k v) = (hm_map m)(k \<mapsto> Some v)"
  using hm_write_inv [OF _ assms(2,3)] assms(1) by (auto simp: hm_ok_def)

interpretation table: finite_map hm_ok "\<lambda>m k. length k = hm_key_size m" hm_lookup "hm_add fuel mem" hm_write hm_delete
  for fuel mem
proof
  fix m m' :: "'a hashmap_map" and k k' :: "u8 list" and v
  assume m: "hm_ok m" and k: "length k = hm_key_size m"
  { assume n: "hm_lookup m k = None" and a: "hm_add fuel mem m k v = Some m'"
    note add = hm_add_map [OF m k _ a]
    show "hm_ok m' \<and> (\<lambda>k. length k = hm_key_size m') = (\<lambda>k. length k = hm_key_size m)"
      using add n m k by (simp add: hm_lookup_None)
    assume "length k' = hm_key_size m"
    moreover have "hm_map m k = None" using n m k by (simp add: hm_lookup_None)
    ultimately show "hm_lookup m' k' = (if k' = k then Some v else hm_lookup m k')"
      using add m k by (simp add: hm_lookup_eq) }
  { assume n: "hm_lookup m k \<noteq> None"
    note w = hm_write_map [OF m k, of v]
    show "hm_ok (hm_write m k v) \<and>
        (\<lambda>ka. length ka = hm_key_size (hm_write m k v)) = (\<lambda>k. length k = hm_key_size m)"
      using w n m k by (simp add: hm_lookup_None)
    assume "length k' = hm_key_size m"
    moreover have "hm_map m k \<noteq> None" using n m k by (simp add: hm_lookup_None)
    ultimately show "hm_lookup (hm_write m k v) k' = (if k' = k then Some v else hm_lookup m k')"
      using w m k by (simp add: hm_lookup_eq) }
  note d = hm_delete_map [OF m k]
  show "hm_ok (hm_delete m k) \<and>
      (\<lambda>ka. length ka = hm_key_size (hm_delete m k)) = (\<lambda>k. length k = hm_key_size m)"
    using d by simp
  assume "length k' = hm_key_size m"
  then show "hm_lookup (hm_delete m k) k' = (if k' = k then None else hm_lookup m k')"
    using d m by (simp add: hm_lookup_eq)
qed

lemma put_omem_absent:
  "hm_inv m \<Longrightarrow> length key = hm_key_size m \<Longrightarrow> hm_map m key = None \<Longrightarrow>
   hashmap_put fuel mem m key v = Some (MAP_OMEM, m') \<Longrightarrow> hm_map m' key = None"
proof (induction fuel arbitrary: m)
  case 0
  then show ?case by (auto simp: hashmap_put.simps [of 0] split: option.splits)
next
  case (Suc f)
  then obtain st1 m1 where r: "hashmap_rehash f mem m = Some (st1, m1)"
    and fin: "if st1 = MAP_OMEM then m' = m1 else hashmap_put f mem m1 key v = Some (MAP_OMEM, m')"
    by (auto simp: hashmap_put.simps [of "Suc f"] split: option.splits prod.splits if_splits)
  have post: "put_post m {} st1 m1" by (rule put_rehash_post(2) [OF Suc.prems(1) r])
  then have "hm_inv m1" "length key = hm_key_size m1" "hm_map m1 key = None"
    using Suc.prems(2,3) by (auto simp: put_post_def hm_map_None_iff)
  with Suc.IH fin show ?case by (auto split: if_splits)
qed

lemma put_omem_sub:
  assumes "hm_inv m" and "length key = hm_key_size m" and "hm_map m key = None"
    and "hashmap_put fuel mem m key v = Some (MAP_OMEM, m')"
  shows "hm_map m' \<subseteq>\<^sub>m hm_map m"
  unfolding map_le_def
proof
  fix k
  assume "k \<in> dom (hm_map m')"
  then obtain w where k: "hm_map m' k = Some w" by auto
  with put_omem_absent [OF assms] have "k \<noteq> key" by auto
  with hm_map_in [OF k] put_rehash_post(1) [OF assms] have "(k, w) \<in> set (hm_entries m)"
    by (auto simp: put_post_def)
  with assms(1) k show "hm_map m' k = hm_map m k" by (simp add: hm_map_def hm_inv_def)
qed

text \<open>Lack of memory is only reported when \<^verbatim>\<open>calloc\<close> failed to double the table that is left.\<close>

lemma omem_calloc:
  shows "hashmap_put fuel mem m key v = Some (MAP_OMEM, m') \<Longrightarrow> \<not> mem (2 * hm_table_size m')"
    and "hashmap_rehash fuel mem m = Some (MAP_OMEM, m') \<Longrightarrow> \<not> mem (2 * hm_table_size m')"
    and "rehash_elements fuel mem es m = Some (MAP_OMEM, m') \<Longrightarrow> \<not> mem (2 * hm_table_size m')"
proof (induction fuel mem m key v and fuel mem m and fuel mem es m
    arbitrary: m' and m' and m' rule: hashmap_put_hashmap_rehash_rehash_elements.induct)
  case (1 fuel mem m key v)
  from 1(3) show ?case
    by (auto simp: hashmap_put.simps [of fuel] split: option.split_asm nat.split_asm prod.split_asm if_split_asm dest: 1(1,2))
next
  case (2 fuel mem m)
  from 2(2) show ?case
    by (cases "mem (2 * hm_table_size m)") (auto simp: hashmap_rehash.simps [of fuel] split: if_split_asm intro: 2(1) [THEN notE])
next
  case (4 fuel mem e es m)
  show ?case
  proof (cases "e_in_use e")
    case False
    with 4(1,4) show ?thesis by simp
  next
    case True
    then obtain key st m1 where "e_key e = Some key" "hashmap_put fuel mem m key (e_data e) = Some (st, m1)"
      "if st \<noteq> MAP_OK then st = MAP_OMEM \<and> m1 = m' else rehash_elements fuel mem es m1 = Some (MAP_OMEM, m')"
      using 4(4) by (auto split: option.split_asm prod.split_asm if_split_asm)
    with 4(2,3) True show ?thesis by (auto split: if_splits)
  qed
qed simp

text \<open>The fuel the clients use: enough for every table of at least the initial size, up to the
  largest one whose doubled size is still an \<^verbatim>\<open>int\<close>.\<close>

definition HM_FUEL :: nat where
  "HM_FUEL = 24"

lemma hm_add_or_omem:
  assumes "hm_ok m" and "length key = hm_key_size m" and "hm_lookup m key = None"
    and "\<And>n. mem n \<Longrightarrow> n \<le> L" and "2 * int L \<le> INT_MAX" and "hm_table_size m \<le> L" and "INITIAL_SIZE \<le> hm_table_size m"
  shows "\<exists>st m'. hashmap_put HM_FUEL mem m key (Some v) = Some (st, m') \<and> (st = MAP_OK \<or> st = MAP_OMEM) \<and>
    hm_inv m' \<and> INITIAL_SIZE \<le> hm_table_size m' \<and> hm_table_size m' \<le> L"
proof -
  have inv: "hm_inv m" and none: "hm_map m key = None"
    using assms(1-3) by (auto simp: hm_lookup_None hm_ok_def)
  have "L < 256 * 2 ^ HM_FUEL" using assms(5) by (simp add: INT_MAX_def HM_FUEL_def)
  also have "\<dots> \<le> hm_table_size m * 2 ^ HM_FUEL"
    using assms(7) by (intro mult_le_mono1) (simp add: INITIAL_SIZE_def)
  finally obtain st m' where p: "hashmap_put HM_FUEL mem m key (Some v) = Some (st, m')" "hm_table_size m' \<le> L"
    using put_rehash_total(1) [OF assms(4,5) inv assms(2) none assms(6)] by blast
  from put_rehash_post(1) [OF inv assms(2) none p(1)] p assms(7) show ?thesis
    by (auto simp: put_post_def)
qed

lemma hashmap_new_ok:
  assumes "hashmap_new mem n = Some m"
  shows "hm_ok m" "hm_key_size m = n" "hm_map m = Map.empty" "hm_table_size m = INITIAL_SIZE" "hm_entries m = []"
    "hm_size m = 0"
  using assms
  by (auto simp: hashmap_new_def hm_ok_def hm_inv_def hm_map_def hm_entries_def elem_ok_def INITIAL_SIZE_def
      split: if_splits)

section \<open>Properties\<close>

text \<open>Two concrete tables for the witnesses: the one \<^verbatim>\<open>hashmap_new\<close> returns for six-byte keys, and
  one where a key sits in the slot after the one it hashes to, as it does after the removal of
  the element that displaced it.\<close>

definition sample_key :: "u8 list" where
  "sample_key = [2, 0, 0, 0, 0, 1]"

definition sample_map :: "nat hashmap_map" where
  "sample_map = \<lparr>hm_table_size = 256, hm_size = 0, hm_key_size = 6, hm_data = replicate 256 blank,
     hm_seed = replicate 16 0\<rparr>"

definition shifted_map :: "nat hashmap_map" where
  "shifted_map = hm_store sample_map ((hashmap_hash_int sample_map sample_key + 1) mod 256) sample_key (Some 7)"

lemma sample_map_ok: "hm_ok sample_map" "hm_inv sample_map" "hm_map sample_map = Map.empty" "hm_entries sample_map = []"
  using hashmap_new_ok [of "\<lambda>_. True" 6 sample_map]
  by (simp_all add: hashmap_new_def sample_map_def INITIAL_SIZE_def hm_ok_def)

lemma shifted_map_ok:
  "hm_inv shifted_map" "hm_map shifted_map = [sample_key \<mapsto> Some 7]" "hm_size shifted_map = 1"
  "hm_table_size shifted_map = 256" "length sample_key = hm_key_size shifted_map"
  "hm_entries shifted_map = [(sample_key, Some 7)]"
  "\<not> e_in_use (hm_data shifted_map ! hashmap_hash_int shifted_map sample_key)"
proof -
  let ?h = "hashmap_hash_int sample_map sample_key" and ?i = "(hashmap_hash_int sample_map sample_key + 1) mod 256"
  have reach: "hm_reach sample_map ?i sample_key"
    unfolding hm_reach_def by (intro exI [of _ 1]) (simp add: MAX_CHAIN_LENGTH_def sample_map_def)
  have free: "?i < hm_table_size sample_map" "\<not> e_in_use (hm_data sample_map ! ?i)"
    by (simp_all add: sample_map_def)
  have len: "length sample_key = hm_key_size sample_map" by (simp add: sample_key_def sample_map_def)
  note st = hm_store_inv [OF sample_map_ok(2) free reach len, of "Some 7"]
  show inv: "hm_inv shifted_map" using st by (simp add: shifted_map_def sample_map_ok)
  have set: "set (hm_entries shifted_map) = {(sample_key, Some 7)}"
    using st by (simp add: shifted_map_def sample_map_ok)
  show "hm_size shifted_map = 1" by (simp add: shifted_map_def hm_store_def sample_map_def)
  with inv have "length (hm_entries shifted_map) = 1" by (simp add: hm_inv_def)
  with set show ent: "hm_entries shifted_map = [(sample_key, Some 7)]"
    by (cases "hm_entries shifted_map") auto
  show "hm_map shifted_map = [sample_key \<mapsto> Some 7]" by (simp add: hm_map_def ent)
  show "hm_table_size shifted_map = 256" "length sample_key = hm_key_size shifted_map"
    by (simp_all add: shifted_map_def sample_map_def sample_key_def)
  have "?h < 256" by (simp add: hashmap_hash_int_def sample_map_def)
  then have "?h \<noteq> ?i" by (cases "?h = 255") auto
  moreover have "hashmap_hash_int shifted_map sample_key = ?h"
    by (simp add: hashmap_hash_int_def shifted_map_def hm_store_def sample_map_def)
  ultimately show "\<not> e_in_use (hm_data shifted_map ! hashmap_hash_int shifted_map sample_key)"
    using \<open>?h < 256\<close> by (simp add: shifted_map_def hm_store_def sample_map_def)
qed

text \<open>C15. On a table that satisfies the invariant, a lookup finds exactly the stored keys and
  returns their values; with the removal flag the key, and nothing else, is gone afterwards and
  the invariant holds again.\<close>

theorem hashmap_get_correct:
  assumes "hm_inv m" and "length key = hm_key_size m"
  shows "\<exists>m'. hashmap_get m key remove =
      (if hm_map m key = None then MAP_MISSING else MAP_OK, Option.bind (hm_map m key) id, m') \<and>
    hm_inv m' \<and> hm_map m' = (if remove then (hm_map m)(key := None) else hm_map m)"
proof -
  obtain st v m' where g: "hashmap_get m key remove = (st, v, m')" by (metis prod_cases3)
  with hashmap_get_lookup [OF assms, of remove] hashmap_get_remove [OF assms g] show ?thesis by auto
qed

theorem hashmap_get_correct_witness:
  "\<exists>m'. hashmap_get shifted_map sample_key True = (MAP_OK, Some 7, m') \<and> hm_map m' = Map.empty"
  using hashmap_get_correct [OF shifted_map_ok(1,5), of True] by (auto simp: shifted_map_ok)

text \<open>C14. Inserting a key that is not in the table. When \<^verbatim>\<open>calloc\<close> fails for more than \<open>L\<close> elements and the fuel covers the
  nestings up to \<open>L\<close>, the insertion returns and the invariant holds. It reports success, and then the table maps the key to the value and
  every other key as before, however often it was rehashed; or it reports lack of memory, and then the table had
  to be enlarged, \<^verbatim>\<open>calloc\<close> failed to double the table that is left, the key is not in that
  table and every entry in it is an old one.\<close>

theorem hashmap_put_correct:
  assumes "hm_inv m" and "length key = hm_key_size m" and "hm_map m key = None"
    and "\<And>n. mem n \<Longrightarrow> n \<le> L" and "2 * int L \<le> INT_MAX" and "hm_table_size m \<le> L" and "L < hm_table_size m * 2 ^ fuel"
  shows "\<exists>st m'. hashmap_put fuel mem m key v = Some (st, m') \<and> hm_inv m' \<and>
    (st = MAP_OK \<and> hm_map m' = (hm_map m)(key \<mapsto> v) \<or>
     st = MAP_OMEM \<and> hashmap_hash m key = None \<and> \<not> mem (2 * hm_table_size m') \<and> hm_map m' \<subseteq>\<^sub>m hm_map m)"
proof -
  obtain st m' where p: "hashmap_put fuel mem m key v = Some (st, m')"
    using put_rehash_total(1) [OF assms(4,5,1,2,3,6,7)] by blast
  note post = put_rehash_post(1) [OF assms(1-3) p]
  have "hashmap_hash m key = None" if "st = MAP_OMEM"
    using p that by (auto simp: hashmap_put.simps [of fuel] split: option.split_asm)
  with p post put_post_map [OF assms(1,3)] put_omem_sub [OF assms(1-3)] omem_calloc(1) [of fuel mem m key v m'] show ?thesis
    by (auto simp: put_post_def)
qed

text \<open>A table of two elements that is as full as insertion lets it become.\<close>

definition full_map :: "nat hashmap_map" where
  "full_map = hm_store \<lparr>hm_table_size = 2, hm_size = 0, hm_key_size = 6, hm_data = replicate 2 blank, hm_seed = replicate 16 0\<rparr>
     (hashmap_hash_int sample_map sample_key mod 2) sample_key (Some 7)"

lemma full_map_ok:
  "hm_inv full_map" "hm_map full_map = [sample_key \<mapsto> Some 7]" "hm_table_size full_map = 2" "hm_key_size full_map = 6"
  "hashmap_hash full_map key = None"
proof -
  let ?m = "\<lparr>hm_table_size = 2, hm_size = 0, hm_key_size = 6, hm_data = replicate 2 blank, hm_seed = replicate 16 0\<rparr> :: nat hashmap_map"
  let ?i = "hashmap_hash_int sample_map sample_key mod 2"
  have inv: "hm_inv ?m" "hm_entries ?m = []" by (auto simp: hm_inv_def hm_entries_def elem_ok_def)
  have "hashmap_hash_int ?m sample_key = ?i"
    by (simp add: hashmap_hash_int_def sample_map_def mod_mod_cancel)
  then have reach: "hm_reach ?m ?i sample_key"
    unfolding hm_reach_def by (intro exI [of _ 0]) (simp add: MAX_CHAIN_LENGTH_def)
  show st: "hm_inv full_map"
    using hm_store_inv [OF inv(1) _ _ reach, of "Some 7"] inv(2) by (simp add: full_map_def sample_key_def hm_map_def)
  have set: "set (hm_entries full_map) = {(sample_key, Some 7)}"
    using hm_store_inv [OF inv(1) _ _ reach, of "Some 7"] inv(2) by (simp add: full_map_def sample_key_def hm_map_def)
  have size: "hm_size full_map = 1" by (simp add: full_map_def hm_store_def)
  with st have "length (hm_entries full_map) = 1" by (simp add: hm_inv_def)
  with set have "hm_entries full_map = [(sample_key, Some 7)]" by (cases "hm_entries full_map") auto
  then show "hm_map full_map = [sample_key \<mapsto> Some 7]" by (simp add: hm_map_def)
  show ts: "hm_table_size full_map = 2" "hm_key_size full_map = 6" by (simp_all add: full_map_def hm_store_def)
  show "hashmap_hash full_map key = None" by (simp add: hashmap_hash_def size ts)
qed

lemma full_map_grows:
  assumes "key \<noteq> sample_key" and "length key = 6"
  shows "\<exists>m'. hashmap_put 2 (\<lambda>n. n \<le> 4) full_map key v = Some (MAP_OK, m')"
proof -
  let ?d = "doubled full_map"
  define h1 where "h1 = hashmap_hash_int ?d sample_key"
  define m1 where "m1 = hm_store ?d h1 sample_key (Some 7)"
  have d: "hm_table_size ?d = 4" "hm_size ?d = 0" "hm_data ?d = replicate 4 blank" "hm_key_size ?d = 6"
    by (simp_all add: doubled_def full_map_ok)
  have h: "h1 < 4" "hashmap_hash_int m1 key < 4"
    by (simp_all add: h1_def m1_def hashmap_hash_int_def d hm_store_def)
  have put1: "hashmap_put f mem ?d sample_key (Some 7) = Some (MAP_OK, m1)" for f mem
    using hashmap_hash_first [of ?d sample_key] h(1) by (simp add: hashmap_put.simps [of f] d m1_def h1_def [symmetric])
  have "take 2 (hm_data full_map) = (replicate 2 blank)[hashmap_hash_int sample_map sample_key mod 2 :=
      \<lparr>e_key = Some sample_key, e_in_use = True, e_data = Some 7\<rparr>]"
    by (simp add: full_map_def hm_store_def)
  moreover have "hashmap_hash_int sample_map sample_key mod 2 \<in> {0, 1}" by auto
  ultimately have "rehash_elements f mem (take 2 (hm_data full_map)) ?d = Some (MAP_OK, m1)" for f mem
    by (auto simp: numeral_2_eq_2 put1)
  then have rehash: "hashmap_rehash f (\<lambda>n. n \<le> 4) full_map = Some (MAP_OK, m1)" for f
    by (simp add: hashmap_rehash.simps [of f] full_map_ok doubled_def
        int_range_def INT_MAX_def INT_MIN_def)
  have use: "e_in_use (hm_data m1 ! i) \<longleftrightarrow> i = h1" if "i < 4" for i
    using that h(1) by (auto simp: m1_def hm_store_def d nth_list_update)
  have "\<not> key_matches m1 h1 key"
    using assms h(1) by (simp add: key_matches_def m1_def hm_store_def d sample_key_def)
  moreover have "(h1 + 1) mod 4 < 4" "(h1 + 1) mod 4 \<noteq> h1" using h(1) by (auto simp: mod_Suc)
  moreover have "hm_table_size m1 = 4" by (simp add: m1_def hm_store_def d)
  ultimately have "hash_probe m1 key (Suc (Suc n)) (hashmap_hash_int m1 key) \<noteq> None" for n
    using use [OF h(2)] use [of "(h1 + 1) mod 4"] by (cases "hashmap_hash_int m1 key = h1") simp_all
  moreover have "hm_size m1 < int (hm_table_size m1 div 2)" by (simp add: m1_def hm_store_def d)
  moreover have "MAX_CHAIN_LENGTH = Suc (Suc 6)" by (simp add: MAX_CHAIN_LENGTH_def)
  ultimately have "hashmap_hash m1 key \<noteq> None" by (metis hashmap_hash_def linorder_not_le)
  then show ?thesis
    by (auto simp: hashmap_put.simps [of "Suc (Suc 0)"] hashmap_put.simps [of "Suc 0"] full_map_ok numeral_2_eq_2 rehash)
qed

theorem hashmap_put_correct_witness:
  "(\<exists>m'. hashmap_put 2 (\<lambda>n. n \<le> 4) full_map [2, 0, 0, 0, 0, 2] (Some 5) = Some (MAP_OK, m') \<and>
      hm_map m' = [sample_key \<mapsto> Some 7, [2, 0, 0, 0, 0, 2] \<mapsto> Some 5]) \<and>
   (\<exists>m'. hashmap_put 1 (\<lambda>n. n \<le> 2) full_map [2, 0, 0, 0, 0, 2] (Some 5) = Some (MAP_OMEM, m') \<and> hm_map m' \<subseteq>\<^sub>m hm_map full_map)"
proof -
  let ?key = "[2, 0, 0, 0, 0, 2] :: u8 list"
  have key: "length ?key = hm_key_size full_map" "hm_map full_map ?key = None"
    by (simp_all add: full_map_ok sample_key_def)
  obtain m' where "hashmap_put 2 (\<lambda>n. n \<le> 4) full_map ?key (Some 5) = Some (MAP_OK, m')"
    using full_map_grows [of ?key "Some 5"] by (auto simp: sample_key_def)
  moreover have "hashmap_put 1 (\<lambda>n. n \<le> 2) full_map ?key (Some 5) = Some (MAP_OMEM, full_map)"
    by (simp add: hashmap_put.simps [of "Suc 0"] full_map_ok hashmap_rehash.simps [of 0] int_range_def INT_MAX_def INT_MIN_def)
  ultimately show ?thesis
    using hashmap_put_correct [OF full_map_ok(1) key, of "\<lambda>n. n \<le> 4" 4 2 "Some 5"]
      hashmap_put_correct [OF full_map_ok(1) key, of "\<lambda>n. n \<le> 2" 2 1 "Some 5"]
    by (simp add: full_map_ok INT_MAX_def)
qed



text \<open>C29. A client's loop over the iterator visits every entry exactly once, in table order, and
  may remove the current entry: the final client state is the fold of the body over the entries,
  exactly the entries the body did not remove stay, and the invariant holds afterwards.\<close>

theorem hashmap_iteration_correct:
  assumes "hm_inv m" and "it_loop body m hashmap_it_new s = (m', s')"
  shows "it_fold body (hm_entries m) s = (hm_entries m', s') \<and> hm_inv m'"
  using it_loop_fold [OF assms(1) _ assms(2)] by (auto simp: hashmap_it_new_def hm_entries_def)

theorem hashmap_iteration_correct_witness:
  "\<exists>m'. it_loop (\<lambda>v n. (True, n + the v)) shifted_map hashmap_it_new 1 = (m', 8) \<and> hm_entries m' = []"
proof -
  obtain m' s' where l: "it_loop (\<lambda>v n. (True, n + the v)) shifted_map hashmap_it_new 1 = (m', s')" by fastforce
  from hashmap_iteration_correct [OF shifted_map_ok(1) this] have "s' = 8" "hm_entries m' = []"
    by (simp_all add: shifted_map_ok)
  with l show ?thesis by blast
qed

text \<open>C35. Insertion is not an update. When a key is already stored but the slot it hashes to is
  free (the element that displaced it was removed), inserting it again stores it a second
  time: the size counts both, and once the new entry is removed the old value is returned again.\<close>

theorem hashmap_put_stale:
  assumes "hm_inv m" and "length key = hm_key_size m" and "hm_map m key = Some old"
    and "\<not> e_in_use (hm_data m ! hashmap_hash_int m key)" and "hm_size m < int (hm_table_size m div 2)"
  shows "\<exists>m1 m2. hashmap_put fuel mem m key v = Some (MAP_OK, m1) \<and> hm_size m1 = hm_size m + 1 \<and>
    hashmap_get m1 key True = (MAP_OK, v, m2) \<and> fst (snd (hashmap_get m2 key False)) = old"
proof -
  let ?h = "hashmap_hash_int m key"
  let ?m1 = "hm_store m ?h key v" and ?m2 = "hm_remove_at (hm_store m ?h key v) ?h"
  have ts: "0 < hm_table_size m" "length (hm_data m) = hm_table_size m"
    and ok: "elem_ok m ?h blank" and sz: "hm_size m = int (length (hm_entries m))"
    using assms(1) by (simp_all add: hm_inv_def elem_ok_def)
  have h: "?h < hm_table_size m" by (rule hashmap_hash_int_less [OF ts(1)])
  have hash1: "hashmap_hash_int ?m1 key = ?h" by (simp add: hashmap_hash_int_def)
  have put: "hashmap_put fuel mem m key v = Some (MAP_OK, ?m1)"
    using hashmap_hash_first [OF assms(5,4)] by (simp add: hashmap_put.simps [of fuel])
  have get: "hashmap_get ?m1 key True = (MAP_OK, v, ?m2)"
  proof -
    have "e_in_use (hm_data ?m1 ! ?h)" "key_matches ?m1 ?h key" "e_data (hm_data ?m1 ! ?h) = v"
      using h ts by (simp_all add: hm_store_def key_matches_def)
    then show ?thesis by (simp add: hashmap_get_def hash1 probe_first)
  qed
  have m2: "?m2 = m\<lparr>hm_data := (hm_data m)[?h := blank], hm_size := hm_size m\<rparr>"
    by (simp add: hm_store_def hm_remove_at_def)
  have ents: "hm_entries (m\<lparr>hm_data := (hm_data m)[?h := blank]\<rparr>) = hm_entries m"
    using h ts(2) assms(4) elem_entries_at [of ?h "hm_data m"]
    by (simp add: hm_entries_def elem_entries_update)
  have "distinct (map fst (hm_entries (m\<lparr>hm_data := (hm_data m)[?h := blank]\<rparr>)))"
    using assms(1) unfolding ents by (simp add: hm_inv_def)
  from hm_update_inv [OF assms(1) h ok this, of "hm_size m"] have "hm_inv ?m2"
    unfolding m2 using assms(4) by simp
  moreover have "hm_map ?m2 key = Some old"
    using assms(3) ents by (simp add: m2 hm_map_def hm_entries_def)
  moreover have "length key = hm_key_size ?m2" using assms(2) by (simp add: m2)
  ultimately have "fst (snd (hashmap_get ?m2 key False)) = old"
    by (simp add: hashmap_get_lookup)
  with put get show ?thesis by (auto simp: hm_store_def)
qed

theorem hashmap_put_stale_witness:
  "\<exists>m1 m2. hashmap_put 0 (\<lambda>_. False) shifted_map sample_key (Some 9) = Some (MAP_OK, m1) \<and> hm_size m1 = 2 \<and>
    hashmap_get m1 sample_key True = (MAP_OK, Some 9, m2) \<and>
    fst (snd (hashmap_get m2 sample_key False)) = Some 7"
  using hashmap_put_stale [OF shifted_map_ok(1,5), of "Some 7"] by (simp add: shifted_map_ok)

end
