(* ===== verification/Election_State.thy ===== *)
theory Election_State
  imports Prelude
begin

text \<open>
  The data of \<^verbatim>\<open>src/src/election.h\<close> and the operations of \<^verbatim>\<open>src/src/election.c\<close> that concern one
  node's election state. The election itself, which walks the peer table, is in
  \<open>Election\<close>.
\<close>

definition AWDL_ELECTION_TREE_MAX_HEIGHT :: u32 where
  "AWDL_ELECTION_TREE_MAX_HEIGHT = 10"

definition AWDL_ELECTION_METRIC_INIT :: u32 where
  "AWDL_ELECTION_METRIC_INIT = 60"

definition AWDL_ELECTION_COUNTER_INIT :: u32 where
  "AWDL_ELECTION_COUNTER_INIT = 0"

record awdl_election_state =
  el_master_addr :: ether_addr
  el_sync_addr :: ether_addr
  el_self_addr :: ether_addr
  el_height :: u32
  el_master_metric :: u32
  el_self_metric :: u32
  el_master_counter :: u32
  el_self_counter :: u32

definition compare :: "u32 \<Rightarrow> u32 \<Rightarrow> int" where
  "compare a b = (if a < b then - 1 else if a > b then 1 else 0)"

definition compare_ether_addr :: "ether_addr \<Rightarrow> ether_addr \<Rightarrow> int" where
  "compare_ether_addr a b = memcmp (ether_bytes a) (ether_bytes b)"

definition awdl_election_is_sync_master :: "awdl_election_state \<Rightarrow> ether_addr \<Rightarrow> bool" where
  "awdl_election_is_sync_master state addr \<longleftrightarrow> \<not> compare_ether_addr (el_sync_addr state) addr \<noteq> 0"

definition awdl_election_reset_metric :: "awdl_election_state \<Rightarrow> awdl_election_state" where
  "awdl_election_reset_metric state =
     state\<lparr>el_self_counter := AWDL_ELECTION_COUNTER_INIT, el_self_metric := AWDL_ELECTION_METRIC_INIT\<rparr>"

definition awdl_election_reset_self :: "awdl_election_state \<Rightarrow> awdl_election_state" where
  "awdl_election_reset_self state =
     state\<lparr>el_height := 0, el_master_addr := el_self_addr state, el_sync_addr := el_self_addr state,
           el_master_metric := el_self_metric state, el_master_counter := el_self_counter state\<rparr>"

definition awdl_election_state_init :: "awdl_election_state \<Rightarrow> ether_addr \<Rightarrow> awdl_election_state" where
  "awdl_election_state_init state self =
     awdl_election_reset_self (awdl_election_reset_metric
       (state\<lparr>el_master_addr := self, el_sync_addr := self, el_self_addr := self\<rparr>))"

definition awdl_election_compare_master :: "awdl_election_state \<Rightarrow> awdl_election_state \<Rightarrow> int" where
  "awdl_election_compare_master a b =
     (let result = compare (el_master_counter a) (el_master_counter b) in
      if result = 0 then compare (el_master_metric a) (el_master_metric b) else result)"

lemma is_sync_master_iff [simp]: "awdl_election_is_sync_master state addr \<longleftrightarrow> el_sync_addr state = addr"
  by (simp add: awdl_election_is_sync_master_def compare_ether_addr_def memcmp_ether)

lemma compare_ether_addr_simps [simp]:
  "compare_ether_addr a b \<le> 0 \<longleftrightarrow> a \<le> b" "compare_ether_addr a b < 0 \<longleftrightarrow> a < b" "compare_ether_addr a b = 0 \<longleftrightarrow> a = b"
  by (auto simp: compare_ether_addr_def memcmp_ether not_less [symmetric])

lemma compare_simps [simp]:
  "compare a b < 0 \<longleftrightarrow> a < b" "compare a b = 0 \<longleftrightarrow> a = b" "0 < compare a b \<longleftrightarrow> b < a"
  by (auto simp: compare_def)

text \<open>The comparison of masters is the lexicographic order of counter and metric.\<close>

lemma compare_master_less:
  "awdl_election_compare_master a b < 0 \<longleftrightarrow>
   el_master_counter a < el_master_counter b \<or>
   el_master_counter a = el_master_counter b \<and> el_master_metric a < el_master_metric b"
  by (auto simp: awdl_election_compare_master_def Let_def)

lemma compare_master_eq:
  "awdl_election_compare_master a b = 0 \<longleftrightarrow>
   el_master_counter a = el_master_counter b \<and> el_master_metric a = el_master_metric b"
  by (auto simp: awdl_election_compare_master_def Let_def)

text \<open>Initialisation makes a node its own master, whatever the memory held before.\<close>

lemma election_state_init_fields [simp]:
  "el_self_addr (awdl_election_state_init state self) = self"
  "el_master_addr (awdl_election_state_init state self) = self"
  "el_sync_addr (awdl_election_state_init state self) = self"
  "el_height (awdl_election_state_init state self) = 0"
  "el_master_metric (awdl_election_state_init state self) = 60"
  "el_self_metric (awdl_election_state_init state self) = 60"
  "el_master_counter (awdl_election_state_init state self) = 0"
  "el_self_counter (awdl_election_state_init state self) = 0"
  by (simp_all add: awdl_election_state_init_def awdl_election_reset_self_def awdl_election_reset_metric_def
      AWDL_ELECTION_METRIC_INIT_def AWDL_ELECTION_COUNTER_INIT_def)

end
