(* ===== verification/Channel.thy ===== *)
theory Channel
  imports Prelude
begin

text \<open>
  Model of \<^verbatim>\<open>src/src/channel.c\<close> and \<^verbatim>\<open>src/src/channel.h\<close>: channels, the three encodings of a
  channel, the channel sequences and the conversion between channels and frequencies. A channel
  is the union's two bytes; an encoding read from the wire may be none of the three.
\<close>

section \<open>Channels\<close>

definition AWDL_CHANSEQ_LENGTH :: nat where
  "AWDL_CHANSEQ_LENGTH = 16"

datatype awdl_chan_encoding =
  AWDL_CHAN_ENC_SIMPLE
  | AWDL_CHAN_ENC_LEGACY
  | AWDL_CHAN_ENC_OPCLASS
  | AWDL_CHAN_ENC_UNKNOWN u8

primrec awdl_chan_encoding_code :: "awdl_chan_encoding \<Rightarrow> u8" where
  "awdl_chan_encoding_code AWDL_CHAN_ENC_SIMPLE = 0"
| "awdl_chan_encoding_code AWDL_CHAN_ENC_LEGACY = 1"
| "awdl_chan_encoding_code AWDL_CHAN_ENC_OPCLASS = 3"
| "awdl_chan_encoding_code (AWDL_CHAN_ENC_UNKNOWN c) = c"

definition awdl_chan_encoding_of :: "u8 \<Rightarrow> awdl_chan_encoding" where
  "awdl_chan_encoding_of c =
     (if c = 0 then AWDL_CHAN_ENC_SIMPLE
      else if c = 1 then AWDL_CHAN_ENC_LEGACY
      else if c = 3 then AWDL_CHAN_ENC_OPCLASS
      else AWDL_CHAN_ENC_UNKNOWN c)"

text \<open>The two bytes \<^verbatim>\<open>val[0]\<close> and \<^verbatim>\<open>val[1]\<close> of the union.\<close>

record awdl_chan =
  chan_val0 :: u8
  chan_val1 :: u8

definition CHAN_NULL :: awdl_chan where
  "CHAN_NULL = \<lparr>chan_val0 = 0, chan_val1 = 0x00\<rparr>"

definition CHAN_OPCLASS_6 :: awdl_chan where
  "CHAN_OPCLASS_6 = \<lparr>chan_val0 = 6, chan_val1 = 0x51\<rparr>"

definition CHAN_OPCLASS_44 :: awdl_chan where
  "CHAN_OPCLASS_44 = \<lparr>chan_val0 = 44, chan_val1 = 0x80\<rparr>"

definition CHAN_OPCLASS_149 :: awdl_chan where
  "CHAN_OPCLASS_149 = \<lparr>chan_val0 = 149, chan_val1 = 0x80\<rparr>"

lemmas chan_consts = CHAN_NULL_def CHAN_OPCLASS_6_def CHAN_OPCLASS_44_def CHAN_OPCLASS_149_def

definition awdl_chan_num :: "awdl_chan \<Rightarrow> awdl_chan_encoding \<Rightarrow> u8" where
  "awdl_chan_num chan enc =
     (case enc of
        AWDL_CHAN_ENC_SIMPLE \<Rightarrow> chan_val0 chan
      | AWDL_CHAN_ENC_LEGACY \<Rightarrow> chan_val1 chan
      | AWDL_CHAN_ENC_OPCLASS \<Rightarrow> chan_val0 chan
      | AWDL_CHAN_ENC_UNKNOWN _ \<Rightarrow> 0)"

definition awdl_chan_encoding_size :: "awdl_chan_encoding \<Rightarrow> int" where
  "awdl_chan_encoding_size enc =
     (case enc of
        AWDL_CHAN_ENC_SIMPLE \<Rightarrow> 1
      | AWDL_CHAN_ENC_LEGACY \<Rightarrow> 2
      | AWDL_CHAN_ENC_OPCLASS \<Rightarrow> 2
      | AWDL_CHAN_ENC_UNKNOWN _ \<Rightarrow> - 1)"

record awdl_channel_state =
  ch_enc :: awdl_chan_encoding
  ch_sequence :: "awdl_chan list"
  ch_master :: awdl_chan
  ch_current :: awdl_chan

section \<open>Channel sequences\<close>

text \<open>The initialisers fill an array of \<^term>\<open>AWDL_CHANSEQ_LENGTH\<close> channels.\<close>

definition awdl_chanseq_init :: "awdl_chan list" where
  "awdl_chanseq_init =
     map (\<lambda>i. if i < 8 then CHAN_OPCLASS_149 else CHAN_OPCLASS_6) [0..<AWDL_CHANSEQ_LENGTH]"

definition awdl_chanseq_init_idle :: "awdl_chan list" where
  "awdl_chanseq_init_idle =
     map (\<lambda>i. if i = 8 then CHAN_OPCLASS_6
              else if i = 0 \<or> i = 9 \<or> i = 10 then CHAN_OPCLASS_149
              else CHAN_NULL) [0..<AWDL_CHANSEQ_LENGTH]"

definition awdl_chanseq_init_static :: "awdl_chan \<Rightarrow> awdl_chan list" where
  "awdl_chanseq_init_static chan = map (\<lambda>i. chan) [0..<AWDL_CHANSEQ_LENGTH]"

lemma length_chanseq [simp]:
  "length awdl_chanseq_init = AWDL_CHANSEQ_LENGTH"
  "length awdl_chanseq_init_idle = AWDL_CHANSEQ_LENGTH"
  "length (awdl_chanseq_init_static chan) = AWDL_CHANSEQ_LENGTH"
  by (simp_all add: awdl_chanseq_init_def awdl_chanseq_init_idle_def awdl_chanseq_init_static_def)

lemma chanseq_static_nth [simp]: "i < AWDL_CHANSEQ_LENGTH \<Longrightarrow> awdl_chanseq_init_static chan ! i = chan"
  by (simp add: awdl_chanseq_init_static_def)

section \<open>Frequencies\<close>

definition ieee80211_channel_to_frequency :: "int \<Rightarrow> int" where
  "ieee80211_channel_to_frequency chan =
     (if chan \<le> 0 then 0
      else if chan = 14 then 2484
      else if chan < 14 then 2407 + chan * 5
      else if chan < 32 then 0
      else if chan \<ge> 182 \<and> chan \<le> 196 then 4000 + chan * 5
      else 5000 + chan * 5)"

definition ieee80211_frequency_to_channel :: "int \<Rightarrow> int" where
  "ieee80211_frequency_to_channel freq =
     (if freq = 2484 then 14
      else if freq < 2484 then c_div (freq - 2407) 5
      else if freq \<ge> 4910 \<and> freq \<le> 4980 then c_div (freq - 4000) 5
      else if freq \<le> 45000 then c_div (freq - 5000) 5
      else if freq \<ge> 58320 \<and> freq \<le> 64800 then c_div (freq - 56160) 2160
      else 0)"

section \<open>Properties\<close>

text \<open>A channel that has a frequency is recovered from it, for every channel number up to 8000
  (all that \<^verbatim>\<open>uint8_t\<close> channel numbers need); the channels without a frequency are exactly the
  non-positive ones and those between 15 and 31.\<close>

theorem channel_frequency_round_trip:
  assumes "chan \<le> 8000"
  shows "(ieee80211_channel_to_frequency chan = 0 \<longleftrightarrow> chan \<le> 0 \<or> 14 < chan \<and> chan < 32) \<and>
    (ieee80211_channel_to_frequency chan \<noteq> 0 \<longrightarrow>
     ieee80211_frequency_to_channel (ieee80211_channel_to_frequency chan) = chan)"
  using assms by (auto simp: ieee80211_channel_to_frequency_def ieee80211_frequency_to_channel_def)

theorem channel_frequency_round_trip_witness:
  "ieee80211_frequency_to_channel (ieee80211_channel_to_frequency 149) = 149 \<and>
   ieee80211_channel_to_frequency 149 = 5745"
  using channel_frequency_round_trip [of 149] by (simp add: ieee80211_channel_to_frequency_def)

end
