(* ===== verification/Peers.thy ===== *)
theory Peers
  imports Hashmap Election_State Channel
begin

text \<open>
  Model of \<^verbatim>\<open>src/src/peers.c\<close> and \<^verbatim>\<open>src/src/peers.h\<close>: the table of neighbours. The table is the
  hash map of \<open>Hashmap\<close> with the peer's record as the value; writing through the pointer
  a lookup returned is \<^term>\<open>hm_write\<close>. The parameter \<open>junk\<close> is what \<^verbatim>\<open>malloc\<close> returns for a new
  record: memory with arbitrary content, or nothing. The callbacks an operation makes are returned as the list of the peers they are
  called with, in order.
\<close>

section \<open>Data\<close>

definition HOST_NAME_LENGTH_MAX :: nat where
  "HOST_NAME_LENGTH_MAX = 64"

datatype peers_status = PEERS_UPDATE | PEERS_OK | PEERS_MISSING | PEERS_INTERNAL

primrec peers_status_code :: "peers_status \<Rightarrow> int" where
  "peers_status_code PEERS_UPDATE = 1"
| "peers_status_code PEERS_OK = 0"
| "peers_status_code PEERS_MISSING = - 1"
| "peers_status_code PEERS_INTERNAL = - 2"

record awdl_peer =
  p_addr :: ether_addr
  p_last_update :: u64
  p_election :: awdl_election_state
  p_sequence :: "awdl_chan list"
  p_sync_offset :: u64
  p_name :: "u8 list"
  p_country_code :: "u8 list"
  p_infra_addr :: ether_addr
  p_version :: u8
  p_devclass :: u8
  p_supports_v2 :: bool
  p_sent_mif :: bool
  p_is_valid :: bool

type_synonym awdl_peers = "awdl_peer hashmap_map"

record awdl_peer_state =
  ps_peers :: awdl_peers
  ps_timeout :: u64
  ps_clean_interval :: u64

definition PEERS_DEFAULT_TIMEOUT :: u64 where
  "PEERS_DEFAULT_TIMEOUT = 2000000"

definition PEERS_DEFAULT_CLEAN_INTERVAL :: u64 where
  "PEERS_DEFAULT_CLEAN_INTERVAL = 1000000"

section \<open>Operations\<close>

definition awdl_peers_init :: "(nat \<Rightarrow> bool) \<Rightarrow> awdl_peers option" where
  "awdl_peers_init mem = hashmap_new mem 6"

text \<open>The C code does not test whether the table could be allocated. Without a table the function itself would return, and the first
  handler that uses the table, the cleaning timer at the latest, would read through a null pointer; the model has no state without a
  table and is undefined here already.\<close>

definition awdl_peer_state_init :: "(nat \<Rightarrow> bool) \<Rightarrow> awdl_peer_state option" where
  "awdl_peer_state_init mem =
     (case awdl_peers_init mem of
        None \<Rightarrow> None
      | Some peers \<Rightarrow>
          Some \<lparr>ps_peers = peers, ps_timeout = PEERS_DEFAULT_TIMEOUT,
                ps_clean_interval = PEERS_DEFAULT_CLEAN_INTERVAL\<rparr>)"

text \<open>The peers handed to \<^verbatim>\<open>free\<close>.\<close>

definition awdl_peers_free :: "awdl_peers \<Rightarrow> awdl_peer list" where
  "awdl_peers_free peers =
     snd (it_loop (\<lambda>v freed. (True, freed @ (case v of Some peer \<Rightarrow> [peer] | None \<Rightarrow> []))) peers hashmap_it_new [])"

definition awdl_peers_length :: "awdl_peers \<Rightarrow> int" where
  "awdl_peers_length peers = hashmap_length (Some peers)"

definition awdl_peer_is_valid :: "awdl_peer \<Rightarrow> bool" where
  "awdl_peer_is_valid peer \<longleftrightarrow> p_sent_mif peer \<and> p_devclass peer \<noteq> 0 \<and> p_version peer \<noteq> 0"

text \<open>\<^verbatim>\<open>strcpy(peer->name, "")\<close> writes one byte, \<^verbatim>\<open>strcpy(peer->country_code, "NA")\<close> three. The result of \<^verbatim>\<open>malloc\<close> is
  used without a test, which is undefined when there is no memory.\<close>

definition awdl_peer_new :: "awdl_peer option \<Rightarrow> ether_addr \<Rightarrow> awdl_peer option" where
  "awdl_peer_new junk addr =
     (case junk of
        None \<Rightarrow> None
      | Some peer \<Rightarrow>
          Some (peer\<lparr>p_addr := addr,
                     p_last_update := 0,
                     p_election := awdl_election_state_init (p_election peer) addr,
                     p_sequence := awdl_chanseq_init_static CHAN_NULL,
                     p_sync_offset := 0,
                     p_devclass := 0,
                     p_version := 0,
                     p_supports_v2 := False,
                     p_sent_mif := False,
                     p_name := 0 # drop 1 (p_name peer),
                     p_country_code := [0x4e, 0x41, 0] @ drop 3 (p_country_code peer),
                     p_is_valid := False\<rparr>))"

definition peer_key :: "ether_addr \<Rightarrow> u8 list" where
  "peer_key addr = ether_bytes addr"

text \<open>The code after the label \<^verbatim>\<open>out\<close>; \<open>peer\<close> is the record the pointer refers to.\<close>

definition peer_add_out :: "peers_status \<Rightarrow> awdl_peers \<Rightarrow> awdl_peer \<Rightarrow> bool \<Rightarrow> peers_status \<times> awdl_peers \<times> awdl_peer list" where
  "peer_add_out result peers peer cb =
     (if \<not> p_is_valid peer \<and> awdl_peer_is_valid peer
      then (let peer' = peer\<lparr>p_is_valid := True\<rparr> in
            (result, hm_write peers (peer_key (p_addr peer)) peer', if cb then [peer'] else []))
      else (result, peers, []))"

text \<open>\<open>cb\<close> says whether a callback is given. The result is \<^term>\<open>None\<close> when there is no memory for
  a new record, and otherwise only when insertion does not return within its fuel or a table entry is NULL, which the invariant excludes.\<close>

definition awdl_peer_add ::
  "(nat \<Rightarrow> bool) \<Rightarrow> awdl_peer option \<Rightarrow> awdl_peers \<Rightarrow> ether_addr \<Rightarrow> u64 \<Rightarrow> bool \<Rightarrow>
   (peers_status \<times> awdl_peers \<times> awdl_peer list) option" where
  "awdl_peer_add mem junk peers addr now cb =
     (case hashmap_get peers (peer_key addr) False of
        (status, found, _) \<Rightarrow>
          if status = MAP_MISSING
          then (case awdl_peer_new junk addr of
                  None \<Rightarrow> None
                | Some peer \<Rightarrow>
                    (let peer = peer\<lparr>p_last_update := now\<rparr> in
                     case hashmap_put HM_FUEL mem peers (peer_key (p_addr peer)) (Some peer) of
                       None \<Rightarrow> None
                     | Some (status, peers') \<Rightarrow>
                         if status \<noteq> MAP_OK then Some (PEERS_INTERNAL, peers', [])
                         else Some (peer_add_out PEERS_OK peers' peer cb)))
          else (case found of
                  None \<Rightarrow> None
                | Some peer \<Rightarrow>
                    (let peer' = peer\<lparr>p_last_update := now\<rparr> in
                     Some (peer_add_out PEERS_UPDATE (hm_write peers (peer_key addr) peer') peer' cb))))"

definition awdl_peer_remove ::
  "awdl_peers \<Rightarrow> ether_addr \<Rightarrow> bool \<Rightarrow> peers_status \<times> awdl_peers \<times> awdl_peer list" where
  "awdl_peer_remove peers addr cb =
     (case hashmap_get peers (peer_key addr) True of
        (status, found, peers') \<Rightarrow>
          if status = MAP_MISSING then (PEERS_MISSING, peers', [])
          else (PEERS_OK, peers',
                case found of
                  Some peer \<Rightarrow> if p_is_valid peer \<and> cb then [peer] else []
                | None \<Rightarrow> []))"

definition awdl_peer_get :: "awdl_peers \<Rightarrow> ether_addr \<Rightarrow> peers_status \<times> awdl_peer option" where
  "awdl_peer_get peers addr =
     (case hashmap_get peers (peer_key addr) False of
        (status, found, _) \<Rightarrow> if status = MAP_MISSING then (PEERS_MISSING, found) else (PEERS_OK, found))"

text \<open>The body of the clean-up loop.\<close>

definition peers_remove_body :: "u64 \<Rightarrow> bool \<Rightarrow> awdl_peer option \<Rightarrow> awdl_peer list \<Rightarrow> bool \<times> awdl_peer list" where
  "peers_remove_body before cb v called =
     (case v of
        None \<Rightarrow> (False, called)
      | Some peer \<Rightarrow>
          if p_last_update peer < before
          then (True, if p_is_valid peer \<and> cb then called @ [peer] else called)
          else (False, called))"

definition awdl_peers_remove :: "awdl_peers \<Rightarrow> u64 \<Rightarrow> bool \<Rightarrow> awdl_peers \<times> awdl_peer list" where
  "awdl_peers_remove peers before cb = it_loop (peers_remove_body before cb) peers hashmap_it_new []"

definition awdl_peers_it_new :: int where
  "awdl_peers_it_new = hashmap_it_new"

definition awdl_peers_it_next :: "awdl_peers \<Rightarrow> int \<Rightarrow> peers_status \<times> int \<times> awdl_peer option" where
  "awdl_peers_it_next peers it =
     (case hashmap_it_next peers it of
        (s, it', _, peer) \<Rightarrow> (if s = MAP_OK then PEERS_OK else PEERS_MISSING, it', peer))"

definition awdl_peers_it_remove :: "awdl_peers \<Rightarrow> int \<Rightarrow> peers_status \<times> awdl_peers" where
  "awdl_peers_it_remove peers it =
     (case hashmap_it_remove peers it of
        (s, peers') \<Rightarrow> (if s = MAP_OK then PEERS_OK else PEERS_MISSING, peers'))"

section \<open>The table as a map from addresses to peers\<close>

definition peer_lookup :: "awdl_peers \<Rightarrow> ether_addr \<Rightarrow> awdl_peer option" where
  "peer_lookup peers addr = hm_lookup peers (peer_key addr)"

text \<open>The arrays of a peer have the sizes the struct declares, and its election state carries the
  address of the peer, which only the constructor sets.\<close>

definition peer_ok :: "awdl_peer \<Rightarrow> bool" where
  "peer_ok p \<longleftrightarrow> length (p_sequence p) = AWDL_CHANSEQ_LENGTH \<and>
     length (p_name p) = HOST_NAME_LENGTH_MAX + 1 \<and> length (p_country_code p) = 3 \<and>
     el_self_addr (p_election p) = p_addr p"

text \<open>\<open>L\<close> is a bound on the number of elements \<^verbatim>\<open>calloc\<close> can provide.\<close>

definition alloc_ok :: "nat \<Rightarrow> (nat \<Rightarrow> bool) \<Rightarrow> bool" where
  "alloc_ok L mem \<longleftrightarrow> (\<forall>n. mem n \<longrightarrow> n \<le> L) \<and> 2 * int L \<le> INT_MAX"

definition peers_inv :: "nat \<Rightarrow> awdl_peers \<Rightarrow> bool" where
  "peers_inv L m \<longleftrightarrow> hm_ok m \<and> hm_key_size m = 6 \<and> INITIAL_SIZE \<le> hm_table_size m \<and> hm_table_size m \<le> L \<and>
     (\<forall>k p. hm_map m k = Some (Some p) \<longrightarrow> k = peer_key (p_addr p) \<and> peer_ok p)"

lemma length_peer_key [simp]: "length (peer_key a) = 6"
  by (simp add: peer_key_def)

lemma peer_key_inject [simp]: "peer_key a = peer_key b \<longleftrightarrow> a = b"
  by (simp add: peer_key_def)

lemma peers_inv_hm: "peers_inv L m \<Longrightarrow> hm_ok m" "peers_inv L m \<Longrightarrow> length (peer_key a) = hm_key_size m"
  by (simp_all add: peers_inv_def)

lemma peer_lookup_map: "peers_inv L m \<Longrightarrow> peer_lookup m a = Option.bind (hm_map m (peer_key a)) id"
  by (simp add: peer_lookup_def hm_lookup_eq peers_inv_def)

lemma peer_lookup_Some: "peers_inv L m \<Longrightarrow> peer_lookup m a = Some p \<longleftrightarrow> hm_map m (peer_key a) = Some (Some p)"
  by (cases "hm_map m (peer_key a)") (auto simp: peer_lookup_map)

lemma peer_lookup_None: "peers_inv L m \<Longrightarrow> peer_lookup m a = None \<longleftrightarrow> hm_map m (peer_key a) = None"
  by (simp add: peer_lookup_def hm_lookup_None peers_inv_def)

lemma peer_lookup_ok: "peers_inv L m \<Longrightarrow> peer_lookup m a = Some p \<Longrightarrow> p_addr p = a \<and> peer_ok p"
  unfolding peer_lookup_Some by (metis peer_key_inject peers_inv_def)

lemma hashmap_get_peer:
  assumes "peers_inv L m"
  shows "hashmap_get m (peer_key a) r =
    (case peer_lookup m a of
       None \<Rightarrow> (MAP_MISSING, None, m)
     | Some p \<Rightarrow> (MAP_OK, Some p, if r then hm_delete m (peer_key a) else m))"
proof -
  have inv: "hm_inv m" and len: "length (peer_key a) = hm_key_size m"
    using assms by (simp_all add: peers_inv_def hm_ok_def)
  have third: "snd (snd (hashmap_get m k r)) =
      (if fst (hashmap_get m k r) = MAP_MISSING \<or> \<not> r then m else hm_delete m k)" for k
    by (auto simp: hm_delete_def hashmap_get_def split: option.split)
  obtain st v m' where g: "hashmap_get m (peer_key a) r = (st, v, m')" by (metis prod_cases3)
  show ?thesis
  proof (cases "peer_lookup m a")
    case None
    with assms have "hm_map m (peer_key a) = None" by (simp add: peer_lookup_None)
    with hashmap_get_lookup [OF inv len, of r] third [of "peer_key a"] None show ?thesis by (simp add: g)
  next
    case (Some p)
    with assms have "hm_map m (peer_key a) = Some (Some p)" by (simp add: peer_lookup_Some)
    with hashmap_get_lookup [OF inv len, of r] third [of "peer_key a"] Some show ?thesis by (auto simp: g)
  qed
qed

lemma awdl_peer_get_lookup:
  "peers_inv L m \<Longrightarrow> awdl_peer_get m a =
    (case peer_lookup m a of None \<Rightarrow> (PEERS_MISSING, None) | Some p \<Rightarrow> (PEERS_OK, Some p))"
  by (simp add: awdl_peer_get_def hashmap_get_peer split: option.split)

lemma table_sizes [simp]:
  "hm_table_size (hm_write m k v) = hm_table_size m"
  "hm_table_size (hm_delete m k) = hm_table_size m"
  by (simp_all add: hm_write_def hm_delete_def hashmap_get_def split: option.split)

lemma peer_write:
  assumes "peers_inv L m" and "peer_lookup m a = Some q" and "p_addr p = a" and "peer_ok p"
  shows "peers_inv L (hm_write m (peer_key a) p)"
    and "peer_lookup (hm_write m (peer_key a) p) b = (if b = a then Some p else peer_lookup m b)"
proof -
  note w = hm_write_map [OF peers_inv_hm [OF assms(1)], of a p]
  have n: "hm_map m (peer_key a) \<noteq> None" using assms(1,2) by (simp add: peer_lookup_Some)
  show "peers_inv L (hm_write m (peer_key a) p)"
    using w [OF n] assms by (auto simp: peers_inv_def)
  have "hm_lookup m (peer_key a) \<noteq> None" using assms(2) by (simp add: peer_lookup_def)
  with table.overwrite_lookup [OF peers_inv_hm [OF assms(1)] this peers_inv_hm(2) [OF assms(1)]]
  show "peer_lookup (hm_write m (peer_key a) p) b = (if b = a then Some p else peer_lookup m b)"
    by (simp add: peer_lookup_def)
qed

lemma peer_delete:
  assumes "peers_inv L m"
  shows "peers_inv L (hm_delete m (peer_key a))"
    and "peer_lookup (hm_delete m (peer_key a)) b = (if b = a then None else peer_lookup m b)"
proof -
  note d = hm_delete_map [OF peers_inv_hm [OF assms(1)], of a]
  show "peers_inv L (hm_delete m (peer_key a))" using d assms by (auto simp: peers_inv_def)
  show "peer_lookup (hm_delete m (peer_key a)) b = (if b = a then None else peer_lookup m b)"
    using table.delete_lookup [OF peers_inv_hm [OF assms(1)] peers_inv_hm(2) [OF assms(1)]]
    by (simp add: peer_lookup_def)
qed

text \<open>The part of the table insertion leaves behind.\<close>

lemma peers_inv_sub:
  assumes "peers_inv L m" and "hm_inv m'" and "hm_map m' \<subseteq>\<^sub>m hm_map m" and "hm_key_size m' = hm_key_size m"
    and "INITIAL_SIZE \<le> hm_table_size m'" and "hm_table_size m' \<le> L"
  shows "peers_inv L m'" and "peer_lookup m' \<subseteq>\<^sub>m peer_lookup m"
proof -
  have sub: "hm_map m' k = Some v \<Longrightarrow> hm_map m k = Some v" for k v
    using assms(3) by (auto simp: map_le_def dom_def)
  show inv: "peers_inv L m'"
    using assms by (auto simp: peers_inv_def hm_ok_def dest: sub)
  show "peer_lookup m' \<subseteq>\<^sub>m peer_lookup m"
  proof (unfold map_le_def, intro ballI)
    fix a
    assume "a \<in> dom (peer_lookup m')"
    then obtain p where p: "peer_lookup m' a = Some p" by auto
    then have "peer_lookup m a = Some p"
      by (simp add: peer_lookup_Some [OF inv] peer_lookup_Some [OF assms(1)] sub)
    with p show "peer_lookup m' a = peer_lookup m a" by simp
  qed
qed

section \<open>The operations on the map of peers\<close>

text \<open>What a record becomes when a frame of the peer has been seen at time \<open>now\<close>.\<close>

definition peer_refresh :: "u64 \<Rightarrow> awdl_peer \<Rightarrow> awdl_peer" where
  "peer_refresh now p = p\<lparr>p_last_update := now, p_is_valid := p_is_valid p \<or> awdl_peer_is_valid p\<rparr>"

definition peer_turns_valid :: "awdl_peer \<Rightarrow> bool" where
  "peer_turns_valid p \<longleftrightarrow> \<not> p_is_valid p \<and> awdl_peer_is_valid p"

text \<open>There is memory for a new record, whose arrays have the lengths of the struct.\<close>

definition junk_ok :: "awdl_peer option \<Rightarrow> bool" where
  "junk_ok junk \<longleftrightarrow> (case junk of None \<Rightarrow> False | Some peer \<Rightarrow> length (p_name peer) = HOST_NAME_LENGTH_MAX + 1 \<and> length (p_country_code peer) = 3)"

definition peer_known :: "awdl_peer option \<Rightarrow> awdl_peers \<Rightarrow> ether_addr \<Rightarrow> awdl_peer" where
  "peer_known junk m a = (case peer_lookup m a of Some p \<Rightarrow> p | None \<Rightarrow> the (awdl_peer_new junk a))"

lemma peer_new_fields:
  assumes "awdl_peer_new junk a = Some p"
  shows "p_addr p = a" "p_is_valid p = False" "awdl_peer_is_valid p = False" "p_sent_mif p = False" "p_last_update p = 0" "p_supports_v2 p = False"
    "p_election p = awdl_election_state_init (p_election (the junk)) a"
  using assms by (auto simp: awdl_peer_new_def awdl_peer_is_valid_def split: option.splits)

lemma peer_new_ok: "junk_ok junk \<Longrightarrow> \<exists>p. awdl_peer_new junk a = Some p \<and> peer_ok p"
  by (auto simp: junk_ok_def peer_ok_def awdl_peer_new_def split: option.splits)

lemma peer_ok_updates [simp]:
  "peer_ok (p\<lparr>p_last_update := now\<rparr>) = peer_ok p" "peer_ok (p\<lparr>p_is_valid := v\<rparr>) = peer_ok p"
  "peer_ok (peer_refresh now p) = peer_ok p" "p_addr (peer_refresh now p) = p_addr p"
  "awdl_peer_is_valid (p\<lparr>p_last_update := now\<rparr>) = awdl_peer_is_valid p"
  by (simp_all add: peer_ok_def peer_refresh_def awdl_peer_is_valid_def)

lemma peer_known_ok: "peers_inv L m \<Longrightarrow> junk_ok junk \<Longrightarrow> peer_ok (peer_known junk m a) \<and> p_addr (peer_known junk m a) = a"
  using peer_new_ok [of junk a] by (auto simp: peer_known_def peer_new_fields(1) dest: peer_lookup_ok split: option.split)

lemma peer_add_out_spec:
  assumes "peers_inv L m" and "peer_lookup m (p_addr p) = Some (p\<lparr>p_last_update := now\<rparr>)" and "peer_ok p"
    and "peer_add_out st m (p\<lparr>p_last_update := now\<rparr>) cb = (st', m', called)"
  shows "st' = st \<and> peers_inv L m' \<and>
    (\<forall>b. peer_lookup m' b = (if b = p_addr p then Some (peer_refresh now p) else peer_lookup m b)) \<and>
    called = (if cb \<and> peer_turns_valid p then [peer_refresh now p] else [])"
proof (cases "peer_turns_valid p")
  case True
  let ?p = "p\<lparr>p_last_update := now, p_is_valid := True\<rparr>"
  have r: "peer_refresh now p = ?p" using True by (simp add: peer_refresh_def peer_turns_valid_def)
  have "m' = hm_write m (peer_key (p_addr p)) ?p" "st' = st" "called = (if cb then [?p] else [])"
    using assms(4) True by (auto simp: peer_add_out_def peer_turns_valid_def Let_def)
  with True peer_write [OF assms(1,2), of ?p] assms(3) show ?thesis by (simp add: r)
next
  case False
  then have r: "peer_refresh now p = p\<lparr>p_last_update := now\<rparr>"
    by (cases p) (auto simp: peer_refresh_def peer_turns_valid_def)
  with False assms show ?thesis by (auto simp: peer_add_out_def peer_turns_valid_def)
qed

lemma peer_put:
  assumes "alloc_ok L mem" and "peers_inv L m" and "peer_lookup m a = None" and "p_addr p = a" and "peer_ok p"
  obtains m' where "hashmap_put HM_FUEL mem m (peer_key a) (Some p) = Some (MAP_OK, m')" and "peers_inv L m'"
      and "\<And>b. peer_lookup m' b = (if b = a then Some p else peer_lookup m b)"
  | m' where "hashmap_put HM_FUEL mem m (peer_key a) (Some p) = Some (MAP_OMEM, m')" and "peers_inv L m'"
      and "peer_lookup m' \<subseteq>\<^sub>m peer_lookup m"
proof -
  note hm = peers_inv_hm [OF assms(2)]
  have none: "hm_lookup m (peer_key a) = None" "hm_map m (peer_key a) = None"
    using assms(2,3) by (simp_all add: peer_lookup_def peer_lookup_None [symmetric])
  from assms(1,2) have "\<And>n. mem n \<Longrightarrow> n \<le> L" "2 * int L \<le> INT_MAX" "hm_table_size m \<le> L" "INITIAL_SIZE \<le> hm_table_size m"
    by (auto simp: alloc_ok_def peers_inv_def)
  from hm_add_or_omem [OF hm none(1) this] obtain st m' where
    put: "hashmap_put HM_FUEL mem m (peer_key a) (Some p) = Some (st, m')" and st: "st = MAP_OK \<or> st = MAP_OMEM"
    and sizes: "hm_inv m'" "INITIAL_SIZE \<le> hm_table_size m'" "hm_table_size m' \<le> L"
    by blast
  have "hm_inv m" using hm(1) by (simp add: hm_ok_def)
  note post = put_rehash_post(1) [OF this hm(2) none(2) put] and inv = this
  from st show thesis
  proof
    assume "st = MAP_OK"
    then have "hm_add HM_FUEL mem m (peer_key a) p = Some m'" using put by (simp add: hm_add_def)
    note add = hm_add_map [OF hm none(2) this] and look = table.add_new_lookup [OF hm none(1) this hm(2)]
    have "peers_inv L m'" using add sizes assms by (auto simp: peers_inv_def)
    with look put \<open>st = MAP_OK\<close> that(1) show thesis by (simp add: peer_lookup_def)
  next
    assume omem: "st = MAP_OMEM"
    have "hm_map m' \<subseteq>\<^sub>m hm_map m"
      using put_omem_sub [OF inv hm(2) none(2)] put omem by simp
    moreover have "hm_key_size m' = hm_key_size m" using post by (simp add: put_post_def)
    ultimately show thesis
      using that(2) peers_inv_sub [OF assms(2) sizes(1) _ _ sizes(2,3)] put omem by simp
  qed
qed

lemma peer_add_total:
  assumes "alloc_ok L mem" and "peers_inv L m" and "junk_ok junk"
  obtains m' called where "awdl_peer_add mem junk m a now cb =
        Some (if peer_lookup m a = None then PEERS_OK else PEERS_UPDATE, m', called)"
      and "peers_inv L m'"
      and "\<And>b. peer_lookup m' b = (if b = a then Some (peer_refresh now (peer_known junk m a)) else peer_lookup m b)"
      and "called = (if cb \<and> peer_turns_valid (peer_known junk m a) then [peer_refresh now (peer_known junk m a)] else [])"
  | m' where "awdl_peer_add mem junk m a now cb = Some (PEERS_INTERNAL, m', [])" and "peers_inv L m'"
      and "peer_lookup m a = None" and "peer_lookup m' \<subseteq>\<^sub>m peer_lookup m"
proof (cases "peer_lookup m a")
  case (Some p)
  have p: "p_addr p = a" "peer_ok p" using peer_lookup_ok [OF assms(2) Some] by simp_all
  let ?p = "p\<lparr>p_last_update := now\<rparr>" and ?m = "hm_write m (peer_key a) (p\<lparr>p_last_update := now\<rparr>)"
  have w: "peers_inv L ?m" "\<And>b. peer_lookup ?m b = (if b = a then Some ?p else peer_lookup m b)"
    using peer_write [OF assms(2) Some, of ?p] p by simp_all
  obtain st' m' called where out: "peer_add_out PEERS_UPDATE ?m ?p cb = (st', m', called)" by (metis prod_cases3)
  have "awdl_peer_add mem junk m a now cb = Some (st', m', called)"
    using Some out assms(2) by (simp add: awdl_peer_add_def hashmap_get_peer Let_def)
  moreover have "peer_lookup ?m (p_addr p) = Some ?p" using w(2) p by simp
  note peer_add_out_spec [OF w(1) this p(2) out]
  ultimately show thesis using that(1) [of m' called] w(2) p Some by (simp add: peer_known_def)
next
  case None
  obtain n where new: "awdl_peer_new junk a = Some n" and ok: "peer_ok n" using peer_new_ok [OF assms(3)] by blast
  note n = peer_new_fields [OF new]
  show thesis
  proof (rule peer_put [OF assms(1,2) None, of "n\<lparr>p_last_update := now\<rparr>"])
    fix m1
    assume put: "hashmap_put HM_FUEL mem m (peer_key a) (Some (n\<lparr>p_last_update := now\<rparr>)) = Some (MAP_OK, m1)"
      and inv: "peers_inv L m1"
      and look: "\<And>b. peer_lookup m1 b = (if b = a then Some (n\<lparr>p_last_update := now\<rparr>) else peer_lookup m b)"
    obtain st' m' called where out: "peer_add_out PEERS_OK m1 (n\<lparr>p_last_update := now\<rparr>) cb = (st', m', called)"
      by (metis prod_cases3)
    have "awdl_peer_add mem junk m a now cb = Some (st', m', called)"
      using None put out assms(2) by (simp add: awdl_peer_add_def hashmap_get_peer Let_def new n)
    moreover have "peer_lookup m1 (p_addr n) = Some (n\<lparr>p_last_update := now\<rparr>)" using look n by simp
    note peer_add_out_spec [OF inv this ok out]
    ultimately show thesis using that(1) [of m' called] look None by (simp add: peer_known_def new n)
  next
    fix m1
    assume "hashmap_put HM_FUEL mem m (peer_key a) (Some (n\<lparr>p_last_update := now\<rparr>)) = Some (MAP_OMEM, m1)"
      and "peers_inv L m1" and "peer_lookup m1 \<subseteq>\<^sub>m peer_lookup m"
    with None assms(2) that(2) [of m1] show thesis by (simp add: awdl_peer_add_def hashmap_get_peer Let_def new n)
  qed (use ok n in simp_all)
qed

lemma map_of_filter_distinct:
  "distinct (map fst es) \<Longrightarrow>
   map_of (filter P es) k = (case map_of es k of Some v \<Rightarrow> if P (k, v) then Some v else None | None \<Rightarrow> None)"
proof (induction es)
  case (Cons e es)
  obtain k' v where e: "e = (k', v)" by force
  show ?case
  proof (cases "k' = k")
    case True
    with Cons.prems e have "map_of (filter P es) k = None" by (auto simp: map_of_eq_None_iff)
    with True e show ?thesis by simp
  next
    case False
    with Cons e show ?thesis by simp
  qed
qed simp

lemma peers_entries:
  assumes "peers_inv L m"
  shows "(k, v) \<in> set (hm_entries m) \<longleftrightarrow> (\<exists>p. k = peer_key (p_addr p) \<and> v = Some p \<and> peer_lookup m (p_addr p) = Some p)"
proof -
  have d: "distinct (map fst (hm_entries m))" using assms by (simp add: peers_inv_def hm_ok_def hm_inv_def)
  have "(k, v) \<in> set (hm_entries m) \<longleftrightarrow> hm_map m k = Some v"
    using d by (simp add: hm_map_def)
  also have "\<dots> \<longleftrightarrow> (\<exists>p. v = Some p \<and> hm_map m k = Some (Some p))"
    using assms by (cases v) (auto simp: peers_inv_def hm_ok_def)
  also have "\<dots> \<longleftrightarrow> (\<exists>p. k = peer_key (p_addr p) \<and> v = Some p \<and> peer_lookup m (p_addr p) = Some p)"
  proof -
    have "hm_map m k = Some (Some p) \<Longrightarrow> k = peer_key (p_addr p)" for p
      using assms by (auto simp: peers_inv_def)
    then show ?thesis by (auto simp: peer_lookup_Some [OF assms])
  qed
  finally show ?thesis .
qed

text \<open>The peers in table order.\<close>

definition peers_list :: "awdl_peers \<Rightarrow> awdl_peer list" where
  "peers_list m = map (the \<circ> snd) (hm_entries m)"

lemma peers_list_entries:
  assumes "peers_inv L m"
  shows "hm_entries m = map (\<lambda>p. (peer_key (p_addr p), Some p)) (peers_list m)"
  unfolding peers_list_def map_map using peers_entries [OF assms]
  by (intro map_idI [symmetric]) (fastforce split: prod.split)

lemma peers_list_set:
  assumes "peers_inv L m"
  shows "p \<in> set (peers_list m) \<longleftrightarrow> peer_lookup m (p_addr p) = Some p"
proof -
  have "p \<in> set (peers_list m) \<longleftrightarrow> (peer_key (p_addr p), Some p) \<in> set (hm_entries m)"
    by (subst peers_list_entries [OF assms]) auto
  then show ?thesis by (simp add: peers_entries [OF assms])
qed

lemma peers_list_distinct:
  assumes "peers_inv L m"
  shows "distinct (map p_addr (peers_list m))"
proof -
  have "distinct (map fst (hm_entries m))" using assms by (simp add: peers_inv_def hm_ok_def hm_inv_def)
  then have "distinct (map (peer_key \<circ> p_addr) (peers_list m))"
    by (subst (asm) peers_list_entries [OF assms]) (simp add: comp_def)
  then show ?thesis by (metis distinct_map map_map)
qed

lemma it_fold_remove:
  "it_fold (peers_remove_body before cb) (map (\<lambda>p. (peer_key (p_addr p), Some p)) ps) called =
   (map (\<lambda>p. (peer_key (p_addr p), Some p)) (filter (\<lambda>p. \<not> p_last_update p < before) ps),
    called @ filter (\<lambda>p. p_last_update p < before \<and> p_is_valid p \<and> cb) ps)"
  by (induction ps arbitrary: called) (auto simp: peers_remove_body_def)

lemma peers_remove_spec:
  assumes "peers_inv L m" and "awdl_peers_remove m before cb = (m', called)"
  shows "peers_inv L m'"
    and "peers_list m' = filter (\<lambda>p. \<not> p_last_update p < before) (peers_list m)"
    and "called = filter (\<lambda>p. p_last_update p < before \<and> p_is_valid p \<and> cb) (peers_list m)"
    and "peer_lookup m' a = (case peer_lookup m a of Some p \<Rightarrow> if p_last_update p < before then None else Some p | None \<Rightarrow> None)"
proof -
  have inv: "hm_inv m" using assms(1) by (simp add: peers_inv_def hm_ok_def)
  from it_loop_fold [OF inv _ assms(2) [unfolded awdl_peers_remove_def]]
  have m': "hm_inv m'" "hm_key_size m' = hm_key_size m" "hm_table_size m' = hm_table_size m"
    and fold: "it_fold (peers_remove_body before cb) (hm_entries m) [] = (hm_entries m', called)"
    by (auto simp: hashmap_it_new_def hm_entries_def)
  from fold have ents: "hm_entries m' = map (\<lambda>p. (peer_key (p_addr p), Some p)) (filter (\<lambda>p. \<not> p_last_update p < before) (peers_list m))"
    and called: "called = filter (\<lambda>p. p_last_update p < before \<and> p_is_valid p \<and> cb) (peers_list m)"
    by (simp_all add: peers_list_entries [OF assms(1)] it_fold_remove)
  show "called = filter (\<lambda>p. p_last_update p < before \<and> p_is_valid p \<and> cb) (peers_list m)" by (rule called)
  show "peers_list m' = filter (\<lambda>p. \<not> p_last_update p < before) (peers_list m)"
    by (simp add: peers_list_def [of m'] ents comp_def)
  have filt: "hm_entries m' = filter (\<lambda>(k, v). \<not> p_last_update (the v) < before) (hm_entries m)"
    by (simp add: ents peers_list_entries [OF assms(1)] filter_map comp_def)
  have d: "distinct (map fst (hm_entries m))" using inv by (simp add: hm_inv_def)
  have map': "hm_map m' k = (case hm_map m k of Some v \<Rightarrow> if p_last_update (the v) < before then None else Some v | None \<Rightarrow> None)" for k
    unfolding hm_map_def filt by (subst map_of_filter_distinct [OF d]) (auto split: option.split)
  show inv': "peers_inv L m'"
  proof (rule peers_inv_sub(1) [OF assms(1) m'(1) _ m'(2)])
    show "hm_map m' \<subseteq>\<^sub>m hm_map m"
      unfolding map_le_def by (auto simp: map' dom_def split: option.splits if_splits)
  qed (use assms(1) m' in \<open>simp_all add: peers_inv_def\<close>)
  show "peer_lookup m' a = (case peer_lookup m a of Some p \<Rightarrow> if p_last_update p < before then None else Some p | None \<Rightarrow> None)"
    using assms(1)
    by (cases "hm_map m (peer_key a)") (auto simp: peer_lookup_map [OF inv'] peer_lookup_map [OF assms(1)] map' peers_inv_def hm_ok_def
      split: option.splits)
qed

lemma peers_length_card:
  assumes "peers_inv L m"
  shows "awdl_peers_length m = int (card (dom (peer_lookup m)))"
proof -
  have "dom (peer_lookup m) = set (map p_addr (peers_list m))"
  proof (intro set_eqI iffI)
    fix a
    assume "a \<in> dom (peer_lookup m)"
    then obtain p where "peer_lookup m a = Some p" by auto
    moreover from this have "p_addr p = a" using peer_lookup_ok [OF assms] by blast
    ultimately show "a \<in> set (map p_addr (peers_list m))"
      using peers_list_set [OF assms, of p] by auto
  next
    fix a
    assume "a \<in> set (map p_addr (peers_list m))"
    then show "a \<in> dom (peer_lookup m)" using peers_list_set [OF assms] by auto
  qed
  then have "card (dom (peer_lookup m)) = length (peers_list m)"
    using distinct_card [OF peers_list_distinct [OF assms]] by simp
  then show ?thesis
    using assms by (simp add: awdl_peers_length_def hashmap_length_def peers_list_def peers_inv_def hm_ok_def hm_inv_def)
qed

lemma peers_init_inv:
  assumes "awdl_peers_init mem = Some m" and "INITIAL_SIZE \<le> L"
  shows "peers_inv L m" and "peer_lookup m = Map.empty"
proof -
  note new = hashmap_new_ok [OF assms(1) [unfolded awdl_peers_init_def]]
  show inv: "peers_inv L m" using new assms(2) by (simp add: peers_inv_def)
  show "peer_lookup m = Map.empty" using new by (simp add: fun_eq_iff peer_lookup_map [OF inv])
qed

section \<open>Properties\<close>

text \<open>A junk record, an address and an empty table for the witnesses.\<close>

definition sample_addr :: ether_addr where
  "sample_addr = EtherAddr 2 0 0 0 0 1"

definition sample_junk :: awdl_peer where
  "sample_junk = \<lparr>p_addr = sample_addr, p_last_update = 99,
     p_election = \<lparr>el_master_addr = sample_addr, el_sync_addr = sample_addr, el_self_addr = sample_addr, el_height = 7,
       el_master_metric = 1, el_self_metric = 2, el_master_counter = 3, el_self_counter = 4\<rparr>,
     p_sequence = [], p_sync_offset = 5, p_name = replicate 65 0xff, p_country_code = [1, 2, 3],
     p_infra_addr = sample_addr, p_version = 9, p_devclass = 9, p_supports_v2 = True, p_sent_mif = True, p_is_valid = True\<rparr>"

definition sample_peers :: awdl_peers where
  "sample_peers = \<lparr>hm_table_size = 256, hm_size = 0, hm_key_size = 6, hm_data = replicate 256 blank,
     hm_seed = replicate 16 0\<rparr>"

definition sample_mem :: "nat \<Rightarrow> bool" where
  "sample_mem n \<longleftrightarrow> n \<le> 256"

lemma sample_peers_ok:
  "peers_inv 256 sample_peers" "peer_lookup sample_peers = Map.empty" "junk_ok (Some sample_junk)" "alloc_ok 256 sample_mem"
  using peers_init_inv [of "\<lambda>_. True" sample_peers 256]
  by (simp_all add: awdl_peers_init_def hashmap_new_def INITIAL_SIZE_def sample_peers_def junk_ok_def sample_junk_def
      HOST_NAME_LENGTH_MAX_def alloc_ok_def sample_mem_def INT_MAX_def)

text \<open>A table with one peer.\<close>

definition sample_peer_addr :: ether_addr where
  "sample_peer_addr = EtherAddr 2 0 0 0 0 2"

definition sample_table :: awdl_peers where
  "sample_table =
     (case awdl_peer_add sample_mem (Some sample_junk) sample_peers sample_peer_addr 42 False of
        Some (_, m, _) \<Rightarrow> m | None \<Rightarrow> sample_peers)"

lemma sample_put: "\<exists>m. hashmap_put HM_FUEL mem sample_peers k v = Some (MAP_OK, m)"
proof -
  have chain: "MAX_CHAIN_LENGTH = Suc 7" by (simp add: MAX_CHAIN_LENGTH_def)
  have i: "hashmap_hash_int sample_peers k < 256" by (simp add: hashmap_hash_int_def sample_peers_def)
  then have free: "\<not> e_in_use (hm_data sample_peers ! hashmap_hash_int sample_peers k)"
    by (simp add: sample_peers_def blank_def)
  have "\<not> hm_size sample_peers \<ge> int (hm_table_size sample_peers div 2)" by (simp add: sample_peers_def)
  moreover have "hash_probe sample_peers k MAX_CHAIN_LENGTH (hashmap_hash_int sample_peers k) = Some (hashmap_hash_int sample_peers k)"
    by (simp only: chain hash_probe.simps free not_False_eq_True if_True)
  ultimately have "hashmap_hash sample_peers k = Some (hashmap_hash_int sample_peers k)"
    by (simp only: hashmap_hash_def if_False)
  then show ?thesis by (simp add: hashmap_put.simps)
qed

lemma sample_add: "awdl_peer_add sample_mem (Some sample_junk) sample_peers a now cb \<noteq> Some (PEERS_INTERNAL, m, called)"
proof -
  obtain n where new: "awdl_peer_new (Some sample_junk) a = Some n" using peer_new_ok [OF sample_peers_ok(3)] by blast
  show ?thesis
    using sample_put [of sample_mem "peer_key a" "Some (n\<lparr>p_last_update := now\<rparr>)"] peer_new_fields(1) [OF new]
    by (auto simp: awdl_peer_add_def hashmap_get_peer [OF sample_peers_ok(1)] sample_peers_ok(2) new peer_add_out_def Let_def split: if_splits)
qed

lemma sample_table_ok:
  "peers_inv 256 sample_table"
  "peer_lookup sample_table a = (if a = sample_peer_addr then Some (peer_refresh 42 (the (awdl_peer_new (Some sample_junk) sample_peer_addr))) else None)"
proof -
  have none: "peer_lookup sample_peers a = None" for a by (simp add: sample_peers_ok(2))
  let ?p = "peer_refresh 42 (the (awdl_peer_new (Some sample_junk) sample_peer_addr))"
  have "peers_inv 256 sample_table \<and> (\<forall>a. peer_lookup sample_table a = (if a = sample_peer_addr then Some ?p else None))"
  proof (rule peer_add_total [OF sample_peers_ok(4,1,3), of sample_peer_addr 42 False], goal_cases)
    case (1 m called)
    then show ?case by (simp add: sample_table_def none peer_known_def)
  next
    case (2 m)
    with sample_add show ?case by blast
  qed
  then show "peers_inv 256 sample_table"
    "peer_lookup sample_table a = (if a = sample_peer_addr then Some ?p else None)" by simp_all
qed

text \<open>A failure is only reported when \<^verbatim>\<open>calloc\<close> could not double the table that is left.\<close>

lemma peer_add_internal:
  assumes "awdl_peer_add mem junk m a now cb = Some (PEERS_INTERNAL, m', called)" and "alloc_ok L mem" and "peers_inv L m" and "junk_ok junk"
  shows "\<not> mem (2 * hm_table_size m')"
proof (cases "peer_lookup m a")
  case (Some p)
  with assms(1,3) show ?thesis by (auto simp: awdl_peer_add_def hashmap_get_peer peer_add_out_def Let_def split: if_splits)
next
  case None
  obtain n where new: "awdl_peer_new junk a = Some n" and ok: "peer_ok n" using peer_new_ok [OF assms(4)] by blast
  note n = peer_new_fields [OF new]
  let ?put = "hashmap_put HM_FUEL mem m (peer_key a) (Some (n\<lparr>p_last_update := now\<rparr>))"
  have "\<exists>m''. ?put = Some (MAP_OK, m'') \<or> ?put = Some (MAP_OMEM, m'')"
    by (rule peer_put [OF assms(2,3) None, of "n\<lparr>p_last_update := now\<rparr>"]) (use n ok in auto)
  moreover have "?put \<noteq> Some (MAP_OK, m'')" for m''
    using assms(1,3) None by (auto simp: awdl_peer_add_def hashmap_get_peer new n peer_add_out_def Let_def split: if_splits)
  ultimately have "?put = Some (MAP_OMEM, m')"
    using assms(1,3) None by (auto simp: awdl_peer_add_def hashmap_get_peer new n Let_def)
  then show ?thesis by (rule omem_calloc(1))
qed

text \<open>C24. Seeing a frame of a peer, with memory for a new record, always returns and keeps the table's invariant. Unless memory runs
  out, the address then maps to the known or a fresh record with the time of the frame, which
  is marked valid once it has sent a MIF, a version and a device class; every other address is
  mapped as before; the status tells whether the peer is new; and the callback is made exactly
  when the record turns valid. A failure is only reported when the table could not be doubled; then the peer was new and only old
  records remain.\<close>

theorem awdl_peer_add_correct:
  assumes "alloc_ok L mem" and "peers_inv L m" and "junk_ok junk"
  shows "\<exists>st m' called. awdl_peer_add mem junk m a now cb = Some (st, m', called) \<and> peers_inv L m' \<and>
    (if st = PEERS_INTERNAL
     then \<not> mem (2 * hm_table_size m') \<and> peer_lookup m a = None \<and> called = [] \<and> peer_lookup m' \<subseteq>\<^sub>m peer_lookup m
     else (let p = (case peer_lookup m a of Some p \<Rightarrow> p | None \<Rightarrow> the (awdl_peer_new junk a));
               p' = p\<lparr>p_last_update := now, p_is_valid := p_is_valid p \<or> awdl_peer_is_valid p\<rparr> in
           st = (if peer_lookup m a = None then PEERS_OK else PEERS_UPDATE) \<and>
           peer_lookup m' = (peer_lookup m)(a \<mapsto> p') \<and>
           called = (if cb \<and> \<not> p_is_valid p \<and> awdl_peer_is_valid p then [p'] else [])))"
proof (rule peer_add_total [OF assms, of a now cb], goal_cases)
  case (1 m' called)
  then show ?case
    by (auto simp: fun_eq_iff Let_def peer_known_def peer_refresh_def peer_turns_valid_def split: if_splits)
next
  case (2 m')
  with peer_add_internal [OF 2(1) assms] show ?case by auto
qed

text \<open>For a known peer and for a new one.\<close>

theorem awdl_peer_add_correct_witness:
  "\<exists>m m' called. awdl_peer_add sample_mem (Some sample_junk) sample_table sample_peer_addr 50 True = Some (PEERS_UPDATE, m, []) \<and>
     (peer_lookup m sample_peer_addr = Some (peer_refresh 50 (the (peer_lookup sample_table sample_peer_addr)))) \<and>
     awdl_peer_add sample_mem (Some sample_junk) sample_peers sample_addr 42 True = Some (PEERS_OK, m', called) \<and>
     dom (peer_lookup m') = {sample_addr}"
proof -
  have "\<not> p_is_valid (the (peer_lookup sample_table sample_peer_addr)) \<and> \<not> awdl_peer_is_valid (the (peer_lookup sample_table sample_peer_addr))"
    using peer_new_fields [of "Some sample_junk" sample_peer_addr "the (awdl_peer_new (Some sample_junk) sample_peer_addr)"]
    by (simp add: sample_table_ok(2) peer_refresh_def awdl_peer_new_def awdl_peer_is_valid_def)
  with awdl_peer_add_correct [OF sample_peers_ok(4) sample_table_ok(1) sample_peers_ok(3), of sample_peer_addr 50 True]
  have 1: "\<exists>m. awdl_peer_add sample_mem (Some sample_junk) sample_table sample_peer_addr 50 True = Some (PEERS_UPDATE, m, []) \<and>
      peer_lookup m sample_peer_addr = Some (peer_refresh 50 (the (peer_lookup sample_table sample_peer_addr)))"
    by (auto simp: sample_table_ok(2) peer_refresh_def Let_def split: if_splits)
  from sample_add [of sample_addr 42 True] awdl_peer_add_correct [OF sample_peers_ok(4,1,3), of sample_addr 42 True]
  have 2: "\<exists>m' called. awdl_peer_add sample_mem (Some sample_junk) sample_peers sample_addr 42 True = Some (PEERS_OK, m', called) \<and>
      dom (peer_lookup m') = {sample_addr}"
    by (auto simp: sample_peers_ok(2) Let_def split: if_splits)
  from 1 2 show ?thesis by blast
qed

text \<open>Without memory for the record of a new peer, the frame of the peer leads to a write through a null pointer.\<close>

theorem awdl_peer_add_no_memory:
  assumes "peers_inv L m"
  shows "awdl_peer_add mem None m a now cb = None \<longleftrightarrow> peer_lookup m a = None"
  using assms by (auto simp: awdl_peer_add_def hashmap_get_peer awdl_peer_new_def Let_def split: option.split)

text \<open>The periodic clean-up removes exactly the peers last seen before the given time, keeps every
  other record unchanged, keeps the invariant, and calls the removal callback exactly once for
  each removed peer that was valid.\<close>

theorem awdl_peers_remove_correct:
  assumes "peers_inv L m" and "awdl_peers_remove m before cb = (m', called)"
  shows "peers_inv L m' \<and>
    (\<forall>a. peer_lookup m' a = (case peer_lookup m a of
           Some p \<Rightarrow> if p_last_update p < before then None else Some p | None \<Rightarrow> None)) \<and>
    set called = {p. cb \<and> p_is_valid p \<and> p_last_update p < before \<and> peer_lookup m (p_addr p) = Some p} \<and>
    distinct (map p_addr called)"
proof -
  note r = peers_remove_spec [OF assms]
  have "set called = {p. cb \<and> p_is_valid p \<and> p_last_update p < before \<and> peer_lookup m (p_addr p) = Some p}"
    using peers_list_set [OF assms(1)] by (auto simp: r(3))
  moreover have "distinct (map p_addr called)"
    using peers_list_distinct [OF assms(1)] unfolding r(3) by (rule distinct_map_filter)
  ultimately show ?thesis using r(1,4) by simp
qed

theorem awdl_peers_remove_correct_witness:
  "\<exists>m'. awdl_peers_remove sample_peers 10 True = (m', []) \<and> peer_lookup m' = Map.empty"
proof -
  obtain m' called where r: "awdl_peers_remove sample_peers 10 True = (m', called)" by fastforce
  from awdl_peers_remove_correct [OF sample_peers_ok(1) r] show ?thesis
    by (auto simp: sample_peers_ok(2) r fun_eq_iff)
qed

text \<open>Removing a peer removes that peer only, calls back exactly when the peer was valid, and
  reports a missing peer; the length of the table is the number of peers in it.\<close>

theorem awdl_peer_remove_correct:
  assumes "peers_inv L m"
  shows "\<exists>m'. awdl_peer_remove m a cb =
      (case peer_lookup m a of
         None \<Rightarrow> (PEERS_MISSING, m', [])
       | Some p \<Rightarrow> (PEERS_OK, m', if p_is_valid p \<and> cb then [p] else [])) \<and>
    peers_inv L m' \<and> peer_lookup m' = (peer_lookup m)(a := None) \<and>
    awdl_peers_length m' = int (card (dom (peer_lookup m) - {a}))"
proof -
  define m' where "m' = (if peer_lookup m a = None then m else hm_delete m (peer_key a))"
  have inv: "peers_inv L m'" and look: "peer_lookup m' = (peer_lookup m)(a := None)"
    using assms peer_delete [OF assms, of a] by (auto simp: m'_def fun_eq_iff)
  moreover have "awdl_peers_length m' = int (card (dom (peer_lookup m) - {a}))"
    using peers_length_card [OF inv] by (simp add: look)
  moreover have "awdl_peer_remove m a cb =
      (case peer_lookup m a of
         None \<Rightarrow> (PEERS_MISSING, m', [])
       | Some p \<Rightarrow> (PEERS_OK, m', if p_is_valid p \<and> cb then [p] else []))"
    by (simp add: awdl_peer_remove_def hashmap_get_peer [OF assms] m'_def split: option.split)
  ultimately show ?thesis by blast
qed

theorem awdl_peer_remove_correct_witness:
  "\<exists>m'. awdl_peer_remove sample_peers sample_addr True = (PEERS_MISSING, m', []) \<and> awdl_peers_length m' = 0"
  using awdl_peer_remove_correct [OF sample_peers_ok(1), of sample_addr True] by (auto simp: sample_peers_ok(2))

end
