(* ===== verification/Election.thy ===== *)
theory Election
  imports Peers
begin

text \<open>
  Model of the election of \<^verbatim>\<open>src/src/election.c\<close>: a node walks its peer table and adopts the best
  synchronisation master. The pointer \<^verbatim>\<open>master_state\<close> is \<^term>\<open>None\<close> while it points to the node's own
  state. The locale \<open>ranking\<close> states what the comparison of candidates provides; the
  selection loop is analysed once for every such ranking, and the interpretation shows that the
  code's sequence of tests is one.
\<close>

section \<open>The code\<close>

text \<open>One round of the loop: the candidate is rejected or becomes the new \<^verbatim>\<open>master_state\<close>.\<close>

definition election_round ::
  "awdl_election_state \<Rightarrow> awdl_peer option \<Rightarrow> awdl_election_state option \<Rightarrow> bool \<times> awdl_election_state option" where
  "election_round state v master =
     (False,
      case v of
        None \<Rightarrow> master
      | Some peer \<Rightarrow>
          (let peer_state = p_election peer;
               master_state = (case master of Some s \<Rightarrow> s | None \<Rightarrow> state);
               cmp_metric = awdl_election_compare_master peer_state master_state in
           if \<not> p_is_valid peer then master
           else if el_height peer_state + 1 > AWDL_ELECTION_TREE_MAX_HEIGHT then master
           else if awdl_election_is_sync_master peer_state (el_self_addr state) then master
           else if cmp_metric < 0 then master
           else if cmp_metric = 0 \<and> el_height peer_state > el_height master_state then master
           else if cmp_metric = 0 \<and> el_height peer_state = el_height master_state \<and>
                   compare_ether_addr (el_self_addr peer_state) (el_self_addr master_state) \<le> 0 then master
           else Some peer_state))"

definition awdl_election_run :: "awdl_election_state \<Rightarrow> awdl_peers \<Rightarrow> awdl_election_state" where
  "awdl_election_run state0 peers =
     (let state = awdl_election_reset_self state0;
          master = snd (it_loop (election_round state) peers awdl_peers_it_new None) in
      case master of
        None \<Rightarrow> state
      | Some master_state \<Rightarrow>
          state\<lparr>el_master_addr := el_master_addr master_state,
                el_sync_addr := el_self_addr master_state,
                el_master_metric := el_master_metric master_state,
                el_master_counter := el_master_counter master_state,
                el_height := el_height master_state + 1\<rparr>)"

text \<open>Whether the run logs a new election tree.\<close>

definition election_tree_changed :: "awdl_election_state \<Rightarrow> awdl_election_state \<Rightarrow> bool" where
  "election_tree_changed old new \<longleftrightarrow>
     compare_ether_addr (el_master_addr old) (el_master_addr new) \<noteq> 0 \<or>
     compare_ether_addr (el_sync_addr old) (el_sync_addr new) \<noteq> 0"

section \<open>Selection by a ranking\<close>

fun pick :: "('a \<Rightarrow> 'a \<Rightarrow> bool) \<Rightarrow> 'a \<Rightarrow> 'a list \<Rightarrow> 'a" where
  "pick better cur [] = cur"
| "pick better cur (x # xs) = pick better (if better x cur then x else cur) xs"

text \<open>A strict weak order on candidates.\<close>

locale ranking =
  fixes better :: "'a \<Rightarrow> 'a \<Rightarrow> bool"
  assumes better_irrefl: "\<not> better x x"
    and better_trans: "better x y \<Longrightarrow> better y z \<Longrightarrow> better x z"
    and not_better_trans: "\<not> better x y \<Longrightarrow> \<not> better y z \<Longrightarrow> \<not> better x z"
begin

lemma better_asym: "better x y \<Longrightarrow> \<not> better y x"
  using better_trans better_irrefl by blast

lemma pick_in: "pick better cur xs \<in> insert cur (set xs)"
  by (induction xs arbitrary: cur) (auto split: if_splits)

lemma pick_not_worse: "\<not> better cur (pick better cur xs)"
proof (induction xs arbitrary: cur)
  case (Cons x xs)
  show ?case
  proof (cases "better x cur")
    case True
    with not_better_trans [OF better_asym [OF True] Cons.IH [of x]] show ?thesis by simp
  next
    case False
    with Cons.IH show ?thesis by simp
  qed
qed (simp add: better_irrefl)

lemma pick_best: "x \<in> insert cur (set xs) \<Longrightarrow> \<not> better x (pick better cur xs)"
proof (induction xs arbitrary: cur)
  case (Cons y ys)
  show ?case
  proof (cases "x \<in> set ys")
    case True
    with Cons.IH show ?thesis by simp
  next
    case False
    with Cons.prems have "x = cur \<or> x = y" by simp
    moreover have "\<not> better y (pick better (if better y cur then y else cur) ys)"
      using pick_not_worse [of y ys] not_better_trans [OF _ pick_not_worse [of cur ys]] by simp
    ultimately show ?thesis using pick_not_worse [of cur "y # ys"] by auto
  qed
qed (simp add: better_irrefl)

lemma pick_strict: "pick better cur xs = cur \<or> better (pick better cur xs) cur"
proof (induction xs arbitrary: cur)
  case (Cons x xs)
  show ?case
  proof (cases "better x cur")
    case True
    with Cons.IH [of x] better_trans [OF _ True] show ?thesis by (metis pick.simps(2))
  next
    case False
    with Cons.IH show ?thesis by simp
  qed
qed simp

lemma pick_order_irrelevant:
  assumes "set xs = set ys"
    and "\<And>x y. x \<in> set xs \<Longrightarrow> y \<in> set xs \<Longrightarrow> x \<noteq> y \<Longrightarrow> better x y \<or> better y x"
  shows "pick better cur xs = pick better cur ys"
proof -
  let ?p = "pick better cur xs" and ?q = "pick better cur ys"
  have in_both: "?p \<in> insert cur (set xs)" "?q \<in> insert cur (set xs)"
    using pick_in [of cur xs] pick_in [of cur ys] assms(1) by simp_all
  then have no: "\<not> better ?p ?q" "\<not> better ?q ?p"
    using pick_best [of ?p cur ys] pick_best [of ?q cur xs] assms(1) by simp_all
  show ?thesis
  proof (cases "?p = cur \<or> ?q = cur")
    case True
    with no pick_strict [of cur xs] pick_strict [of cur ys] show ?thesis by auto
  next
    case False
    with in_both no assms(2) [of ?p ?q] show ?thesis by blast
  qed
qed

end

section \<open>The ranking of election states\<close>

text \<open>Higher counter, then higher metric, then lower height, then higher address.\<close>

definition outranks :: "awdl_election_state \<Rightarrow> awdl_election_state \<Rightarrow> bool" where
  "outranks a b \<longleftrightarrow>
     el_master_counter b < el_master_counter a \<or>
     el_master_counter a = el_master_counter b \<and>
       (el_master_metric b < el_master_metric a \<or>
        el_master_metric a = el_master_metric b \<and>
          (el_height a < el_height b \<or>
           el_height a = el_height b \<and> el_self_addr b < el_self_addr a))"

interpretation rank: ranking outranks
  by unfold_locales (auto simp: outranks_def)

text \<open>The peers a node may synchronise to.\<close>

definition eligible :: "ether_addr \<Rightarrow> awdl_peer \<Rightarrow> bool" where
  "eligible self p \<longleftrightarrow> p_is_valid p \<and> el_height (p_election p) + 1 \<le> AWDL_ELECTION_TREE_MAX_HEIGHT \<and>
     el_sync_addr (p_election p) \<noteq> self"

definition candidates :: "awdl_election_state \<Rightarrow> awdl_peers \<Rightarrow> awdl_election_state list" where
  "candidates state peers = map p_election (filter (eligible (el_self_addr state)) (peers_list peers))"

definition adopt :: "awdl_election_state \<Rightarrow> awdl_election_state \<Rightarrow> awdl_election_state" where
  "adopt state master =
     state\<lparr>el_master_addr := el_master_addr master, el_sync_addr := el_self_addr master,
           el_master_metric := el_master_metric master, el_master_counter := el_master_counter master,
           el_height := el_height master + 1\<rparr>"

definition current :: "awdl_election_state \<Rightarrow> awdl_election_state option \<Rightarrow> awdl_election_state" where
  "current state master = (case master of Some s \<Rightarrow> s | None \<Rightarrow> state)"

lemma election_round_step:
  "snd (election_round state (Some p) master) =
   (if eligible (el_self_addr state) p \<and> outranks (p_election p) (current state master) then Some (p_election p) else master)"
  by (auto simp: election_round_def Let_def current_def [symmetric] eligible_def outranks_def compare_master_less
      compare_master_eq not_less)

lemma election_fold:
  "current state (foldl (\<lambda>s p. snd (election_round state (Some p) s)) m0 ps) =
   pick outranks (current state m0) (map p_election (filter (eligible (el_self_addr state)) ps))"
proof (induction ps arbitrary: m0)
  case (Cons p ps)
  have "current state (snd (election_round state (Some p) m0)) =
      (if eligible (el_self_addr state) p \<and> outranks (p_election p) (current state m0) then p_election p else current state m0)"
    unfolding election_round_step by (simp add: current_def)
  with Cons.IH [of "snd (election_round state (Some p) m0)"] show ?case by simp
qed simp

lemma election_fold_adopts:
  "m0 = None \<or> outranks (current state m0) state \<Longrightarrow>
   foldl (\<lambda>s p. snd (election_round state (Some p) s)) m0 ps = Some s \<Longrightarrow> outranks s state"
proof (induction ps arbitrary: m0)
  case (Cons p ps)
  have "m1 = None \<or> outranks (current state m1) state" if "m1 = snd (election_round state (Some p) m0)" for m1
    using Cons.prems(1) rank.better_trans [of "p_election p" "current state m0" state]
    unfolding that election_round_step by (auto simp: current_def split: if_splits)
  with Cons.IH Cons.prems(2) show ?case by simp
qed (auto simp: current_def)

lemma foldl_peers:
  assumes "peers_inv L m"
  shows "foldl (\<lambda>s e. f (snd e) s) s0 (hm_entries m) = foldl (\<lambda>s p. f (Some p) s) s0 (peers_list m)"
proof -
  have "foldl (\<lambda>s e. f (snd e) s) s0 (map (\<lambda>p. (peer_key (p_addr p), Some p)) ps) = foldl (\<lambda>s p. f (Some p) s) s0 ps" for ps
    by (induction ps arbitrary: s0) simp_all
  then show ?thesis by (simp add: peers_list_entries [OF assms])
qed

lemma election_run_pick:
  assumes "peers_inv L m"
  shows "awdl_election_run state0 m =
    (let state = awdl_election_reset_self state0; best = pick outranks state (candidates state m) in
     if best = state then state else adopt state best)"
proof -
  define state where "state = awdl_election_reset_self state0"
  define master where "master = foldl (\<lambda>s p. snd (election_round state (Some p) s)) None (peers_list m)"
  have inv: "hm_inv m" using assms by (simp add: peers_inv_def hm_ok_def)
  have "snd (it_loop (election_round state) m awdl_peers_it_new None) = master"
    unfolding awdl_peers_it_new_def master_def
    by (subst it_loop_read [OF inv])
      (simp add: election_round_def, rule foldl_peers [OF assms, where f = "\<lambda>v s. snd (election_round state v s)"])
  then have run: "awdl_election_run state0 m = (case master of None \<Rightarrow> state | Some s \<Rightarrow> adopt state s)"
    by (simp add: awdl_election_run_def state_def adopt_def Let_def split: option.split)
  have best: "current state master = pick outranks state (candidates state m)"
    unfolding master_def election_fold by (simp add: candidates_def current_def)
  show ?thesis
  proof (cases master)
    case None
    with best run show ?thesis by (simp add: state_def [symmetric] current_def Let_def)
  next
    case (Some s)
    then have "outranks s state" using election_fold_adopts [of None state] by (simp add: master_def)
    then have "s \<noteq> state" using rank.better_irrefl by blast
    with Some best run show ?thesis by (simp add: state_def [symmetric] current_def Let_def)
  qed
qed

lemma candidates_total:
  assumes "peers_inv L m" and "x \<in> set (candidates state m)" and "y \<in> set (candidates state m)" and "x \<noteq> y"
  shows "outranks x y \<or> outranks y x"
proof -
  obtain p q where p: "p \<in> set (peers_list m)" "x = p_election p" and q: "q \<in> set (peers_list m)" "y = p_election q"
    using assms(2,3) by (auto simp: candidates_def)
  then have pq: "peer_lookup m (p_addr p) = Some p" "peer_lookup m (p_addr q) = Some q"
    using peers_list_set [OF assms(1), of p] peers_list_set [OF assms(1), of q] by blast+
  then have "p_addr p \<noteq> p_addr q" using assms(4) p(2) q(2) by (metis option.inject)
  moreover have "el_self_addr x = p_addr p" "el_self_addr y = p_addr q"
    using peer_lookup_ok [OF assms(1) pq(1)] peer_lookup_ok [OF assms(1) pq(2)] p(2) q(2) by (simp_all add: peer_ok_def)
  ultimately show ?thesis by (auto simp: outranks_def)
qed

section \<open>Properties\<close>

text \<open>C16. The election chooses optimally: there is a winner among the node itself and the eligible
  peers (valid, not too deep, not synchronised to this node) that no candidate outranks in the
  order of counter, metric, height and address; if it is the node itself the node becomes its own
  master at height zero, otherwise it synchronises to that peer, one level below it.\<close>

theorem awdl_election_run_optimal:
  assumes "peers_inv L m"
  shows "\<exists>best. let own = awdl_election_reset_self state0;
      cands = {p_election p |p. peer_lookup m (p_addr p) = Some p \<and> p_is_valid p \<and>
        el_height (p_election p) + 1 \<le> 10 \<and> el_sync_addr (p_election p) \<noteq> el_self_addr state0} in
    best \<in> insert own cands \<and> (\<forall>c \<in> insert own cands. \<not> outranks c best) \<and>
    awdl_election_run state0 m =
      (if best = own then own
       else own\<lparr>el_master_addr := el_master_addr best, el_sync_addr := el_self_addr best,
                el_master_metric := el_master_metric best, el_master_counter := el_master_counter best,
                el_height := el_height best + 1\<rparr>)"
proof -
  let ?own = "awdl_election_reset_self state0"
  let ?best = "pick outranks ?own (candidates ?own m)"
  have "el_self_addr ?own = el_self_addr state0" by (simp add: awdl_election_reset_self_def)
  then have set: "set (candidates ?own m) = {p_election p |p. peer_lookup m (p_addr p) = Some p \<and> p_is_valid p \<and>
        el_height (p_election p) + 1 \<le> 10 \<and> el_sync_addr (p_election p) \<noteq> el_self_addr state0}"
    by (auto simp: candidates_def eligible_def peers_list_set [OF assms] AWDL_ELECTION_TREE_MAX_HEIGHT_def)
  show ?thesis
    using rank.pick_in [of ?own "candidates ?own m"] rank.pick_best [of _ ?own "candidates ?own m"]
      election_run_pick [OF assms, of state0]
    unfolding Let_def set adopt_def by (intro exI [of _ ?best]) simp
qed

definition sample_own :: awdl_election_state where
  "sample_own = awdl_election_state_init (p_election sample_junk) (EtherAddr 2 0 0 0 0 9)"

theorem awdl_election_run_optimal_witness:
  "awdl_election_run sample_own sample_peers = awdl_election_reset_self sample_own"
  using awdl_election_run_optimal [OF sample_peers_ok(1), of sample_own] by (simp add: sample_peers_ok(2) Let_def)

text \<open>C27. The result of the election does not depend on the order in which the hash table lists the
  peers, and so not on the history of the table: two tables that map the same addresses to
  the same peers give the same result.\<close>

theorem awdl_election_run_order_independent:
  assumes "peers_inv L m" and "peers_inv L' m'" and "peer_lookup m = peer_lookup m'"
  shows "awdl_election_run state m = awdl_election_run state m'"
proof -
  have "set (candidates s m) = set (candidates s m')" for s
    by (auto simp: candidates_def peers_list_set [OF assms(1)] peers_list_set [OF assms(2)] assms(3))
  then have "pick outranks s (candidates s m) = pick outranks s (candidates s m')" for s
    by (rule rank.pick_order_irrelevant) (rule candidates_total [OF assms(1)])
  then show ?thesis by (simp add: election_run_pick [OF assms(1)] election_run_pick [OF assms(2)] Let_def)
qed

theorem awdl_election_run_order_independent_witness:
  "awdl_election_run sample_own sample_peers =
   awdl_election_run sample_own (sample_peers\<lparr>hm_seed := replicate 16 1\<rparr>)"
proof (rule awdl_election_run_order_independent)
  let ?m = "sample_peers\<lparr>hm_seed := replicate 16 1\<rparr> :: awdl_peers"
  have ents: "hm_entries ?m = []"
    by (simp add: hm_entries_def sample_peers_def)
  then have inv: "hm_inv ?m" "hm_map ?m = Map.empty"
    by (auto simp: hm_inv_def hm_map_def elem_ok_def) (simp_all add: sample_peers_def)
  then show "peers_inv 256 ?m"
    by (auto simp: peers_inv_def hm_ok_def) (simp_all add: sample_peers_def INITIAL_SIZE_def)
  then show "peer_lookup sample_peers = peer_lookup ?m"
    using inv by (simp add: fun_eq_iff sample_peers_ok(2) peer_lookup_map)
  show "peers_inv 256 sample_peers" by (rule sample_peers_ok(1))
qed

text \<open>The synchronisation tree stays shallow: after every election the node's height is at most
  ten, its own counters and address are untouched, and its master's counter and metric are
  at least its own.\<close>

theorem awdl_election_run_bounds:
  assumes "peers_inv L m"
  shows "let s = awdl_election_run state m in
    el_height s \<le> 10 \<and> el_self_addr s = el_self_addr state \<and>
    el_self_metric s = el_self_metric state \<and> el_self_counter s = el_self_counter state \<and>
    (el_self_counter s < el_master_counter s \<or>
     el_self_counter s = el_master_counter s \<and> el_self_metric s \<le> el_master_metric s)"
proof -
  let ?own = "awdl_election_reset_self state"
  let ?best = "pick outranks ?own (candidates ?own m)"
  have own: "el_height ?own = 0" "el_self_addr ?own = el_self_addr state" "el_self_metric ?own = el_self_metric state"
    "el_self_counter ?own = el_self_counter state" "el_master_counter ?own = el_self_counter state"
    "el_master_metric ?own = el_self_metric state"
    by (simp_all add: awdl_election_reset_self_def)
  have best: "?best = ?own \<or> outranks ?best ?own" by (rule rank.pick_strict)
  have "?best = ?own \<or> el_height ?best + 1 \<le> 10"
    using rank.pick_in [of ?own "candidates ?own m"]
    by (auto simp: candidates_def eligible_def AWDL_ELECTION_TREE_MAX_HEIGHT_def)
  with best own show ?thesis
    by (auto simp: election_run_pick [OF assms] Let_def adopt_def outranks_def)
qed

theorem awdl_election_run_bounds_witness:
  "el_height (awdl_election_run sample_own sample_peers) \<le> 10"
  using awdl_election_run_bounds [OF sample_peers_ok(1), of sample_own] by (simp add: Let_def)

text \<open>C36. The height limit has a gap: a valid peer that announces the largest height passes the test
  because the sum wraps to zero, and the node that adopts it reports height zero although it is
  not its own master.\<close>

theorem awdl_election_height_wraps:
  assumes "p_is_valid p" and "el_height (p_election p) = 0xffffffff" and "el_sync_addr (p_election p) \<noteq> el_self_addr state"
    and "el_master_counter state < el_master_counter (p_election p)"
  shows "snd (election_round state (Some p) None) = Some (p_election p) \<and> el_height (adopt state (p_election p)) = 0"
  using assms by (simp add: election_round_step eligible_def outranks_def current_def adopt_def AWDL_ELECTION_TREE_MAX_HEIGHT_def)

theorem awdl_election_height_wraps_witness:
  "let p = sample_junk\<lparr>p_election := (p_election sample_junk)\<lparr>el_height := 0xffffffff\<rparr>\<rparr> in
   snd (election_round sample_own (Some p) None) = Some (p_election p) \<and> el_height (adopt sample_own (p_election p)) = 0"
  using awdl_election_height_wraps [of "sample_junk\<lparr>p_election := (p_election sample_junk)\<lparr>el_height := 0xffffffff\<rparr>\<rparr>" sample_own]
  by (simp add: sample_own_def sample_junk_def sample_addr_def)

text \<open>A cycle of two nodes is noticed only by the peer's synchronisation address: a better peer whose master is the node
  itself, but which is synchronised to a third one, is adopted, and the node then is below itself.\<close>

theorem awdl_election_run_cycle:
  assumes "peers_inv L m" and "peer_lookup m = [a \<mapsto> p]" and "p_is_valid p" and "el_height (p_election p) = 1"
    and "el_master_addr (p_election p) = el_self_addr state" and "el_sync_addr (p_election p) \<noteq> el_self_addr state"
    and "el_self_counter state < el_master_counter (p_election p)"
  shows "let s = awdl_election_run state m in el_master_addr s = el_self_addr s \<and> el_sync_addr s = a \<and> el_height s = 2"
proof -
  let ?own = "awdl_election_reset_self state"
  have look: "peer_lookup m b = Some q \<longleftrightarrow> b = a \<and> q = p" for b q by (auto simp: assms(2))
  have p: "p_addr p = a" "el_self_addr (p_election p) = a" using peer_lookup_ok [OF assms(1), of a p] by (auto simp: look peer_ok_def)
  have "set (peers_list m) = {p}" using peers_list_set [OF assms(1)] p(1) by (auto simp: look)
  moreover have "eligible (el_self_addr ?own) p"
    using assms(3,4,6) by (simp add: eligible_def awdl_election_reset_self_def AWDL_ELECTION_TREE_MAX_HEIGHT_def)
  ultimately have cands: "set (candidates ?own m) = {p_election p}" by (simp add: candidates_def)
  have better: "outranks (p_election p) ?own" using assms(7) by (simp add: outranks_def awdl_election_reset_self_def)
  then have "pick outranks ?own (candidates ?own m) = p_election p" "p_election p \<noteq> ?own"
    using rank.pick_in [of ?own "candidates ?own m"] rank.pick_best [of "p_election p" ?own "candidates ?own m"] cands rank.better_irrefl
    by auto
  then show ?thesis
    using assms(4,5) p by (simp add: election_run_pick [OF assms(1)] Let_def adopt_def awdl_election_reset_self_def)
qed

end
