(* ===== verification/Frame.thy ===== *)
theory Frame
  imports Prelude
begin

text \<open>
  Model of \<^verbatim>\<open>src/src/frame.h\<close>, \<^verbatim>\<open>src/src/frame.c\<close>, \<^verbatim>\<open>src/src/ieee80211.h\<close>,
  \<^verbatim>\<open>src/src/version.c\<close> and \<^verbatim>\<open>src/src/version.h\<close>: the frame formats. A packed struct is a
  record of the values its fields hold, and \<open><struct>_bytes\<close> is its layout in memory, with the
  byte order the senders store each field in. The enumeration of TLV types is a datatype with its
  codes; the switch statements over the wire value go through the partial inverse.
\<close>

section \<open>Constants\<close>

definition AWDL_LLC_PROTOCOL_ID :: u16 where
  "AWDL_LLC_PROTOCOL_ID = 0x0800"

text \<open>An organisation identifier is its three bytes.\<close>

definition AWDL_OUI :: "u8 list" where
  "AWDL_OUI = [0x00, 0x17, 0xf2]"

definition AWDL_BSSID :: ether_addr where
  "AWDL_BSSID = EtherAddr 0x00 0x25 0x00 0xff 0x94 0x73"

definition IEEE80211_VENDOR_SPECIFIC :: u8 where
  "IEEE80211_VENDOR_SPECIFIC = 127"

definition AWDL_TYPE :: u8 where
  "AWDL_TYPE = 8"

definition IEEE80211_FCTL_FTYPE :: u16 where
  "IEEE80211_FCTL_FTYPE = 0x000c"

definition IEEE80211_FCTL_STYPE :: u16 where
  "IEEE80211_FCTL_STYPE = 0x00f0"

definition IEEE80211_FTYPE_MGMT :: u16 where
  "IEEE80211_FTYPE_MGMT = 0x0000"

definition IEEE80211_FTYPE_DATA :: u16 where
  "IEEE80211_FTYPE_DATA = 0x0008"

definition IEEE80211_STYPE_ACTION :: u16 where
  "IEEE80211_STYPE_ACTION = 0x00d0"

definition IEEE80211_STYPE_DATA :: u16 where
  "IEEE80211_STYPE_DATA = 0x0000"

definition IEEE80211_STYPE_QOS_DATA :: u16 where
  "IEEE80211_STYPE_QOS_DATA = 0x0080"

definition IEEE80211_QOS_CTL_LEN :: int where
  "IEEE80211_QOS_CTL_LEN = 2"

definition IEEE80211_QOS_CTL_A_MSDU_PRESENT :: u16 where
  "IEEE80211_QOS_CTL_A_MSDU_PRESENT = 0x0080"

definition FCS_LEN :: int where
  "FCS_LEN = 4"

lemmas frame_consts =
  AWDL_LLC_PROTOCOL_ID_def AWDL_OUI_def AWDL_BSSID_def IEEE80211_VENDOR_SPECIFIC_def AWDL_TYPE_def
  IEEE80211_FCTL_FTYPE_def IEEE80211_FCTL_STYPE_def IEEE80211_FTYPE_MGMT_def IEEE80211_FTYPE_DATA_def
  IEEE80211_STYPE_ACTION_def IEEE80211_STYPE_DATA_def IEEE80211_STYPE_QOS_DATA_def
  IEEE80211_QOS_CTL_LEN_def IEEE80211_QOS_CTL_A_MSDU_PRESENT_def FCS_LEN_def

text \<open>Time units of 1024 microseconds; \<^verbatim>\<open>unsigned long\<close> has 64 bits.\<close>

definition ieee80211_tu_to_usec :: "u64 \<Rightarrow> u64" where
  "ieee80211_tu_to_usec tu = 1024 * tu"

definition ieee80211_usec_to_tu :: "u64 \<Rightarrow> u64" where
  "ieee80211_usec_to_tu usec = usec div 1024"

definition ieee80211_radiotap_type_to_mask :: "nat \<Rightarrow> int" where
  "ieee80211_radiotap_type_to_mask type = push_bit type 1"

definition ieee80211_radiotap_rate_to_val :: "int \<Rightarrow> int" where
  "ieee80211_radiotap_rate_to_val rate = 2 * rate"

section \<open>Version\<close>

text \<open>The shift of a negative major version is undefined; the callers pass constants.\<close>

definition awdl_version :: "int \<Rightarrow> int \<Rightarrow> u8" where
  "awdl_version major minor = word_of_int (push_bit 4 major AND 0xf0) OR word_of_int (minor AND 0x0f)"

definition awdl_version_major :: "u8 \<Rightarrow> int" where
  "awdl_version_major version = uint (drop_bit 4 version AND 0xf)"

definition awdl_version_minor :: "u8 \<Rightarrow> int" where
  "awdl_version_minor version = uint (version AND 0xf)"

definition AWDL_VERSION_COMPAT :: u8 where
  "AWDL_VERSION_COMPAT = awdl_version 1 0"

datatype awdl_devclass = AWDL_DEVCLASS_MACOS | AWDL_DEVCLASS_IOS | AWDL_DEVCLASS_TVOS

primrec awdl_devclass_code :: "awdl_devclass \<Rightarrow> u8" where
  "awdl_devclass_code AWDL_DEVCLASS_MACOS = 1"
| "awdl_devclass_code AWDL_DEVCLASS_IOS = 2"
| "awdl_devclass_code AWDL_DEVCLASS_TVOS = 8"

definition awdl_devclass_to_str :: "u8 \<Rightarrow> string" where
  "awdl_devclass_to_str devclass =
     (if devclass = awdl_devclass_code AWDL_DEVCLASS_MACOS then ''macOS''
      else if devclass = awdl_devclass_code AWDL_DEVCLASS_IOS then ''iOS''
      else if devclass = awdl_devclass_code AWDL_DEVCLASS_TVOS then ''tvOS''
      else ''Unknown'')"

section \<open>Action and TLV types\<close>

datatype awdl_action_type = AWDL_ACTION_PSF | AWDL_ACTION_MIF

primrec awdl_action_code :: "awdl_action_type \<Rightarrow> u8" where
  "awdl_action_code AWDL_ACTION_PSF = 0"
| "awdl_action_code AWDL_ACTION_MIF = 3"

definition awdl_frame_as_str :: "u8 \<Rightarrow> string" where
  "awdl_frame_as_str type =
     (if type = awdl_action_code AWDL_ACTION_PSF then ''PSF''
      else if type = awdl_action_code AWDL_ACTION_MIF then ''MIF'' else ''Unknown'')"

datatype awdl_tlvs =
  AWDL_SSTH_REQUEST_TLV
  | AWDL_SERVICE_REQUEST_TLV
  | AWDL_SERVICE_RESPONSE_TLV
  | AWDL_SYNCHRONIZATON_PARAMETERS_TLV
  | AWDL_ELECTION_PARAMETERS_TLV
  | AWDL_SERVICE_PARAMETERS_TLV
  | AWDL_ENHANCED_DATA_RATE_CAPABILITIES_TLV
  | AWDL_ENHANCED_DATA_RATE_OPERATION_TLV
  | AWDL_INFRA_TLV
  | AWDL_INVITE_TLV
  | AWDL_DBG_STRING_TLV
  | AWDL_DATA_PATH_STATE_TLV
  | AWDL_ENCAPSULATED_IP_TLV
  | AWDL_DATAPATH_DEBUG_PACKET_LIVE_TLV
  | AWDL_DATAPATH_DEBUG_AF_LIVE_TLV
  | AWDL_ARPA_TLV
  | AWDL_IEEE80211_CNTNR_TLV
  | AWDL_CHAN_SEQ_TLV
  | AWDL_SYNCTREE_TLV
  | AWDL_VERSION_TLV
  | AWDL_BLOOM_FILTER_TLV
  | AWDL_NAN_SYNC_TLV
  | AWDL_ELECTION_PARAMETERS_V2_TLV

fun awdl_tlv_code :: "awdl_tlvs \<Rightarrow> u8" where
  "awdl_tlv_code AWDL_SSTH_REQUEST_TLV = 0"
| "awdl_tlv_code AWDL_SERVICE_REQUEST_TLV = 1"
| "awdl_tlv_code AWDL_SERVICE_RESPONSE_TLV = 2"
| "awdl_tlv_code AWDL_SYNCHRONIZATON_PARAMETERS_TLV = 4"
| "awdl_tlv_code AWDL_ELECTION_PARAMETERS_TLV = 5"
| "awdl_tlv_code AWDL_SERVICE_PARAMETERS_TLV = 6"
| "awdl_tlv_code AWDL_ENHANCED_DATA_RATE_CAPABILITIES_TLV = 7"
| "awdl_tlv_code AWDL_ENHANCED_DATA_RATE_OPERATION_TLV = 8"
| "awdl_tlv_code AWDL_INFRA_TLV = 9"
| "awdl_tlv_code AWDL_INVITE_TLV = 10"
| "awdl_tlv_code AWDL_DBG_STRING_TLV = 11"
| "awdl_tlv_code AWDL_DATA_PATH_STATE_TLV = 12"
| "awdl_tlv_code AWDL_ENCAPSULATED_IP_TLV = 13"
| "awdl_tlv_code AWDL_DATAPATH_DEBUG_PACKET_LIVE_TLV = 14"
| "awdl_tlv_code AWDL_DATAPATH_DEBUG_AF_LIVE_TLV = 15"
| "awdl_tlv_code AWDL_ARPA_TLV = 16"
| "awdl_tlv_code AWDL_IEEE80211_CNTNR_TLV = 17"
| "awdl_tlv_code AWDL_CHAN_SEQ_TLV = 18"
| "awdl_tlv_code AWDL_SYNCTREE_TLV = 20"
| "awdl_tlv_code AWDL_VERSION_TLV = 21"
| "awdl_tlv_code AWDL_BLOOM_FILTER_TLV = 22"
| "awdl_tlv_code AWDL_NAN_SYNC_TLV = 23"
| "awdl_tlv_code AWDL_ELECTION_PARAMETERS_V2_TLV = 24"

definition awdl_tlvs_all :: "awdl_tlvs list" where
  "awdl_tlvs_all =
    [AWDL_SSTH_REQUEST_TLV,
     AWDL_SERVICE_REQUEST_TLV,
     AWDL_SERVICE_RESPONSE_TLV,
     AWDL_SYNCHRONIZATON_PARAMETERS_TLV,
     AWDL_ELECTION_PARAMETERS_TLV,
     AWDL_SERVICE_PARAMETERS_TLV,
     AWDL_ENHANCED_DATA_RATE_CAPABILITIES_TLV,
     AWDL_ENHANCED_DATA_RATE_OPERATION_TLV,
     AWDL_INFRA_TLV,
     AWDL_INVITE_TLV,
     AWDL_DBG_STRING_TLV,
     AWDL_DATA_PATH_STATE_TLV,
     AWDL_ENCAPSULATED_IP_TLV,
     AWDL_DATAPATH_DEBUG_PACKET_LIVE_TLV,
     AWDL_DATAPATH_DEBUG_AF_LIVE_TLV,
     AWDL_ARPA_TLV,
     AWDL_IEEE80211_CNTNR_TLV,
     AWDL_CHAN_SEQ_TLV,
     AWDL_SYNCTREE_TLV,
     AWDL_VERSION_TLV,
     AWDL_BLOOM_FILTER_TLV,
     AWDL_NAN_SYNC_TLV,
     AWDL_ELECTION_PARAMETERS_V2_TLV]"

text \<open>The label of a switch over a wire value that the value matches.\<close>

definition awdl_tlv_of :: "u8 \<Rightarrow> awdl_tlvs option" where
  "awdl_tlv_of type = find (\<lambda>t. awdl_tlv_code t = type) awdl_tlvs_all"

definition awdl_tlv_as_str :: "u8 \<Rightarrow> string" where
  "awdl_tlv_as_str type =
     (case awdl_tlv_of type of
        None \<Rightarrow> ''Unknown''
      | Some AWDL_SSTH_REQUEST_TLV \<Rightarrow> ''SSTH Request''
      | Some AWDL_SERVICE_REQUEST_TLV \<Rightarrow> ''Service Request''
      | Some AWDL_SERVICE_RESPONSE_TLV \<Rightarrow> ''Service Response''
      | Some AWDL_SYNCHRONIZATON_PARAMETERS_TLV \<Rightarrow> ''Synchronization Parameters''
      | Some AWDL_ELECTION_PARAMETERS_TLV \<Rightarrow> ''Election Parameters''
      | Some AWDL_SERVICE_PARAMETERS_TLV \<Rightarrow> ''Service Parameters''
      | Some AWDL_ENHANCED_DATA_RATE_CAPABILITIES_TLV \<Rightarrow> ''HT Capabilities''
      | Some AWDL_ENHANCED_DATA_RATE_OPERATION_TLV \<Rightarrow> ''HT Operation''
      | Some AWDL_INFRA_TLV \<Rightarrow> ''Infra''
      | Some AWDL_INVITE_TLV \<Rightarrow> ''Invite''
      | Some AWDL_DBG_STRING_TLV \<Rightarrow> ''Debug String''
      | Some AWDL_DATA_PATH_STATE_TLV \<Rightarrow> ''Data Path State''
      | Some AWDL_ENCAPSULATED_IP_TLV \<Rightarrow> ''Encapsulated IP''
      | Some AWDL_DATAPATH_DEBUG_PACKET_LIVE_TLV \<Rightarrow> ''Datapath Debug Packet Live''
      | Some AWDL_DATAPATH_DEBUG_AF_LIVE_TLV \<Rightarrow> ''Datapath Debug AF Live''
      | Some AWDL_ARPA_TLV \<Rightarrow> ''Arpa''
      | Some AWDL_IEEE80211_CNTNR_TLV \<Rightarrow> ''VHT Capabilities''
      | Some AWDL_CHAN_SEQ_TLV \<Rightarrow> ''Channel Sequence''
      | Some AWDL_SYNCTREE_TLV \<Rightarrow> ''Synchronization Tree''
      | Some AWDL_VERSION_TLV \<Rightarrow> ''Version''
      | Some AWDL_BLOOM_FILTER_TLV \<Rightarrow> ''Bloom Filter''
      | Some AWDL_NAN_SYNC_TLV \<Rightarrow> ''NAN Sync''
      | Some AWDL_ELECTION_PARAMETERS_V2_TLV \<Rightarrow> ''Election Parameters v2'')"

lemma awdl_tlv_of_code [simp]: "awdl_tlv_of (awdl_tlv_code t) = Some t"
  by (cases t) (simp_all add: awdl_tlv_of_def awdl_tlvs_all_def)

lemma awdl_tlv_of_SomeD: "awdl_tlv_of c = Some t \<Longrightarrow> c = awdl_tlv_code t"
  by (auto simp: awdl_tlv_of_def find_Some_iff)

section \<open>Packed structs\<close>

text \<open>Arrays of bytes inside a struct are lists of the length the struct declares.\<close>

record awdl_data =
  d_head :: u16
  d_seq :: u16
  d_pad :: u16
  d_ethertype :: u16

definition awdl_data_bytes :: "awdl_data \<Rightarrow> u8 list" where
  "awdl_data_bytes s =
     le16_bytes (d_head s) @ le16_bytes (d_seq s) @ le16_bytes (d_pad s) @
     be16_bytes (d_ethertype s)"

record awdl_action =
  af_category :: u8
  af_oui :: "u8 list"
  af_type :: u8
  af_version :: u8
  af_subtype :: u8
  af_reserved :: u8
  af_phy_tx :: u32
  af_target_tx :: u32

definition awdl_action_bytes :: "awdl_action \<Rightarrow> u8 list" where
  "awdl_action_bytes s =
     [af_category s] @ af_oui s @ [af_type s] @ [af_version s] @ [af_subtype s] @ [af_reserved s] @
     le32_bytes (af_phy_tx s) @ le32_bytes (af_target_tx s)"

record awdl_chanseq =
  cs_count :: u8
  cs_encoding :: u8
  cs_duplicate_count :: u8
  cs_step_count :: u8
  cs_fill_channel :: u16

definition awdl_chanseq_bytes :: "awdl_chanseq \<Rightarrow> u8 list" where
  "awdl_chanseq_bytes s =
     [cs_count s] @ [cs_encoding s] @ [cs_duplicate_count s] @ [cs_step_count s] @
     le16_bytes (cs_fill_channel s)"

text \<open>The header all TLVs begin with.\<close>

record tl =
  tl_type :: u8
  tl_length :: u16

definition tl_bytes :: "tl \<Rightarrow> u8 list" where
  "tl_bytes s = [tl_type s] @ le16_bytes (tl_length s)"

text \<open>The tree lists addresses behind its header; the daemon neither sends nor reads this TLV.\<close>

record awdl_sync_tree_tlv =
  tr_type :: u8
  tr_length :: u16
  tr_tree :: "ether_addr list"

definition awdl_sync_tree_tlv_bytes :: "awdl_sync_tree_tlv \<Rightarrow> u8 list" where
  "awdl_sync_tree_tlv_bytes s =
     [tr_type s] @ le16_bytes (tr_length s) @ concat (map ether_bytes (tr_tree s))"

record awdl_sync_params_tlv =
  sp_type :: u8
  sp_length :: u16
  sp_next_aw_channel :: u8
  sp_tx_down_counter :: u16
  sp_master_channel :: u8
  sp_guard_time :: u8
  sp_aw_period :: u16
  sp_af_period :: u16
  sp_flags :: u16
  sp_aw_ext_length :: u16
  sp_aw_com_length :: u16
  sp_remaining_aw_length :: u16
  sp_min_ext :: u8
  sp_max_ext_multicast :: u8
  sp_max_ext_unicast :: u8
  sp_max_ext_af :: u8
  sp_master_addr :: ether_addr
  sp_presence_mode :: u8
  sp_reserved :: u8
  sp_next_aw_seq :: u16
  sp_ap_alignment :: u16

definition awdl_sync_params_tlv_bytes :: "awdl_sync_params_tlv \<Rightarrow> u8 list" where
  "awdl_sync_params_tlv_bytes s =
     [sp_type s] @ le16_bytes (sp_length s) @ [sp_next_aw_channel s] @
     le16_bytes (sp_tx_down_counter s) @ [sp_master_channel s] @ [sp_guard_time s] @
     le16_bytes (sp_aw_period s) @ le16_bytes (sp_af_period s) @ le16_bytes (sp_flags s) @
     le16_bytes (sp_aw_ext_length s) @ le16_bytes (sp_aw_com_length s) @
     le16_bytes (sp_remaining_aw_length s) @ [sp_min_ext s] @ [sp_max_ext_multicast s] @
     [sp_max_ext_unicast s] @ [sp_max_ext_af s] @ ether_bytes (sp_master_addr s) @
     [sp_presence_mode s] @ [sp_reserved s] @ le16_bytes (sp_next_aw_seq s) @
     le16_bytes (sp_ap_alignment s)"

record awdl_chanseq_tlv =
  ct_type :: u8
  ct_length :: u16

definition awdl_chanseq_tlv_bytes :: "awdl_chanseq_tlv \<Rightarrow> u8 list" where
  "awdl_chanseq_tlv_bytes s =
     [ct_type s] @ le16_bytes (ct_length s)"

record awdl_election_params_tlv =
  ep_type :: u8
  ep_length :: u16
  ep_flags :: u8
  ep_id :: u16
  ep_distancetop :: u8
  ep_unknown :: u8
  ep_top_master_addr :: ether_addr
  ep_top_master_metric :: u32
  ep_self_metric :: u32
  ep_pad :: "u8 list"

definition awdl_election_params_tlv_bytes :: "awdl_election_params_tlv \<Rightarrow> u8 list" where
  "awdl_election_params_tlv_bytes s =
     [ep_type s] @ le16_bytes (ep_length s) @ [ep_flags s] @ le16_bytes (ep_id s) @
     [ep_distancetop s] @ [ep_unknown s] @ ether_bytes (ep_top_master_addr s) @
     le32_bytes (ep_top_master_metric s) @ le32_bytes (ep_self_metric s) @ ep_pad s"

record awdl_election_params_v2_tlv =
  ev_type :: u8
  ev_length :: u16
  ev_master_addr :: ether_addr
  ev_sync_addr :: ether_addr
  ev_master_counter :: u32
  ev_distance_to_master :: u32
  ev_master_metric :: u32
  ev_self_metric :: u32
  ev_unknown :: u32
  ev_reserved :: u32
  ev_self_counter :: u32

definition awdl_election_params_v2_tlv_bytes :: "awdl_election_params_v2_tlv \<Rightarrow> u8 list" where
  "awdl_election_params_v2_tlv_bytes s =
     [ev_type s] @ le16_bytes (ev_length s) @ ether_bytes (ev_master_addr s) @
     ether_bytes (ev_sync_addr s) @ le32_bytes (ev_master_counter s) @
     le32_bytes (ev_distance_to_master s) @ le32_bytes (ev_master_metric s) @
     le32_bytes (ev_self_metric s) @ le32_bytes (ev_unknown s) @ le32_bytes (ev_reserved s) @
     le32_bytes (ev_self_counter s)"

record awdl_service_params_tlv =
  sv_type :: u8
  sv_length :: u16
  sv_unknown :: "u8 list"
  sv_sui :: u16
  sv_bitmask :: u32

definition awdl_service_params_tlv_bytes :: "awdl_service_params_tlv \<Rightarrow> u8 list" where
  "awdl_service_params_tlv_bytes s =
     [sv_type s] @ le16_bytes (sv_length s) @ sv_unknown s @ le16_bytes (sv_sui s) @
     le32_bytes (sv_bitmask s)"

record awdl_ht_capabilities_tlv =
  ht_type :: u8
  ht_length :: u16
  ht_unknown :: u16
  ht_ht_capabilities :: u16
  ht_ampdu_params :: u8
  ht_rx_mcs :: u8
  ht_unknown2 :: u16

definition awdl_ht_capabilities_tlv_bytes :: "awdl_ht_capabilities_tlv \<Rightarrow> u8 list" where
  "awdl_ht_capabilities_tlv_bytes s =
     [ht_type s] @ le16_bytes (ht_length s) @ le16_bytes (ht_unknown s) @
     le16_bytes (ht_ht_capabilities s) @ [ht_ampdu_params s] @ [ht_rx_mcs s] @
     le16_bytes (ht_unknown2 s)"

record awdl_data_path_state_tlv =
  dp_type :: u8
  dp_length :: u16
  dp_flags :: u16
  dp_country_code :: "u8 list"
  dp_social_channels :: u16
  dp_awdl_addr :: ether_addr
  dp_ext_flags :: u16

definition awdl_data_path_state_tlv_bytes :: "awdl_data_path_state_tlv \<Rightarrow> u8 list" where
  "awdl_data_path_state_tlv_bytes s =
     [dp_type s] @ le16_bytes (dp_length s) @ le16_bytes (dp_flags s) @ dp_country_code s @
     le16_bytes (dp_social_channels s) @ ether_bytes (dp_awdl_addr s) @
     le16_bytes (dp_ext_flags s)"

text \<open>The name is declared with one byte and continues behind the struct.\<close>

record awdl_arpa_tlv =
  ar_type :: u8
  ar_length :: u16
  ar_flags :: u8
  ar_name_length :: u8
  ar_name :: "u8 list"

definition awdl_arpa_tlv_bytes :: "awdl_arpa_tlv \<Rightarrow> u8 list" where
  "awdl_arpa_tlv_bytes s =
     [ar_type s] @ le16_bytes (ar_length s) @ [ar_flags s] @ [ar_name_length s] @ ar_name s"

record awdl_version_tlv =
  vt_type :: u8
  vt_length :: u16
  vt_version :: u8
  vt_devclass :: u8

definition awdl_version_tlv_bytes :: "awdl_version_tlv \<Rightarrow> u8 list" where
  "awdl_version_tlv_bytes s =
     [vt_type s] @ le16_bytes (vt_length s) @ [vt_version s] @ [vt_devclass s]"

record ieee80211_hdr =
  h_frame_control :: u16
  h_duration_id :: u16
  h_addr1 :: ether_addr
  h_addr2 :: ether_addr
  h_addr3 :: ether_addr
  h_seq_ctrl :: u16

definition ieee80211_hdr_bytes :: "ieee80211_hdr \<Rightarrow> u8 list" where
  "ieee80211_hdr_bytes s =
     le16_bytes (h_frame_control s) @ le16_bytes (h_duration_id s) @ ether_bytes (h_addr1 s) @
     ether_bytes (h_addr2 s) @ ether_bytes (h_addr3 s) @ le16_bytes (h_seq_ctrl s)"

record llc_hdr =
  llc_dsap :: u8
  llc_ssap :: u8
  llc_control :: u8
  llc_oui :: "u8 list"
  llc_pid :: u16

definition llc_hdr_bytes :: "llc_hdr \<Rightarrow> u8 list" where
  "llc_hdr_bytes s =
     [llc_dsap s] @ [llc_ssap s] @ [llc_control s] @ llc_oui s @ be16_bytes (llc_pid s)"

text \<open>The sizes of the structs without inner arrays.\<close>

lemma length_struct_bytes [simp, layout_simps]:
  "length (awdl_data_bytes d) = 8"
  "length (awdl_chanseq_bytes cs) = 6"
  "length (awdl_sync_params_tlv_bytes sp) = 36"
  "length (awdl_chanseq_tlv_bytes ct) = 3"
  "length (awdl_election_params_v2_tlv_bytes ev) = 43"
  "length (awdl_ht_capabilities_tlv_bytes ht) = 11"
  "length (awdl_version_tlv_bytes vt) = 5"
  "length (ieee80211_hdr_bytes h) = 24"
  by (simp_all add: awdl_data_bytes_def awdl_chanseq_bytes_def awdl_sync_params_tlv_bytes_def awdl_chanseq_tlv_bytes_def awdl_election_params_v2_tlv_bytes_def awdl_ht_capabilities_tlv_bytes_def awdl_version_tlv_bytes_def ieee80211_hdr_bytes_def)

section \<open>Properties\<close>

text \<open>Version numbers survive packing: the major and minor parts extracted from a packed version
  are the low four bits of the numbers packed, so any two numbers below sixteen come back.\<close>

theorem awdl_version_round_trip:
  "awdl_version_major (awdl_version major minor) = major mod 16 \<and>
   awdl_version_minor (awdl_version major minor) = minor mod 16"
proof -
  have masks: "(0xf :: u8) = mask 4" "(0xf :: int) = mask 4" "(0xf0 :: int) = push_bit 4 (mask 4)"
    by (simp_all add: mask_eq_exp_minus_1 push_bit_eq_mult)
  have "drop_bit 4 (awdl_version major minor) AND 0xf = word_of_int (take_bit 4 major)"
    unfolding awdl_version_def masks by (rule bit_word_eqI) (auto simp: bit_simps)
  moreover have "awdl_version major minor AND 0xf = word_of_int (take_bit 4 minor)"
    unfolding awdl_version_def masks by (rule bit_word_eqI) (auto simp: bit_simps)
  moreover have "uint (word_of_int (take_bit 4 k) :: u8) = k mod 16" for k
    by (simp add: uint_word_of_int_eq take_bit_take_bit take_bit_eq_mod)
  ultimately show ?thesis by (simp add: awdl_version_major_def awdl_version_minor_def)
qed

text \<open>The switch over TLV types distinguishes every type: the name of a TLV is determined by its
  code, every code outside the enumeration is printed as unknown, and no two types share a code.\<close>

theorem awdl_tlv_names:
  "inj awdl_tlv_code \<and> (awdl_tlv_as_str c = ''Unknown'') = (c \<notin> range awdl_tlv_code)"
proof
  show "inj awdl_tlv_code" by (rule injI) (metis awdl_tlv_of_code option.inject)
  show "(awdl_tlv_as_str c = ''Unknown'') = (c \<notin> range awdl_tlv_code)"
  proof (cases "awdl_tlv_of c")
    case None
    then have "c \<notin> range awdl_tlv_code" by auto
    with None show ?thesis by (simp add: awdl_tlv_as_str_def)
  next
    case (Some t)
    then have "awdl_tlv_as_str c \<noteq> ''Unknown''" by (cases t) (simp_all add: awdl_tlv_as_str_def)
    with awdl_tlv_of_SomeD [OF Some] show ?thesis by simp
  qed
qed

end
