(* ===== verification/Sync.thy ===== *)
theory Sync
  imports Frame
begin

text \<open>
  Model of \<^verbatim>\<open>src/src/sync.c\<close> and \<^verbatim>\<open>src/src/sync.h\<close>: the clock of availability windows (AW) and
  extended availability windows (EAW). Every integer has its C width, so the subtraction of a
  later \<^verbatim>\<open>last_update\<close> and the truncation to sixteen bits wrap as they do in the code.
  The invariant \<open>sync_ok\<close> fixes the period and the presence mode, which nothing but the initialiser
  sets, and says that the window counter starts an extended window.
\<close>

section \<open>The code\<close>

record awdl_sync_state =
  sy_aw_counter :: u16
  sy_last_update :: u64
  sy_aw_period :: u16
  sy_presence_mode :: u8
  sy_meas_err :: u64
  sy_meas_total :: u64

definition awdl_sync_state_init :: "u64 \<Rightarrow> awdl_sync_state" where
  "awdl_sync_state_init now =
     \<lparr>sy_aw_counter = 0, sy_last_update = now, sy_aw_period = 16, sy_presence_mode = 4,
      sy_meas_err = 0, sy_meas_total = 0\<rparr>"

definition eaw_period :: "awdl_sync_state \<Rightarrow> u64" where
  "eaw_period state = ucast (sy_presence_mode state) * ucast (sy_aw_period state)"

definition awdl_sync_next_aw_tu :: "u64 \<Rightarrow> awdl_sync_state \<Rightarrow> u16" where
  "awdl_sync_next_aw_tu now_usec state =
     (let time_since = ieee80211_usec_to_tu (now_usec - sy_last_update state) in
      ucast (eaw_period state - time_since mod eaw_period state))"

definition awdl_sync_next_aw_us :: "u64 \<Rightarrow> awdl_sync_state \<Rightarrow> u64" where
  "awdl_sync_next_aw_us now_usec state =
     (let eaw = ieee80211_tu_to_usec (eaw_period state);
          time_since = now_usec - sy_last_update state in
      eaw - time_since mod eaw)"

definition awdl_sync_current_aw :: "u64 \<Rightarrow> awdl_sync_state \<Rightarrow> u16" where
  "awdl_sync_current_aw now_usec state =
     (let time_since = ieee80211_usec_to_tu (now_usec - sy_last_update state) in
      ucast ((ucast (sy_aw_counter state) :: u64) +
             (time_since mod eaw_period state) div ucast (sy_aw_period state) +
             ucast (sy_presence_mode state) * (time_since div eaw_period state)))"

definition awdl_sync_current_eaw :: "u64 \<Rightarrow> awdl_sync_state \<Rightarrow> u16" where
  "awdl_sync_current_eaw now_usec state =
     awdl_sync_current_aw now_usec state div ucast (sy_presence_mode state)"

definition awdl_sync_error_tu :: "u64 \<Rightarrow> u16 \<Rightarrow> u16 \<Rightarrow> awdl_sync_state \<Rightarrow> int" where
  "awdl_sync_error_tu now_usec time_to_next_aw aw_counter state =
     (uint aw_counter div uint (sy_presence_mode state) - uint (awdl_sync_current_eaw now_usec state)) *
       uint (sy_presence_mode state) * uint (sy_aw_period state) -
     (uint time_to_next_aw - uint (awdl_sync_next_aw_tu now_usec state))"

definition awdl_sync_update_last :: "u64 \<Rightarrow> u16 \<Rightarrow> u16 \<Rightarrow> awdl_sync_state \<Rightarrow> awdl_sync_state" where
  "awdl_sync_update_last now_usec time_to_next_aw aw_counter state =
     state\<lparr>sy_last_update := now_usec - ieee80211_tu_to_usec (eaw_period state - ucast time_to_next_aw),
           sy_aw_counter := aw_counter AND 0xfffc\<rparr>"

section \<open>The invariant\<close>

definition sync_ok :: "awdl_sync_state \<Rightarrow> bool" where
  "sync_ok state \<longleftrightarrow> sy_presence_mode state = 4 \<and> sy_aw_period state = 16 \<and> unat (sy_aw_counter state) mod 4 = 0"

lemma mask_counter: "unat (w AND 0xfffc :: u16) = unat w - unat w mod 4"
proof -
  have "w AND 0xfffc = push_bit 2 (drop_bit 2 w)"
  proof (rule bit_word_eqI)
    fix n :: nat
    assume n: "n < LENGTH(16)"
    have m: "(0xfffc :: u16) = push_bit 2 (mask 14)" by (simp add: mask_eq_exp_minus_1 push_bit_eq_mult)
    show "bit (w AND 0xfffc) n = bit (push_bit 2 (drop_bit 2 w)) n"
      unfolding m using n le_Suc_ex [of 2 n] by (cases "2 \<le> n") (auto simp: bit_simps)
  qed
  also have "unat \<dots> = unat w div 4 * 4"
  proof -
    have "unat w div 4 * 4 < 65536"
      using unat_u16_less [of w] div_times_less_eq_dividend [of "unat w" 4] by linarith
    then show ?thesis by (simp add: push_bit_eq_mult drop_bit_eq_div unat_word_ariths(2) unat_div)
  qed
  finally show ?thesis by (simp add: minus_mod_eq_div_mult)
qed

lemma sync_state_init_ok: "sync_ok (awdl_sync_state_init now)"
  by (simp add: sync_ok_def awdl_sync_state_init_def)

lemma sync_update_last_ok: "sync_ok state \<Longrightarrow> sync_ok (awdl_sync_update_last now ttn aw state)"
  by (simp add: sync_ok_def awdl_sync_update_last_def mask_counter minus_mod_eq_div_mult)

text \<open>In the arithmetic of natural numbers: \<open>since\<close> microseconds have passed.\<close>

definition since :: "u64 \<Rightarrow> awdl_sync_state \<Rightarrow> nat" where
  "since now state = unat (now - sy_last_update state)"

lemma eaw_period_ok: "sync_ok state \<Longrightarrow> eaw_period state = 64"
  by (simp add: sync_ok_def eaw_period_def)

lemma next_aw_us_since:
  assumes "sync_ok state"
  shows "unat (awdl_sync_next_aw_us now state) = 65536 - since now state mod 65536"
proof -
  have "unat ((now - sy_last_update state) mod 65536) = since now state mod 65536"
    by (simp add: since_def unat_mod)
  moreover have "since now state mod 65536 < 65536" by simp
  ultimately show ?thesis
    using assms by (simp add: awdl_sync_next_aw_us_def eaw_period_ok ieee80211_tu_to_usec_def unat_sub word_le_nat_alt)
qed

lemma next_aw_tu_since:
  assumes "sync_ok state"
  shows "unat (awdl_sync_next_aw_tu now state) = 64 - since now state div 1024 mod 64"
proof -
  have m: "unat ((now - sy_last_update state) div 1024 mod 64) = since now state div 1024 mod 64"
    by (simp add: since_def unat_mod unat_div)
  moreover have "since now state div 1024 mod 64 < 64" by simp
  ultimately have "unat (64 - (now - sy_last_update state) div 1024 mod 64) = 64 - since now state div 1024 mod 64"
    by (simp add: unat_sub word_le_nat_alt)
  then show ?thesis
    using assms by (simp add: awdl_sync_next_aw_tu_def eaw_period_ok ieee80211_usec_to_tu_def unsigned_ucast_eq take_bit_eq_mod)
qed

lemma current_aw_since:
  assumes "sync_ok state"
  shows "unat (awdl_sync_current_aw now state) = (unat (sy_aw_counter state) + since now state div 16384) mod 65536"
proof -
  define d where "d = now - sy_last_update state"
  define t where "t = unat d"
  have t: "t < 18446744073709551616" unfolding t_def by (rule unat_u64_less)
  have "unat (sy_aw_counter state) < 65536" by (rule unat_u16_less)
  have parts: "unat (d div 1024 mod 64 div 16) = t div 1024 mod 64 div 16"
    "unat (4 * (d div 1024 div 64)) = 4 * (t div 1024 div 64)"
    using t by (simp_all add: t_def unat_div unat_mod unat_word_ariths)
  have sum: "t div 1024 mod 64 div 16 + 4 * (t div 1024 div 64) = t div 16384"
  proof -
    have "t div 1024 mod 64 div 16 = t div 16384 mod 4" "t div 1024 div 64 = t div 16384 div 4"
      using mod_mult_div [of 16 "t div 1024" 4] by (simp_all add: div_mult2_eq [symmetric])
    then show ?thesis by simp
  qed
  have "unat ((ucast (sy_aw_counter state) :: u64) + d div 1024 mod 64 div 16 + 4 * (d div 1024 div 64)) =
      (unat (sy_aw_counter state) + t div 16384) mod 18446744073709551616"
  proof -
    have "unat ((ucast (sy_aw_counter state) :: u64)) = unat (sy_aw_counter state)"
      using unat_u16_less [of "sy_aw_counter state"] by (simp add: unsigned_ucast_eq take_bit_eq_mod)
    then show ?thesis
      by (simp add: unat_word_ariths(1) parts mod_simps sum [symmetric] add.assoc)
  qed
  then have "unat (awdl_sync_current_aw now state) = (unat (sy_aw_counter state) + t div 16384) mod 18446744073709551616 mod 65536"
    using assms by (simp add: awdl_sync_current_aw_def eaw_period_ok sync_ok_def ieee80211_usec_to_tu_def
      d_def unsigned_ucast_eq take_bit_eq_mod Let_def)
  then show ?thesis by (simp add: mod_mod_cancel since_def t_def d_def)
qed

lemma current_eaw_since:
  assumes "sync_ok state"
  shows "unat (awdl_sync_current_eaw now state) =
    (unat (sy_aw_counter state) div 4 + since now state div 65536) mod 16384"
proof -
  obtain c where c: "unat (sy_aw_counter state) = 4 * c"
    using assms by (auto simp: sync_ok_def elim: dvdE [OF mod_0_imp_dvd])
  have "unat (awdl_sync_current_eaw now state) = (4 * c + since now state div 16384) mod 65536 div 4"
    using assms current_aw_since [OF assms, of now] c
    by (simp add: awdl_sync_current_eaw_def sync_ok_def unat_div)
  also have "\<dots> = (4 * c + since now state div 16384) div 4 mod 16384"
    using mod_mult_div [of 4 _ 16384] by simp
  also have "(4 * c + since now state div 16384) div 4 = c + since now state div 65536"
    by (simp add: div_mult2_eq [symmetric])
  finally show ?thesis by (simp add: c)
qed

lemma since_later:
  "since (now + d) state = (since now state + unat d) mod 18446744073709551616"
proof -
  have "now + d - sy_last_update state = (now - sy_last_update state) + d" by simp
  then show ?thesis by (simp only: since_def unat_word_ariths(1)) simp
qed

lemma current_eaw_later:
  assumes "sync_ok state"
  shows "unat (awdl_sync_current_eaw (now + d) state) =
    (unat (sy_aw_counter state) div 4 + (since now state + unat d) div 65536) mod 16384"
proof -
  have "(since now state + unat d) mod 18446744073709551616 div 65536 =
      (since now state + unat d) div 65536 mod 281474976710656"
    using mod_mult_div [of 65536 _ 281474976710656] by simp
  then have "unat (awdl_sync_current_eaw (now + d) state) =
      (unat (sy_aw_counter state) div 4 + (since now state + unat d) div 65536 mod 281474976710656) mod 16384"
    by (simp add: current_eaw_since [OF assms] since_later)
  also have "\<dots> = (unat (sy_aw_counter state) div 4 + (since now state + unat d) div 65536) mod 16384"
  proof -
    have "x mod 281474976710656 mod 16384 = x mod 16384" for x :: nat by (rule mod_mod_cancel) simp
    then show ?thesis by (metis mod_add_right_eq)
  qed
  finally show ?thesis .
qed

text \<open>What is set from a message.\<close>

lemma update_last_since:
  assumes "sync_ok state" and "0 < ttn" and "ttn \<le> 64"
  shows "since now (awdl_sync_update_last now ttn aw state) = 1024 * (64 - unat ttn)"
proof -
  have le: "0 < unat ttn" "unat ttn \<le> 64" using assms(2,3) by (simp_all add: word_less_nat_alt word_le_nat_alt)
  have u: "unat (ucast ttn :: u64) = unat ttn"
    using unat_u16_less [of ttn] by (simp add: unsigned_ucast_eq take_bit_eq_mod)
  have "unat (64 - ucast ttn :: u64) = 64 - unat ttn"
    using le u by (simp add: unat_sub word_le_nat_alt)
  then have "unat (1024 * (64 - ucast ttn) :: u64) = 1024 * (64 - unat ttn)"
    using le by (simp only: unat_word_ariths(2)) simp
  then show ?thesis
    using assms(1) by (simp add: since_def awdl_sync_update_last_def eaw_period_ok ieee80211_tu_to_usec_def)
qed

lemma update_last_counter: "unat (sy_aw_counter (awdl_sync_update_last now ttn aw state)) div 4 = unat aw div 4"
  by (simp add: awdl_sync_update_last_def mask_counter minus_mod_eq_div_mult)

lemma update_last_error:
  assumes "sync_ok state" and "0 < ttn" and "ttn \<le> 64"
  shows "awdl_sync_error_tu now ttn aw (awdl_sync_update_last now ttn aw state) = 0"
proof -
  let ?s = "awdl_sync_update_last now ttn aw state"
  have ok: "sync_ok ?s" by (rule sync_update_last_ok [OF assms(1)])
  have le: "0 < unat ttn" "unat ttn \<le> 64" using assms(2,3) by (simp_all add: word_less_nat_alt word_le_nat_alt)
  note since = update_last_since [OF assms]
  have ttn: "awdl_sync_next_aw_tu now ?s = ttn"
    using next_aw_tu_since [OF ok, of now] since le by (simp add: word_unat_eq_iff)
  have "since now ?s div 65536 = 0" using since le by simp
  then have "unat (awdl_sync_current_eaw now ?s) = unat aw div 4"
    using current_eaw_since [OF ok, of now] unat_u16_less [of aw] by (simp add: update_last_counter)
  then have "uint (awdl_sync_current_eaw now ?s) = uint aw div 4"
    by (metis uint_nat int_ops(3) of_nat_numeral zdiv_int)
  moreover have "sy_presence_mode ?s = 4" "sy_aw_period ?s = 16" using ok by (simp_all add: sync_ok_def)
  ultimately show ?thesis by (simp add: awdl_sync_error_tu_def ttn)
qed

lemma div_lag:
  fixes x y d :: nat
  assumes "1024 \<le> (x + d) mod 65536" and "x = y + r" and "r < 1024"
  shows "(y + d) div 65536 = (x + d) div 65536"
proof -
  have "(y + d) + r = x + d" using assms(2) by simp
  then have "y + d = 65536 * ((x + d) div 65536) + ((x + d) mod 65536 - r)"
    using assms(1,3) mult_div_mod_eq [of 65536 "x + d"] by linarith
  moreover have "(x + d) mod 65536 - r < 65536" using mod_less_divisor [of 65536 "x + d"] by linarith
  ultimately show ?thesis by simp
qed

lemma div_add_mod: "a + t div 65536 + (t mod 65536 + d) div 65536 = a + (t + d) div (65536 :: nat)"
proof -
  have "t + d = (t mod 65536 + d) + t div 65536 * 65536" by simp
  then have "(t + d) div 65536 = (t mod 65536 + d) div 65536 + t div 65536" by (metis div_mult_self1 zero_neq_numeral add.commute)
  then show ?thesis by simp
qed

section \<open>Properties\<close>

text \<open>C25. The time to the next window is the time to the next extended window: it is positive and at
  most one period of 65536 microseconds, the current extended window does not change before it
  has passed, and then its number is one higher (modulo the 2^14 numbers sixteen bits leave).
  This holds for every clock reading, also when the 64-bit difference or the counter wraps.\<close>

theorem awdl_sync_next_aw_exact:
  assumes "sync_ok state"
  shows "0 < awdl_sync_next_aw_us now state \<and> awdl_sync_next_aw_us now state \<le> 65536 \<and>
    (\<forall>d < awdl_sync_next_aw_us now state. awdl_sync_current_eaw (now + d) state = awdl_sync_current_eaw now state) \<and>
    unat (awdl_sync_current_eaw (now + awdl_sync_next_aw_us now state) state) =
      (unat (awdl_sync_current_eaw now state) + 1) mod 16384"
proof -
  let ?n = "awdl_sync_next_aw_us now state" and ?t = "since now state"
  let ?c = "unat (sy_aw_counter state) div 4"
  have lt: "?t mod 65536 < 65536" by simp
  then have n: "unat ?n + ?t mod 65536 = 65536" using next_aw_us_since [OF assms, of now] by linarith
  have "(?t + unat d) div 65536 = ?t div 65536" if "unat d < unat ?n" for d :: u64
    by (rule div_add_window(1)) (use that n in simp_all)
  then have stay: "awdl_sync_current_eaw (now + d) state = awdl_sync_current_eaw now state" if "d < ?n" for d
    using that by (simp add: word_unat_eq_iff current_eaw_later [OF assms] current_eaw_since [OF assms, of now] word_less_nat_alt)
  have "(?t + unat ?n) div 65536 = ?t div 65536 + 1"
    by (rule div_add_window(2)) (use n in simp_all)
  then have "unat (awdl_sync_current_eaw (now + ?n) state) = (unat (awdl_sync_current_eaw now state) + 1) mod 16384"
    by (simp add: current_eaw_later [OF assms] current_eaw_since [OF assms, of now] mod_Suc_eq)
  moreover have "0 < ?n" "?n \<le> 65536"
    using n lt by (simp_all add: word_less_nat_alt word_le_nat_alt)
  ultimately show ?thesis using stay by simp
qed

definition sample_sync :: awdl_sync_state where
  "sample_sync = \<lparr>sy_aw_counter = 8, sy_last_update = 1000, sy_aw_period = 16, sy_presence_mode = 4,
     sy_meas_err = 0, sy_meas_total = 0\<rparr>"

theorem awdl_sync_next_aw_exact_witness:
  "awdl_sync_next_aw_us 5000 sample_sync = 61536 \<and>
   unat (awdl_sync_current_eaw (5000 + awdl_sync_next_aw_us 5000 sample_sync) sample_sync) = 3"
proof -
  have ok: "sync_ok sample_sync" by (simp add: sync_ok_def sample_sync_def)
  have "awdl_sync_next_aw_us 5000 sample_sync = 61536" "awdl_sync_current_eaw 5000 sample_sync = 2"
    by (simp_all add: sample_sync_def awdl_sync_next_aw_us_def awdl_sync_current_eaw_def awdl_sync_current_aw_def
        eaw_period_def ieee80211_tu_to_usec_def ieee80211_usec_to_tu_def)
  with awdl_sync_next_aw_exact [OF ok, of 5000] show ?thesis by simp
qed

text \<open>Synchronisation converges in one step. A node that takes over the time to the next window and the window counter of a
  master measures no synchronisation error against them any more. Its clock lags behind by less than a time unit, the part the
  message does not carry: at every later moment both nodes are in the same extended window, except within the first time
  unit of a window of the master. This holds whatever the clocks read and wherever the counters wrap.\<close>

lemma awdl_sync_update_converges:
  assumes "sync_ok master" and "sync_ok state" and "ttn = awdl_sync_next_aw_tu now master" and "aw = awdl_sync_current_aw now master"
  shows "awdl_sync_error_tu tsft ttn aw (awdl_sync_update_last tsft ttn aw state) = 0 \<and>
    awdl_sync_next_aw_us now master \<le> awdl_sync_next_aw_us tsft (awdl_sync_update_last tsft ttn aw state) \<and>
    awdl_sync_next_aw_us tsft (awdl_sync_update_last tsft ttn aw state) < awdl_sync_next_aw_us now master + 1024 \<and>
    (\<forall>d. awdl_sync_next_aw_us (now + d) master \<le> 64 * 1024 - 1024 \<longrightarrow>
      awdl_sync_current_eaw (tsft + d) (awdl_sync_update_last tsft ttn aw state) = awdl_sync_current_eaw (now + d) master)"
proof -
  let ?s = "awdl_sync_update_last tsft ttn aw state" and ?x = "since now master mod 65536"
  have ok: "sync_ok ?s" by (rule sync_update_last_ok [OF assms(2)])
  have ttn: "unat ttn = 64 - ?x div 1024" "0 < ttn" "ttn \<le> 64"
    using next_aw_tu_since [OF assms(1), of now] mod_mult_div [of 1024 "since now master" 64]
    by (simp_all add: assms(3) word_less_nat_alt word_le_nat_alt)
  have since: "since tsft ?s = 1024 * (?x div 1024)"
    using update_last_since [OF assms(2) ttn(2,3), of tsft aw] unfolding ttn(1) by simp
  then have offset: "?x = since tsft ?s + ?x mod 1024" "?x mod 1024 < 1024" by simp_all
  have eaw: "unat aw div 4 = unat (awdl_sync_current_eaw now master)"
    using assms(1) by (simp add: assms(4) awdl_sync_current_eaw_def sync_ok_def unat_div)
  have us: "unat (awdl_sync_next_aw_us tsft ?s) = 65536 - since tsft ?s" "unat (awdl_sync_next_aw_us now master) = 65536 - ?x"
    using next_aw_us_since [OF ok, of tsft] next_aw_us_since [OF assms(1), of now] since offset(1)
    by (simp_all add: less_mult_imp_div_less)
  have "awdl_sync_current_eaw (tsft + d) ?s = awdl_sync_current_eaw (now + d) master"
    if "awdl_sync_next_aw_us (now + d) master \<le> 64 * 1024 - 1024" for d
  proof -
    have "1024 \<le> since (now + d) master mod 65536"
      using that next_aw_us_since [OF assms(1), of "now + d"] by (simp add: word_le_nat_alt)
    then have "1024 \<le> (?x + unat d) mod 65536" by (simp add: since_later mod_mod_cancel mod_simps)
    from div_lag [OF this offset] show ?thesis
      by (simp add: word_unat_eq_iff current_eaw_later [OF ok] current_eaw_later [OF assms(1)] update_last_counter eaw
          current_eaw_since [OF assms(1), of now] mod_simps div_add_mod)
  qed
  moreover have "awdl_sync_error_tu tsft ttn aw ?s = 0" by (rule update_last_error [OF assms(2) ttn(2,3)])
  ultimately show ?thesis
    using us offset by (auto simp: word_le_nat_alt word_less_nat_alt unat_word_ariths)
qed

end
