(* ===== verification/State.thy ===== *)
theory State
  imports Election Sync
begin

text \<open>
  Model of \<^verbatim>\<open>src/src/state.c\<close> and \<^verbatim>\<open>src/src/state.h\<close>: the complete state of a node, the statistics
  and the two sequence number generators. Function pointers are modelled by whether they are
  set; the callbacks that are made are results of the operations that make them. Memory of
  the caller that an initialiser does not write keeps its content, the parameter \<open>junk\<close>.
\<close>

section \<open>Data\<close>

record awdl_stats =
  stats_tx_action :: u64
  stats_tx_data :: u64
  stats_tx_data_unicast :: u64
  stats_tx_data_multicast :: u64
  stats_rx_action :: u64
  stats_rx_data :: u64
  stats_rx_unknown :: u64

record awdl_state =
  st_self_address :: ether_addr
  st_name :: "u8 list"
  st_version :: u8
  st_dev_class :: u8
  st_sequence_number :: u16
  st_psf_interval :: u16
  st_dst :: ether_addr
  st_tlv_cb :: bool
  st_peer_cb :: bool
  st_peer_remove_cb :: bool
  st_filter_rssi :: bool
  st_rssi_threshold :: int
  st_rssi_grace :: int
  st_election :: awdl_election_state
  st_sync :: awdl_sync_state
  st_channel :: awdl_channel_state
  st_peers :: awdl_peer_state
  st_stats :: awdl_stats

record ieee80211_state =
  ie_sequence_number :: u16
  ie_fcs :: bool

definition ETHER_BROADCAST :: ether_addr where
  "ETHER_BROADCAST = EtherAddr 0xff 0xff 0xff 0xff 0xff 0xff"

definition PSF_INTERVAL_MASTER_TU :: u16 where
  "PSF_INTERVAL_MASTER_TU = 110"

definition RSSI_THRESHOLD_DEFAULT :: int where
  "RSSI_THRESHOLD_DEFAULT = - 65"

definition RSSI_GRACE_DEFAULT :: int where
  "RSSI_GRACE_DEFAULT = - 5"

section \<open>Operations\<close>

definition awdl_stats_init :: awdl_stats where
  "awdl_stats_init =
     \<lparr>stats_tx_action = 0, stats_tx_data = 0, stats_tx_data_unicast = 0, stats_tx_data_multicast = 0,
      stats_rx_action = 0, stats_rx_data = 0, stats_rx_unknown = 0\<rparr>"

text \<open>\<^verbatim>\<open>strncpy\<close> copies a string up to its terminator and fills the rest of its \<open>n\<close> bytes with
  zeros; the bytes after them keep their value.\<close>

definition strncpy :: "u8 list \<Rightarrow> u8 list \<Rightarrow> nat \<Rightarrow> u8 list" where
  "strncpy dst src n =
     (let s = take n (c_string src) in s @ replicate (n - length s) 0 @ drop n dst)"

definition awdl_init_state ::
  "(nat \<Rightarrow> bool) \<Rightarrow> awdl_state \<Rightarrow> u8 list \<Rightarrow> ether_addr \<Rightarrow> awdl_chan \<Rightarrow> u64 \<Rightarrow> awdl_state option" where
  "awdl_init_state mem junk hostname self chan now =
     (case awdl_peer_state_init mem of
        None \<Rightarrow> None
      | Some peers \<Rightarrow> Some
          \<lparr>st_self_address = self,
           st_name = strncpy (st_name junk) hostname HOST_NAME_LENGTH_MAX,
           st_version = awdl_version 3 4,
           st_dev_class = awdl_devclass_code AWDL_DEVCLASS_MACOS,
           st_sequence_number = 0,
           st_psf_interval = PSF_INTERVAL_MASTER_TU,
           st_dst = ETHER_BROADCAST,
           st_tlv_cb = False,
           st_peer_cb = False,
           st_peer_remove_cb = False,
           st_filter_rssi = True,
           st_rssi_threshold = RSSI_THRESHOLD_DEFAULT,
           st_rssi_grace = RSSI_GRACE_DEFAULT,
           st_election = awdl_election_state_init (st_election junk) self,
           st_sync = awdl_sync_state_init now,
           st_channel = \<lparr>ch_enc = AWDL_CHAN_ENC_OPCLASS, ch_sequence = awdl_chanseq_init_static chan,
             ch_master = chan, ch_current = CHAN_NULL\<rparr>,
           st_peers = peers,
           st_stats = awdl_stats_init\<rparr>)"

definition awdl_state_next_sequence_number :: "awdl_state \<Rightarrow> u16 \<times> awdl_state" where
  "awdl_state_next_sequence_number state =
     (st_sequence_number state, state\<lparr>st_sequence_number := st_sequence_number state + 1\<rparr>)"

definition ieee80211_init_state :: ieee80211_state where
  "ieee80211_init_state = \<lparr>ie_sequence_number = 0, ie_fcs = False\<rparr>"

definition ieee80211_state_next_sequence_number :: "ieee80211_state \<Rightarrow> u16 \<times> ieee80211_state" where
  "ieee80211_state_next_sequence_number state =
     (ie_sequence_number state, state\<lparr>ie_sequence_number := (ie_sequence_number state + 1) AND 0x0fff\<rparr>)"

text \<open>What \<^verbatim>\<open>clock_gettime\<close> returns and stores is the argument.\<close>

definition clock_time_us :: "int \<Rightarrow> int \<Rightarrow> int \<Rightarrow> u64" where
  "clock_time_us result tv_sec tv_nsec =
     (if result = 0 then word_of_int (tv_sec * 1000000) + word_of_int (c_div tv_nsec 1000) else 0)"

section \<open>The invariant\<close>

definition state_ok :: "nat \<Rightarrow> awdl_state \<Rightarrow> bool" where
  "state_ok L s \<longleftrightarrow> peers_inv L (ps_peers (st_peers s)) \<and> sync_ok (st_sync s) \<and>
     length (ch_sequence (st_channel s)) = AWDL_CHANSEQ_LENGTH \<and>
     length (st_name s) = HOST_NAME_LENGTH_MAX + 1 \<and>
     el_self_addr (st_election s) = st_self_address s"

lemma length_strncpy: "n \<le> length dst \<Longrightarrow> length (strncpy dst src n) = length dst"
  by (simp add: strncpy_def Let_def)

lemma init_state_ok:
  assumes "awdl_init_state mem junk hostname self chan now = Some s" and "INITIAL_SIZE \<le> L"
    and "length (st_name junk) = HOST_NAME_LENGTH_MAX + 1"
  shows "state_ok L s" and "peer_lookup (ps_peers (st_peers s)) = Map.empty"
proof -
  from assms(1) obtain p where p: "awdl_peer_state_init mem = Some p" and s: "st_peers s = p"
    "st_sync s = awdl_sync_state_init now" "st_self_address s = self"
    "st_name s = strncpy (st_name junk) hostname HOST_NAME_LENGTH_MAX"
    "ch_sequence (st_channel s) = awdl_chanseq_init_static chan"
    "st_election s = awdl_election_state_init (st_election junk) self"
    by (auto simp: awdl_init_state_def split: option.splits)
  from p obtain m where m: "awdl_peers_init mem = Some m" "ps_peers p = m"
    by (auto simp: awdl_peer_state_init_def split: option.splits)
  note inv = peers_init_inv [OF m(1) assms(2)]
  show "state_ok L s"
    using inv s m assms(3) by (simp add: state_ok_def sync_state_init_ok length_strncpy)
  show "peer_lookup (ps_peers (st_peers s)) = Map.empty" using inv s m by simp
qed

text \<open>The low twelve bits.\<close>

lemma unat_and_0fff: "unat (w AND 0x0fff :: u16) = unat w mod 4096"
proof -
  have "w AND 0x0fff = take_bit 12 w" by (simp add: take_bit_eq_mask mask_eq_exp_minus_1)
  then show ?thesis by (simp add: take_bit_eq_mod unat_mod)
qed

fun ieee80211_sequence :: "nat \<Rightarrow> ieee80211_state \<Rightarrow> u16 list" where
  "ieee80211_sequence 0 s = []"
| "ieee80211_sequence (Suc n) s =
     (case ieee80211_state_next_sequence_number s of (seq, s') \<Rightarrow> seq # ieee80211_sequence n s')"

section \<open>Properties\<close>

text \<open>A concrete state for the witnesses here and in the theories that follow.\<close>

definition sample_state :: awdl_state where
  "sample_state = \<lparr>st_self_address = sample_addr, st_name = replicate 65 0, st_version = 0x34, st_dev_class = 1,
     st_sequence_number = 0, st_psf_interval = 110, st_dst = ETHER_BROADCAST, st_tlv_cb = False, st_peer_cb = False,
     st_peer_remove_cb = False, st_filter_rssi = True, st_rssi_threshold = - 65, st_rssi_grace = - 5,
     st_election = awdl_election_state_init (p_election sample_junk) sample_addr, st_sync = sample_sync,
     st_channel = \<lparr>ch_enc = AWDL_CHAN_ENC_OPCLASS, ch_sequence = awdl_chanseq_init_static CHAN_OPCLASS_6,
       ch_master = CHAN_OPCLASS_6, ch_current = CHAN_NULL\<rparr>,
     st_peers = \<lparr>ps_peers = sample_peers, ps_timeout = 2000000, ps_clean_interval = 1000000\<rparr>,
     st_stats = awdl_stats_init\<rparr>"

lemma sample_sync_ok: "sync_ok sample_sync"
  by (simp add: sync_ok_def sample_sync_def)

lemma sample_state_ok: "state_ok 256 sample_state"
  using sample_peers_ok(1) sample_sync_ok by (simp add: state_ok_def sample_state_def HOST_NAME_LENGTH_MAX_def)

text \<open>The 802.11 sequence numbers of successive frames count modulo 4096 from the current one,
  so that they always fit the twelve bits of the header field and repeat only after 4096 frames.\<close>

theorem ieee80211_sequence_numbers:
  assumes "unat (ie_sequence_number s) < 4096" and "i < n"
  shows "unat (ieee80211_sequence n s ! i) = (unat (ie_sequence_number s) + i) mod 4096"
  using assms
proof (induction n arbitrary: s i)
  case (Suc n)
  let ?s = "s\<lparr>ie_sequence_number := (ie_sequence_number s + 1) AND 0x0fff\<rparr>"
  have next_eq: "unat (ie_sequence_number ?s) = (unat (ie_sequence_number s) + 1) mod 4096"
    using Suc.prems(1) by (simp add: unat_and_0fff unat_word_ariths)
  show ?case
  proof (cases i)
    case 0
    with Suc.prems show ?thesis by (simp add: ieee80211_state_next_sequence_number_def)
  next
    case (Suc j)
    then have "unat (ieee80211_sequence n ?s ! j) = (unat (ie_sequence_number ?s) + j) mod 4096"
      using Suc.IH [of ?s j] Suc.prems(2) next_eq by simp
    with Suc next_eq show ?thesis by (simp add: ieee80211_state_next_sequence_number_def mod_simps)
  qed
qed simp

theorem ieee80211_sequence_numbers_witness:
  "unat (ieee80211_sequence 3 \<lparr>ie_sequence_number = 4094, ie_fcs = False\<rparr> ! 1) = 4095 \<and>
   unat (ieee80211_sequence 3 \<lparr>ie_sequence_number = 4094, ie_fcs = False\<rparr> ! 2) = 0"
  using ieee80211_sequence_numbers [of "\<lparr>ie_sequence_number = 4094, ie_fcs = False\<rparr>" 1 3]
    ieee80211_sequence_numbers [of "\<lparr>ie_sequence_number = 4094, ie_fcs = False\<rparr>" 2 3] by simp

end
