(* ===== verification/Crc32.thy ===== *)
theory Crc32
  imports Prelude
begin

text \<open>
  Model of \<^verbatim>\<open>src/src/crc32.c\<close>: the table-driven frame check sequence. The reference
  definition is the bitwise division by the reflected IEEE 802.3 polynomial; the property says
  that the table and the loop over bytes compute it.
\<close>

section \<open>The code\<close>

definition crc32_tab :: "u32 list" where
  "crc32_tab =
    [0x00000000, 0x77073096, 0xee0e612c, 0x990951ba, 0x076dc419, 0x706af48f, 0xe963a535, 0x9e6495a3,
     0x0edb8832, 0x79dcb8a4, 0xe0d5e91e, 0x97d2d988, 0x09b64c2b, 0x7eb17cbd, 0xe7b82d07, 0x90bf1d91,
     0x1db71064, 0x6ab020f2, 0xf3b97148, 0x84be41de, 0x1adad47d, 0x6ddde4eb, 0xf4d4b551, 0x83d385c7,
     0x136c9856, 0x646ba8c0, 0xfd62f97a, 0x8a65c9ec, 0x14015c4f, 0x63066cd9, 0xfa0f3d63, 0x8d080df5,
     0x3b6e20c8, 0x4c69105e, 0xd56041e4, 0xa2677172, 0x3c03e4d1, 0x4b04d447, 0xd20d85fd, 0xa50ab56b,
     0x35b5a8fa, 0x42b2986c, 0xdbbbc9d6, 0xacbcf940, 0x32d86ce3, 0x45df5c75, 0xdcd60dcf, 0xabd13d59,
     0x26d930ac, 0x51de003a, 0xc8d75180, 0xbfd06116, 0x21b4f4b5, 0x56b3c423, 0xcfba9599, 0xb8bda50f,
     0x2802b89e, 0x5f058808, 0xc60cd9b2, 0xb10be924, 0x2f6f7c87, 0x58684c11, 0xc1611dab, 0xb6662d3d,
     0x76dc4190, 0x01db7106, 0x98d220bc, 0xefd5102a, 0x71b18589, 0x06b6b51f, 0x9fbfe4a5, 0xe8b8d433,
     0x7807c9a2, 0x0f00f934, 0x9609a88e, 0xe10e9818, 0x7f6a0dbb, 0x086d3d2d, 0x91646c97, 0xe6635c01,
     0x6b6b51f4, 0x1c6c6162, 0x856530d8, 0xf262004e, 0x6c0695ed, 0x1b01a57b, 0x8208f4c1, 0xf50fc457,
     0x65b0d9c6, 0x12b7e950, 0x8bbeb8ea, 0xfcb9887c, 0x62dd1ddf, 0x15da2d49, 0x8cd37cf3, 0xfbd44c65,
     0x4db26158, 0x3ab551ce, 0xa3bc0074, 0xd4bb30e2, 0x4adfa541, 0x3dd895d7, 0xa4d1c46d, 0xd3d6f4fb,
     0x4369e96a, 0x346ed9fc, 0xad678846, 0xda60b8d0, 0x44042d73, 0x33031de5, 0xaa0a4c5f, 0xdd0d7cc9,
     0x5005713c, 0x270241aa, 0xbe0b1010, 0xc90c2086, 0x5768b525, 0x206f85b3, 0xb966d409, 0xce61e49f,
     0x5edef90e, 0x29d9c998, 0xb0d09822, 0xc7d7a8b4, 0x59b33d17, 0x2eb40d81, 0xb7bd5c3b, 0xc0ba6cad,
     0xedb88320, 0x9abfb3b6, 0x03b6e20c, 0x74b1d29a, 0xead54739, 0x9dd277af, 0x04db2615, 0x73dc1683,
     0xe3630b12, 0x94643b84, 0x0d6d6a3e, 0x7a6a5aa8, 0xe40ecf0b, 0x9309ff9d, 0x0a00ae27, 0x7d079eb1,
     0xf00f9344, 0x8708a3d2, 0x1e01f268, 0x6906c2fe, 0xf762575d, 0x806567cb, 0x196c3671, 0x6e6b06e7,
     0xfed41b76, 0x89d32be0, 0x10da7a5a, 0x67dd4acc, 0xf9b9df6f, 0x8ebeeff9, 0x17b7be43, 0x60b08ed5,
     0xd6d6a3e8, 0xa1d1937e, 0x38d8c2c4, 0x4fdff252, 0xd1bb67f1, 0xa6bc5767, 0x3fb506dd, 0x48b2364b,
     0xd80d2bda, 0xaf0a1b4c, 0x36034af6, 0x41047a60, 0xdf60efc3, 0xa867df55, 0x316e8eef, 0x4669be79,
     0xcb61b38c, 0xbc66831a, 0x256fd2a0, 0x5268e236, 0xcc0c7795, 0xbb0b4703, 0x220216b9, 0x5505262f,
     0xc5ba3bbe, 0xb2bd0b28, 0x2bb45a92, 0x5cb36a04, 0xc2d7ffa7, 0xb5d0cf31, 0x2cd99e8b, 0x5bdeae1d,
     0x9b64c2b0, 0xec63f226, 0x756aa39c, 0x026d930a, 0x9c0906a9, 0xeb0e363f, 0x72076785, 0x05005713,
     0x95bf4a82, 0xe2b87a14, 0x7bb12bae, 0x0cb61b38, 0x92d28e9b, 0xe5d5be0d, 0x7cdcefb7, 0x0bdbdf21,
     0x86d3d2d4, 0xf1d4e242, 0x68ddb3f8, 0x1fda836e, 0x81be16cd, 0xf6b9265b, 0x6fb077e1, 0x18b74777,
     0x88085ae6, 0xff0f6a70, 0x66063bca, 0x11010b5c, 0x8f659eff, 0xf862ae69, 0x616bffd3, 0x166ccf45,
     0xa00ae278, 0xd70dd2ee, 0x4e048354, 0x3903b3c2, 0xa7672661, 0xd06016f7, 0x4969474d, 0x3e6e77db,
     0xaed16a4a, 0xd9d65adc, 0x40df0b66, 0x37d83bf0, 0xa9bcae53, 0xdebb9ec5, 0x47b2cf7f, 0x30b5ffe9,
     0xbdbdf21c, 0xcabac28a, 0x53b39330, 0x24b4a3a6, 0xbad03605, 0xcdd70693, 0x54de5729, 0x23d967bf,
     0xb3667a2e, 0xc4614ab8, 0x5d681b02, 0x2a6f2b94, 0xb40bbe37, 0xc30c8ea1, 0x5a05df1b, 0x2d02ef8d]"

text \<open>One round of the loop over the bytes of the buffer.\<close>

definition crc32_round :: "u32 \<Rightarrow> u8 \<Rightarrow> u32" where
  "crc32_round crc p = crc32_tab ! unat ((crc XOR ucast p) AND 0xff) XOR drop_bit 8 crc"

definition crc32 :: "u8 list \<Rightarrow> u32" where
  "crc32 buf = foldl crc32_round (NOT 0) buf XOR NOT 0"

section \<open>Bitwise division\<close>

definition crc_shift :: "u32 \<Rightarrow> u32" where
  "crc_shift w = (if bit w 0 then drop_bit 1 w XOR 0xedb88320 else drop_bit 1 w)"

definition crc_byte :: "u32 \<Rightarrow> u8 \<Rightarrow> u32" where
  "crc_byte crc p = (crc_shift ^^ 8) (crc XOR ucast p)"

definition crc32_spec :: "u8 list \<Rightarrow> u32" where
  "crc32_spec buf = NOT (foldl crc_byte (NOT 0) buf)"

lemma crc_shift_xor: "crc_shift (a XOR b) = crc_shift a XOR crc_shift b"
  by (simp add: crc_shift_def bit_simps drop_bit_xor ac_simps)

lemma crc_shift_pow_xor: "(crc_shift ^^ n) (a XOR b) = (crc_shift ^^ n) a XOR (crc_shift ^^ n) b"
  by (induction n arbitrary: a b) (simp_all add: crc_shift_xor)

lemma crc_shift_pow_high:
  "(\<And>i. i < n \<Longrightarrow> \<not> bit w i) \<Longrightarrow> (crc_shift ^^ n) w = drop_bit n w"
proof (induction n arbitrary: w)
  case (Suc n)
  then have "(crc_shift ^^ n) w = drop_bit n w" by simp
  with Suc.prems [of n] show ?case
    by (simp add: crc_shift_def [of "drop_bit n w"] bit_simps drop_bit_drop_bit)
qed simp

text \<open>The table by doubling: the second half of a table of \<open>2 ^ (k + 1)\<close> entries is the first half
  with the entry of \<open>2 ^ k\<close> added, so the eight entries of the powers of two give all of it.\<close>

definition crc_entry :: "nat \<Rightarrow> u32" where
  "crc_entry i = (crc_shift ^^ 8) (word_of_nat i)"

fun crc_double :: "u32 list \<Rightarrow> u32 list \<Rightarrow> u32 list" where
  "crc_double t [] = t"
| "crc_double t (c # cs) = crc_double (t @ map (\<lambda>x. x XOR c) t) cs"

lemma word_of_nat_high: "i < 2 ^ k \<Longrightarrow> word_of_nat (2 ^ k + i) = (word_of_nat i XOR word_of_nat (2 ^ k) :: u32)"
proof -
  assume "i < 2 ^ k"
  then have "\<not> bit i k" by (simp add: bit_iff_odd)
  then have "i AND 2 ^ k = 0" by (intro bit_eqI) (auto simp: bit_and_iff bit_exp_iff)
  then have "2 ^ k + i = i XOR 2 ^ k" by (simp add: disjunctive_add_eq_xor add.commute)
  then show ?thesis by (simp add: of_nat_xor_eq)
qed

lemma crc_entry_double:
  "map crc_entry [0..<2 ^ Suc k] = map crc_entry [0..<2 ^ k] @ map (\<lambda>x. x XOR crc_entry (2 ^ k)) (map crc_entry [0..<2 ^ k])"
proof -
  have "[0..<2 ^ Suc k] = [0..<2 ^ k] @ map (\<lambda>i. 2 ^ k + i) [0..<2 ^ k]"
    using upt_add_eq_append [of 0 "2 ^ k" "2 ^ k"] map_add_upt [of "2 ^ k" "2 ^ k"]
    by (simp add: mult_2 add.commute)
  moreover have "crc_entry (2 ^ k + i) = crc_entry i XOR crc_entry (2 ^ k)" if "i < 2 ^ k" for i
    using that by (simp only: crc_entry_def word_of_nat_high crc_shift_pow_xor)
  ultimately show ?thesis by simp
qed

lemma crc_double_entries:
  "crc_double (map crc_entry [0..<2 ^ k]) (map (\<lambda>j. crc_entry (2 ^ j)) [k..<k + n]) = map crc_entry [0..<2 ^ (k + n)]"
proof (induction n arbitrary: k)
  case (Suc n)
  have "[k..<k + Suc n] = k # [Suc k..<Suc k + n]" by (simp add: upt_conv_Cons)
  with Suc [of "Suc k"] show ?case by (simp only: list.map crc_double.simps crc_entry_double [symmetric] add_Suc_right add_Suc)
qed simp

lemma crc_powers:
  "map (\<lambda>j. crc_entry (2 ^ j)) [0..<8] =
    [0x77073096, 0xee0e612c, 0x076dc419, 0x0edb8832, 0x1db71064, 0x3b6e20c8, 0x76dc4190, 0xedb88320]"
  by code_simp

lemma crc_entry_0: "crc_entry 0 = 0"
  by code_simp

lemma crc32_tab_spec: "crc32_tab = map crc_entry [0..<256]"
proof -
  have "map crc_entry [0..<256] = crc_double [0] (map (\<lambda>j. crc_entry (2 ^ j)) [0..<8])"
    using crc_double_entries [of 0 8] by (simp add: crc_entry_0)
  then show ?thesis unfolding crc_powers by (simp add: crc32_tab_def)
qed

lemma crc_shift_8: "(crc_shift ^^ 8) w = crc32_tab ! unat (w AND 0xff) XOR drop_bit 8 w"
proof -
  let ?lo = "w AND 0xff" and ?hi = "w AND NOT 0xff"
  have split: "w = ?lo XOR ?hi"
    by (rule bit_word_eqI) (auto simp: bit_simps)
  have mask: "(0xff :: u32) = mask 8" by (simp add: mask_eq_exp_minus_1)
  have hi: "(crc_shift ^^ 8) ?hi = drop_bit 8 w"
  proof -
    have "(crc_shift ^^ 8) ?hi = drop_bit 8 ?hi"
      by (rule crc_shift_pow_high) (auto simp: mask bit_simps)
    also have "\<dots> = drop_bit 8 w"
      by (rule bit_word_eqI) (auto simp: mask bit_simps dest: bit_imp_le_length)
    finally show ?thesis .
  qed
  have "unat ?lo < 256"
    unfolding mask using take_bit_nat_less_exp [of 8 "unat w"]
    by (simp flip: take_bit_eq_mask add: unsigned_take_bit_eq)
  then have lo: "crc32_tab ! unat ?lo = (crc_shift ^^ 8) ?lo"
    by (simp add: crc32_tab_spec crc_entry_def)
  have "(crc_shift ^^ 8) w = (crc_shift ^^ 8) ?lo XOR (crc_shift ^^ 8) ?hi"
    by (subst split) (rule crc_shift_pow_xor)
  then show ?thesis by (simp only: lo hi)
qed

lemma crc32_round_spec: "crc32_round = crc_byte"
proof (intro ext)
  fix crc :: u32 and p :: u8
  have "drop_bit 8 (crc XOR ucast p) = drop_bit 8 crc"
    by (rule bit_word_eqI) (auto simp: bit_simps dest: bit_imp_le_length)
  then show "crc32_round crc p = crc_byte crc p"
    by (simp add: crc32_round_def crc_byte_def crc_shift_8)
qed

section \<open>Properties\<close>

text \<open>C32. The table-driven loop computes, for every byte string, the cyclic redundancy check defined
  by bitwise division with the reflected polynomial 0xEDB88320, initial value and final
  complement all ones; in particular every entry of the 256-entry table is right.\<close>

theorem crc32_correct: "crc32 buf = crc32_spec buf"
  by (simp add: crc32_def crc32_spec_def crc32_round_spec)

text \<open>The check value of CRC-32: the nine ASCII digits give 0xCBF43926.\<close>

theorem crc32_check_value: "crc32 [0x31, 0x32, 0x33, 0x34, 0x35, 0x36, 0x37, 0x38, 0x39] = 0xcbf43926"
  by code_simp

end
