(* ===== verification/Wire.thy ===== *)
theory Wire
  imports Prelude
begin

text \<open>
  Model of \<^verbatim>\<open>src/src/wire.c\<close> and \<^verbatim>\<open>src/src/wire.h\<close>: the frame buffer \<^verbatim>\<open>struct buf\<close>, its
  checked reads and writes, length-prefixed strings and type-length-value (TLV) items.
  The buffer is the allocation it points into, the position of \<^verbatim>\<open>data\<close> in it and the length,
  so that stripping and taking only move the window. Undefined behaviour (a signed overflow
  in a bounds check, an access outside the allocation, a \<^verbatim>\<open>memcpy\<close> of negative length) is the
  result \<open>UB\<close>; the lemmas show that it does not occur on a well-formed buffer.
  The locale \<open>wire_field\<close> is the contract of one fixed-width field; it is interpreted for
  each of the six field types.
\<close>

section \<open>Data\<close>

datatype wire_error = OUT_OF_BOUNDS

text \<open>What a wire function returns: a count together with the value stored through the
  pointer argument, the error code, or undefined behaviour.\<close>

datatype 'a wire_result = Ret int 'a | Err wire_error | UB

record buf =
  b_orig :: "u8 list"
  b_data :: nat
  b_len :: int
  b_owned :: bool

text \<open>The content of freshly allocated memory is arbitrary: \<open>junk i\<close> is its \<open>i\<close>-th byte.\<close>

definition buf_new_owned :: "(nat \<Rightarrow> u8) \<Rightarrow> int \<Rightarrow> buf option" where
  "buf_new_owned junk len =
     (if len < 0 then None
      else Some \<lparr>b_orig = map junk [0..<nat len], b_data = 0, b_len = len, b_owned = True\<rparr>)"

text \<open>The argument \<open>ptr\<close> is the memory visible from the given pointer on.\<close>

definition buf_new_const :: "u8 list \<Rightarrow> int \<Rightarrow> buf option" where
  "buf_new_const ptr len =
     (if len < 0 then None
      else Some \<lparr>b_orig = ptr, b_data = 0, b_len = len, b_owned = False\<rparr>)"

text \<open>What \<^verbatim>\<open>buf_free\<close> hands back to the allocator.\<close>

datatype released = Array "u8 list" | Buf

definition buf_free :: "buf \<Rightarrow> released list" where
  "buf_free b = (if b_owned b then [Array (b_orig b)] else []) @ [Buf]"

definition buf_data :: "buf \<Rightarrow> u8 list" where
  "buf_data b = drop (b_data b) (b_orig b)"

definition buf_len :: "buf \<Rightarrow> int" where
  "buf_len b = b_len b"

definition buf_strip :: "buf \<Rightarrow> int \<Rightarrow> buf wire_result" where
  "buf_strip b len =
     (if len > b_len b \<or> len < 0 then Err OUT_OF_BOUNDS
      else Ret len (b\<lparr>b_data := b_data b + nat len, b_len := b_len b - len\<rparr>))"

definition buf_take :: "buf \<Rightarrow> int \<Rightarrow> buf wire_result" where
  "buf_take b len =
     (if len > b_len b \<or> len < 0 then Err OUT_OF_BOUNDS
      else Ret len (b\<lparr>b_len := b_len b - len\<rparr>))"

section \<open>Checked access\<close>

text \<open>The guard \<^verbatim>\<open>offset < 0 || offset + n > buf->len\<close>; \<^term>\<open>None\<close> when its addition
  overflows the type \<^verbatim>\<open>int\<close>.\<close>

definition out_of_bounds :: "buf \<Rightarrow> int \<Rightarrow> int \<Rightarrow> bool option" where
  "out_of_bounds b offset n =
     (if offset < 0 then Some True
      else if int_range (offset + n) then Some (offset + n > b_len b) else None)"

definition guarded_read :: "buf \<Rightarrow> int \<Rightarrow> nat \<Rightarrow> (u8 list \<Rightarrow> 'a) \<Rightarrow> 'a wire_result" where
  "guarded_read b offset n decode =
     (case out_of_bounds b offset (int n) of
        None \<Rightarrow> UB
      | Some True \<Rightarrow> Err OUT_OF_BOUNDS
      | Some False \<Rightarrow>
          (case mem_read (b_orig b) (b_data b + nat offset) n of
             None \<Rightarrow> UB
           | Some bs \<Rightarrow> Ret (int n) (decode bs)))"

definition guarded_write :: "buf \<Rightarrow> int \<Rightarrow> u8 list \<Rightarrow> buf wire_result" where
  "guarded_write b offset bs =
     (case out_of_bounds b offset (int (length bs)) of
        None \<Rightarrow> UB
      | Some True \<Rightarrow> Err OUT_OF_BOUNDS
      | Some False \<Rightarrow>
          (case mem_write (b_orig b) (b_data b + nat offset) bs of
             None \<Rightarrow> UB
           | Some m \<Rightarrow> Ret (int (length bs)) (b\<lparr>b_orig := m\<rparr>)))"

definition write_u8 :: "buf \<Rightarrow> int \<Rightarrow> u8 \<Rightarrow> buf wire_result" where
  "write_u8 b offset v = guarded_write b offset [v]"

definition write_le16 :: "buf \<Rightarrow> int \<Rightarrow> u16 \<Rightarrow> buf wire_result" where
  "write_le16 b offset v = guarded_write b offset (le16_bytes v)"

definition write_be16 :: "buf \<Rightarrow> int \<Rightarrow> u16 \<Rightarrow> buf wire_result" where
  "write_be16 b offset v = guarded_write b offset (be16_bytes v)"

definition write_le32 :: "buf \<Rightarrow> int \<Rightarrow> u32 \<Rightarrow> buf wire_result" where
  "write_le32 b offset v = guarded_write b offset (le32_bytes v)"

definition write_be32 :: "buf \<Rightarrow> int \<Rightarrow> u32 \<Rightarrow> buf wire_result" where
  "write_be32 b offset v = guarded_write b offset (be32_bytes v)"

definition write_ether_addr :: "buf \<Rightarrow> int \<Rightarrow> ether_addr \<Rightarrow> buf wire_result" where
  "write_ether_addr b offset a = guarded_write b offset (ether_bytes a)"

text \<open>\<open>ptr\<close> is the memory visible from the source pointer; the length is not checked for
  being negative, and \<^verbatim>\<open>memcpy\<close> takes it as an unsigned size.\<close>

definition write_bytes :: "buf \<Rightarrow> int \<Rightarrow> u8 list \<Rightarrow> int \<Rightarrow> buf wire_result" where
  "write_bytes b offset ptr len =
     (case out_of_bounds b offset len of
        None \<Rightarrow> UB
      | Some True \<Rightarrow> Err OUT_OF_BOUNDS
      | Some False \<Rightarrow>
          (if len < 0 then UB
           else case mem_read ptr 0 (nat len) of
             None \<Rightarrow> UB
           | Some bs \<Rightarrow>
               (case mem_write (b_orig b) (b_data b + nat offset) bs of
                  None \<Rightarrow> UB
                | Some m \<Rightarrow> Ret len (b\<lparr>b_orig := m\<rparr>))))"

definition read_u8 :: "buf \<Rightarrow> int \<Rightarrow> u8 wire_result" where
  "read_u8 b offset = guarded_read b offset 1 (\<lambda>bs. bs ! 0)"

definition read_le16 :: "buf \<Rightarrow> int \<Rightarrow> u16 wire_result" where
  "read_le16 b offset = guarded_read b offset 2 le16_value"

definition read_be16 :: "buf \<Rightarrow> int \<Rightarrow> u16 wire_result" where
  "read_be16 b offset = guarded_read b offset 2 be16_value"

definition read_le32 :: "buf \<Rightarrow> int \<Rightarrow> u32 wire_result" where
  "read_le32 b offset = guarded_read b offset 4 le32_value"

definition read_be32 :: "buf \<Rightarrow> int \<Rightarrow> u32 wire_result" where
  "read_be32 b offset = guarded_read b offset 4 be32_value"

definition read_ether_addr :: "buf \<Rightarrow> int \<Rightarrow> ether_addr wire_result" where
  "read_ether_addr b offset = guarded_read b offset 6 ether_of_bytes"

text \<open>Returns a pointer into the buffer: the memory visible from there.\<close>

definition read_bytes :: "buf \<Rightarrow> int \<Rightarrow> int \<Rightarrow> u8 list wire_result" where
  "read_bytes b offset len =
     (case out_of_bounds b offset len of
        None \<Rightarrow> UB
      | Some True \<Rightarrow> Err OUT_OF_BOUNDS
      | Some False \<Rightarrow> Ret len (drop (b_data b + nat offset) (b_orig b)))"

definition read_bytes_copy :: "buf \<Rightarrow> int \<Rightarrow> int \<Rightarrow> u8 list wire_result" where
  "read_bytes_copy b offset len =
     (case out_of_bounds b offset len of
        None \<Rightarrow> UB
      | Some True \<Rightarrow> Err OUT_OF_BOUNDS
      | Some False \<Rightarrow>
          (if len < 0 then UB
           else case mem_read (b_orig b) (b_data b + nat offset) (nat len) of
             None \<Rightarrow> UB
           | Some bs \<Rightarrow> Ret len bs))"

text \<open>The macros \<^verbatim>\<open>CHECKED_READ\<close>, \<^verbatim>\<open>BUF_STRIP\<close> and \<^verbatim>\<open>BUF_TAKE\<close>: a negative result jumps to
  the label \<^verbatim>\<open>wire_error\<close> (here the second argument), otherwise control continues with the
  value. The caller's result is \<^term>\<open>None\<close> when its behaviour is undefined.\<close>

definition checked :: "'a wire_result \<Rightarrow> 'r option \<Rightarrow> ('a \<Rightarrow> 'r option) \<Rightarrow> 'r option" where
  "checked r wire_error continue =
     (case r of
        Ret n v \<Rightarrow> if n < 0 then wire_error else continue v
      | Err e \<Rightarrow> wire_error
      | UB \<Rightarrow> None)"

text \<open>\<open>str\<close> is the destination array before the call.\<close>

definition read_int_string :: "buf \<Rightarrow> int \<Rightarrow> u8 list \<Rightarrow> int \<Rightarrow> u8 list wire_result" where
  "read_int_string b offset str max_len =
     (case read_u8 b offset of
        UB \<Rightarrow> UB
      | Err e \<Rightarrow> Err e
      | Ret _ n \<Rightarrow>
          (let n = (if int (unat n) > max_len then word_of_int max_len else n) in
           case read_bytes_copy b (offset + 1) (int (unat n)) of
             UB \<Rightarrow> UB
           | Err e \<Rightarrow> Err e
           | Ret _ bs \<Rightarrow>
               (if unat n < length str
                then Ret (int (unat n) + 1) (bs @ 0 # drop (unat n + 1) str)
                else UB)))"

definition read_tlv :: "buf \<Rightarrow> int \<Rightarrow> (u8 \<times> u16 \<times> u8 list) wire_result" where
  "read_tlv b offset =
     (case read_u8 b offset of
        UB \<Rightarrow> UB
      | Err e \<Rightarrow> Err e
      | Ret _ t \<Rightarrow>
          (case read_le16 b (offset + 1) of
             UB \<Rightarrow> UB
           | Err e \<Rightarrow> Err e
           | Ret _ len \<Rightarrow>
               (case read_bytes b (offset + 3) (int (unat len)) of
                  UB \<Rightarrow> UB
                | Err e \<Rightarrow> Err e
                | Ret _ val \<Rightarrow> Ret (int (unat len) + 3) (t, len, val))))"

section \<open>Well-formed buffers\<close>

text \<open>The window lies in the allocation; its bytes are what the owner of the buffer sees.\<close>

definition buf_wf :: "buf \<Rightarrow> bool" where
  "buf_wf b \<longleftrightarrow> 0 \<le> b_len b \<and> b_len b \<le> INT_MAX \<and> b_data b + nat (b_len b) \<le> length (b_orig b)"

definition buf_bytes :: "buf \<Rightarrow> u8 list" where
  "buf_bytes b = take (nat (b_len b)) (drop (b_data b) (b_orig b))"

lemma length_buf_bytes: "buf_wf b \<Longrightarrow> int (length (buf_bytes b)) = b_len b"
  by (auto simp: buf_wf_def buf_bytes_def)

lemma nat_b_len: "buf_wf b \<Longrightarrow> nat (b_len b) = length (buf_bytes b)"
  using length_buf_bytes by fastforce

lemma b_len_eq [wire_simps]: "buf_wf b \<Longrightarrow> b_len b = int (length (buf_bytes b))"
  by (simp add: length_buf_bytes)

lemma buf_len_wf [wire_simps]: "buf_wf b \<Longrightarrow> buf_len b = int (length (buf_bytes b))"
  by (simp add: buf_len_def length_buf_bytes)

lemma length_buf_bytes_le: "buf_wf b \<Longrightarrow> int (length (buf_bytes b)) \<le> INT_MAX"
  by (auto simp: buf_wf_def buf_bytes_def)

lemma take_buf_data: "buf_wf b \<Longrightarrow> n \<le> length (buf_bytes b) \<Longrightarrow> take n (buf_data b) = take n (buf_bytes b)"
  by (auto simp: buf_data_def buf_bytes_def)

lemma drop_buf_data:
  assumes "buf_wf b" and "i + n \<le> length (buf_bytes b)"
  shows "take n (drop i (buf_bytes b)) = take n (drop i (buf_data b))"
proof -
  have "i + n \<le> nat (b_len b)" using assms by (simp add: nat_b_len)
  then show ?thesis by (simp add: buf_bytes_def buf_data_def take_drop_window)
qed

lemma buf_new_owned_wf: "buf_new_owned junk len = Some b \<Longrightarrow> len \<le> INT_MAX \<Longrightarrow> buf_wf b"
  by (auto simp: buf_new_owned_def buf_wf_def split: if_splits)

lemma buf_new_const_wf:
  "buf_new_const ptr len = Some b \<Longrightarrow> nat len \<le> length ptr \<Longrightarrow> len \<le> INT_MAX \<Longrightarrow>
   buf_wf b \<and> buf_bytes b = take (nat len) ptr"
  by (auto simp: buf_new_const_def buf_wf_def buf_bytes_def split: if_splits)

lemma buf_strip_len: "buf_strip b n = Ret r b' \<Longrightarrow> r = n \<and> 0 \<le> n \<and> n \<le> b_len b \<and> b_len b' = b_len b - n"
  by (auto simp: buf_strip_def split: if_splits)

lemma buf_strip_wf:
  "buf_wf b \<Longrightarrow> buf_strip b len = Ret r b' \<Longrightarrow>
   r = len \<and> buf_wf b' \<and> buf_bytes b' = drop (nat len) (buf_bytes b)"
  by (auto simp: buf_strip_def buf_wf_def buf_bytes_def take_drop nat_diff_distrib add.commute
 split: if_splits)

lemma buf_take_wf:
  "buf_wf b \<Longrightarrow> buf_take b len = Ret r b' \<Longrightarrow>
   r = len \<and> buf_wf b' \<and> buf_bytes b' = take (length (buf_bytes b) - nat len) (buf_bytes b)"
  by (auto simp: buf_take_def buf_wf_def buf_bytes_def nat_diff_distrib split: if_splits)


section \<open>Reads and writes on well-formed buffers\<close>

lemma guarded_read_wf [wire_simps]:
  assumes "buf_wf b" and "0 \<le> offset" and "offset + int n \<le> INT_MAX"
  shows "guarded_read b offset n decode =
    (if nat offset + n \<le> length (buf_bytes b)
     then Ret (int n) (decode (take n (drop (nat offset) (buf_bytes b)))) else Err OUT_OF_BOUNDS)"
proof -
  have fits: "offset + int n > b_len b \<longleftrightarrow> \<not> nat offset + n \<le> length (buf_bytes b)"
    using assms length_buf_bytes [of b] by linarith
  have bytes: "mem_read (b_orig b) (b_data b + nat offset) n = Some (take n (drop (nat offset) (buf_bytes b)))"
    if "nat offset + n \<le> length (buf_bytes b)"
  proof -
    from that assms(1) have "nat offset + n \<le> nat (b_len b)" by (simp add: nat_b_len)
    with assms(1) show ?thesis
      by (simp add: mem_read_def buf_wf_def buf_bytes_def take_drop_window add.commute)
  qed
  show ?thesis
    using assms fits bytes by (auto simp: guarded_read_def out_of_bounds_def int_range_simps)
qed

lemma guarded_write_Ret:
  assumes "buf_wf b" and "guarded_write b offset bs = Ret n b'"
  shows "n = int (length bs)" and "0 \<le> offset" and "nat offset + length bs \<le> length (buf_bytes b)"
    and "buf_wf b'"
    and "buf_bytes b' = take (nat offset) (buf_bytes b) @ bs @ drop (nat offset + length bs) (buf_bytes b)"
proof -
  from assms(2) obtain m where oob: "out_of_bounds b offset (int (length bs)) = Some False"
    and m: "mem_write (b_orig b) (b_data b + nat offset) bs = Some m"
    and b': "b' = b\<lparr>b_orig := m\<rparr>" and n: "n = int (length bs)"
    by (auto simp: guarded_write_def split: option.splits bool.splits)
  from oob show off: "0 \<le> offset" by (auto simp: out_of_bounds_def split: if_splits)
  from oob have le: "offset + int (length bs) \<le> b_len b"
    by (auto simp: out_of_bounds_def split: if_splits)
  with off assms(1) show fits: "nat offset + length bs \<le> length (buf_bytes b)"
    using length_buf_bytes [of b] by linarith
  from m have len: "length m = length (b_orig b)" by (rule mem_write_length)
  from assms(1) len show "buf_wf b'" by (simp add: b' buf_wf_def)
  from m have m_eq: "m = take (b_data b + nat offset) (b_orig b) @ bs @
      drop (b_data b + nat offset + length bs) (b_orig b)"
    by (auto simp: mem_write_def split: if_splits)
  define rest where "rest = drop (b_data b) (b_orig b)"
  have "nat offset + length bs \<le> length rest"
    using fits by (simp add: buf_bytes_def rest_def)
  moreover have "drop (b_data b) m = take (nat offset) rest @ bs @ drop (nat offset + length bs) rest"
    using m unfolding m_eq
    by (simp add: rest_def drop_take mem_write_def ac_simps split: if_splits)
  ultimately show "buf_bytes b' = take (nat offset) (buf_bytes b) @ bs @ drop (nat offset + length bs) (buf_bytes b)"
    using le off by (simp add: b' buf_bytes_def rest_def [symmetric] patch_window drop_take)
  show "n = int (length bs)" by (rule n)
qed

lemma guarded_write_wf:
  assumes "buf_wf b" and "0 \<le> offset" and "offset + int (length bs) \<le> INT_MAX"
  shows "guarded_write b offset bs = Err OUT_OF_BOUNDS \<and> length (buf_bytes b) < nat offset + length bs \<or>
    (\<exists>b'. guarded_write b offset bs = Ret (int (length bs)) b' \<and> buf_wf b' \<and>
       buf_bytes b' = take (nat offset) (buf_bytes b) @ bs @ drop (nat offset + length bs) (buf_bytes b))"
proof -
  have "guarded_write b offset bs \<noteq> UB"
    using assms length_buf_bytes [of b]
    by (auto simp: guarded_write_def out_of_bounds_def int_range_simps mem_write_def buf_wf_def
        split: option.splits bool.splits)
  moreover have "length (buf_bytes b) < nat offset + length bs" if "guarded_write b offset bs = Err e" for e
    using that assms length_buf_bytes [of b]
    by (auto simp: guarded_write_def out_of_bounds_def split: option.splits bool.splits if_splits)
  moreover have "e = OUT_OF_BOUNDS" for e by (cases e)
  ultimately show ?thesis
    by (cases "guarded_write b offset bs") (auto dest: guarded_write_Ret(1,4,5) [OF assms(1)])
qed


section \<open>The contract of a field\<close>

text \<open>What every fixed-width field type promises its users.\<close>

locale wire_field =
  fixes rd :: "buf \<Rightarrow> int \<Rightarrow> 'a wire_result"
    and wr :: "buf \<Rightarrow> int \<Rightarrow> 'a \<Rightarrow> buf wire_result"
    and encode :: "'a \<Rightarrow> u8 list"
    and decode :: "u8 list \<Rightarrow> 'a"
    and width :: nat
  assumes rd_guarded: "rd b offset = guarded_read b offset width decode"
    and wr_guarded: "wr b offset v = guarded_write b offset (encode v)"
    and encode_width: "length (encode v) = width"
    and decode_encode: "decode (encode v) = v"
begin

lemma read_wf:
  assumes "buf_wf b" and "0 \<le> offset" and "offset + int width \<le> INT_MAX"
  shows "rd b offset =
    (if nat offset + width \<le> length (buf_bytes b)
     then Ret (int width) (decode (take width (drop (nat offset) (buf_bytes b)))) else Err OUT_OF_BOUNDS)"
  using assms by (simp add: rd_guarded guarded_read_wf)

lemma checked_read_wf:
  assumes "buf_wf b" and "0 \<le> offset" and "offset + int width \<le> INT_MAX"
  shows "checked (rd b offset) err continue =
    (if nat offset + width \<le> length (buf_bytes b)
     then continue (decode (take width (drop (nat offset) (buf_bytes b)))) else err)"
  using assms by (simp add: checked_def read_wf)

lemma read_negative: "offset < 0 \<Longrightarrow> rd b offset = Err OUT_OF_BOUNDS"
  by (simp add: rd_guarded guarded_read_def out_of_bounds_def)

lemma write_negative: "offset < 0 \<Longrightarrow> wr b offset v = Err OUT_OF_BOUNDS"
  by (simp add: wr_guarded guarded_write_def out_of_bounds_def)

lemma read_defined: "buf_wf b \<Longrightarrow> offset + int width \<le> INT_MAX \<Longrightarrow> rd b offset \<noteq> UB"
  by (cases "offset < 0") (simp_all add: read_negative read_wf)

lemma write_wf:
  assumes "buf_wf b" and "wr b offset v = Ret n b'"
  shows "n = int width" and "buf_wf b'" and "0 \<le> offset"
    and "nat offset + width \<le> length (buf_bytes b)"
    and "buf_bytes b' = take (nat offset) (buf_bytes b) @ encode v @ drop (nat offset + width) (buf_bytes b)"
  using guarded_write_Ret [OF assms(1), of offset "encode v" n b'] assms(2)
  by (simp_all add: wr_guarded encode_width)

lemma write_succeeds:
  assumes "buf_wf b" and "0 \<le> offset" and "nat offset + width \<le> length (buf_bytes b)"
  shows "\<exists>b'. wr b offset v = Ret (int width) b'"
proof -
  have "offset + int width \<le> INT_MAX"
    using assms length_buf_bytes_le [OF assms(1)] by linarith
  then show ?thesis
    using guarded_write_wf [OF assms(1,2), of "encode v"] assms(3) by (auto simp: wr_guarded encode_width)
qed

lemma read_back:
  assumes "buf_wf b" and "wr b offset v = Ret n b'"
  shows "rd b' offset = Ret n v"
proof -
  note w = write_wf [OF assms]
  have "length (buf_bytes b') = length (buf_bytes b)"
    using w(3,4) by (simp add: w(5) encode_width)
  moreover have "offset + int width \<le> INT_MAX"
    using w(3,4) length_buf_bytes_le [OF assms(1)] by linarith
  moreover have "take width (drop (nat offset) (buf_bytes b')) = encode v"
    using w(4) by (simp add: w(5) encode_width)
  ultimately show ?thesis
    using w by (simp add: read_wf decode_encode)
qed

lemma write_frame:
  assumes "buf_wf b" and "wr b offset v = Ret n b'"
    and "j + k \<le> nat offset \<or> nat offset + width \<le> j"
  shows "take k (drop j (buf_bytes b')) = take k (drop j (buf_bytes b))"
proof -
  note w = write_wf [OF assms(1,2)]
  have "mem_write (buf_bytes b) (nat offset) (encode v) = Some (buf_bytes b')"
    using w(4) by (simp add: w(5) mem_write_def encode_width)
  note e = mem_read_elsewhere [OF this, of j "min k (length (buf_bytes b) - j)"]
  have len: "length (buf_bytes b') = length (buf_bytes b)"
    using w(3,4) by (simp add: w(5) encode_width)
  show ?thesis
  proof (cases "j \<le> length (buf_bytes b)")
    case True
    have "mem_read (buf_bytes b') j (min k (length (buf_bytes b) - j)) =
        mem_read (buf_bytes b) j (min k (length (buf_bytes b) - j))"
      using assms(3) e by (simp add: encode_width) linarith
    moreover have "take (min k (length (buf_bytes b) - j)) (drop j xs) = take k (drop j xs)"
      if "length xs = length (buf_bytes b)" for xs :: "u8 list"
      using that by (simp add: min_def)
    ultimately show ?thesis
      using True len by (simp add: mem_read_def min_def split: if_splits)
  qed (simp add: len)
qed

lemma write_spec:
  assumes "buf_wf b" and "wr b offset v = Ret n b'"
  shows "n = int width \<and> rd b' offset = Ret n v \<and> buf_wf b' \<and>
    (\<forall>j k. j + k \<le> nat offset \<or> nat offset + width \<le> j \<longrightarrow>
      take k (drop j (buf_bytes b')) = take k (drop j (buf_bytes b)))"
  using write_wf(1,2) [OF assms] read_back [OF assms] write_frame [OF assms] by blast

lemma read_exact:
  assumes "buf_wf b" and "offset + int width \<le> INT_MAX"
  shows "rd b offset =
    (if 0 \<le> offset \<and> offset + int width \<le> int (length (buf_bytes b))
     then Ret (int width) (decode (take width (drop (nat offset) (buf_bytes b)))) else Err OUT_OF_BOUNDS)"
proof (cases "offset < 0")
  case False
  then have "nat offset + width \<le> length (buf_bytes b) \<longleftrightarrow> offset + int width \<le> int (length (buf_bytes b))"
    by linarith
  with False show ?thesis by (simp add: read_wf [OF assms(1) _ assms(2)])
qed (simp add: read_negative)

end

interpretation field_u8: wire_field read_u8 write_u8 "\<lambda>v. [v]" "\<lambda>bs. bs ! 0" 1
  by unfold_locales (simp_all add: read_u8_def write_u8_def)

interpretation field_le16: wire_field read_le16 write_le16 le16_bytes le16_value 2
  by unfold_locales (simp_all add: read_le16_def write_le16_def)

interpretation field_be16: wire_field read_be16 write_be16 be16_bytes be16_value 2
  by unfold_locales (simp_all add: read_be16_def write_be16_def)

interpretation field_le32: wire_field read_le32 write_le32 le32_bytes le32_value 4
  by unfold_locales (simp_all add: read_le32_def write_le32_def)

interpretation field_be32: wire_field read_be32 write_be32 be32_bytes be32_value 4
  by unfold_locales (simp_all add: read_be32_def write_be32_def)

interpretation field_ether: wire_field read_ether_addr write_ether_addr ether_bytes ether_of_bytes 6
  by unfold_locales (simp_all add: read_ether_addr_def write_ether_addr_def)

lemmas checked_fields [wire_simps] =
  field_u8.checked_read_wf field_le16.checked_read_wf field_be16.checked_read_wf
  field_le32.checked_read_wf field_be32.checked_read_wf field_ether.checked_read_wf


section \<open>Byte strings, TLVs and length-prefixed strings\<close>

lemma bytes_fit:
  "buf_wf b \<Longrightarrow> 0 \<le> offset \<Longrightarrow> 0 \<le> len \<Longrightarrow>
   offset + len > b_len b \<longleftrightarrow> length (buf_bytes b) < nat offset + nat len"
  using length_buf_bytes [of b] by linarith

lemma read_bytes_wf [wire_simps]:
  assumes "buf_wf b" and "0 \<le> offset" and "0 \<le> len" and "offset + len \<le> INT_MAX"
  shows "read_bytes b offset len =
    (if nat offset + nat len \<le> length (buf_bytes b)
     then Ret len (drop (nat offset) (buf_data b)) else Err OUT_OF_BOUNDS)"
  using assms bytes_fit [OF assms(1-3)]
  by (simp add: read_bytes_def out_of_bounds_def int_range_simps buf_data_def add.commute not_less)

lemma read_bytes_copy_wf [wire_simps]:
  assumes "buf_wf b" and "0 \<le> offset" and "0 \<le> len" and "offset + len \<le> INT_MAX"
  shows "read_bytes_copy b offset len =
    (if nat offset + nat len \<le> length (buf_bytes b)
     then Ret len (take (nat len) (drop (nat offset) (buf_bytes b))) else Err OUT_OF_BOUNDS)"
proof -
  have "read_bytes_copy b offset len =
      (case guarded_read b offset (nat len) id of Ret n v \<Rightarrow> Ret len v | Err e \<Rightarrow> Err e | UB \<Rightarrow> UB)"
    using assms by (simp add: read_bytes_copy_def guarded_read_def split: option.split bool.split)
  then show ?thesis using assms by (simp add: guarded_read_wf)
qed

lemma checked_read_bytes [wire_simps]:
  assumes "buf_wf b" and "0 \<le> offset" and "0 \<le> len" and "offset + len \<le> INT_MAX"
  shows "checked (read_bytes b offset len) err continue =
    (if nat offset + nat len \<le> length (buf_bytes b) then continue (drop (nat offset) (buf_data b)) else err)"
    and "checked (read_bytes_copy b offset len) err continue =
    (if nat offset + nat len \<le> length (buf_bytes b)
     then continue (take (nat len) (drop (nat offset) (buf_bytes b))) else err)"
  using assms by (simp_all add: checked_def read_bytes_wf read_bytes_copy_wf)

lemma checked_buf_strip [wire_simps]:
  "buf_wf b \<Longrightarrow> checked (buf_strip b (int n)) err continue =
    (if n \<le> length (buf_bytes b)
     then continue (b\<lparr>b_data := b_data b + n, b_len := b_len b - int n\<rparr>) else err)"
  by (simp add: checked_def buf_strip_def b_len_eq)

lemma stripped_wf:
  assumes "buf_wf b" and "n \<le> length (buf_bytes b)"
  shows "buf_wf (b\<lparr>b_data := b_data b + n, b_len := b_len b - int n\<rparr>)"
    and "buf_bytes (b\<lparr>b_data := b_data b + n, b_len := b_len b - int n\<rparr>) = drop n (buf_bytes b)"
proof -
  have "buf_strip b (int n) = Ret (int n) (b\<lparr>b_data := b_data b + n, b_len := b_len b - int n\<rparr>)"
    using assms by (simp add: buf_strip_def b_len_eq)
  from buf_strip_wf [OF assms(1) this]
  show "buf_wf (b\<lparr>b_data := b_data b + n, b_len := b_len b - int n\<rparr>)"
    and "buf_bytes (b\<lparr>b_data := b_data b + n, b_len := b_len b - int n\<rparr>) = drop n (buf_bytes b)"
    by simp_all
qed

lemma buf_strip_ok:
  assumes "buf_wf b" and "n \<le> length (buf_bytes b)"
  shows "\<exists>b'. buf_strip b (int n) = Ret (int n) b' \<and> buf_wf b' \<and> buf_bytes b' = drop n (buf_bytes b)"
  using assms stripped_wf [OF assms] by (simp add: buf_strip_def b_len_eq)

text \<open>Specification of a TLV: one type byte, a little-endian length, the value.\<close>

definition tlv_bytes :: "u8 \<Rightarrow> u8 list \<Rightarrow> u8 list" where
  "tlv_bytes t v = t # le16_bytes (of_nat (length v)) @ v"

definition tlv_view :: "u8 list \<Rightarrow> (u8 \<times> u8 list \<times> u8 list) option" where
  "tlv_view bs =
     (if length bs < 3 then None
      else let n = unat (le16_value (take 2 (drop 1 bs))) in
        if length bs < 3 + n then None
        else Some (bs ! 0, take n (drop 3 bs), drop (3 + n) bs))"

lemma tlv_view_bytes:
  assumes "length v < 65536"
  shows "tlv_view (tlv_bytes t v @ rest) = Some (t, v, rest)"
proof -
  have "take 2 (drop 1 (tlv_bytes t v @ rest)) = le16_bytes (of_nat (length v))"
    by (simp add: tlv_bytes_def)
  moreover have "drop 3 (tlv_bytes t v @ rest) = v @ rest"
    by (simp add: tlv_bytes_def le16_bytes_def numeral_3_eq_3)
  moreover have "unat (of_nat (length v) :: u16) = length v"
    using assms by (simp add: unat_of_nat)
  ultimately show ?thesis
    by (simp add: tlv_view_def Let_def drop_drop [symmetric] del: drop_drop)
      (simp add: tlv_bytes_def)
qed

lemma tlv_view_shrinks: "tlv_view bs = Some (t, v, rest) \<Longrightarrow> length rest < length bs"
  by (auto simp: tlv_view_def Let_def split: if_splits)

lemma tlv_view_length: "tlv_view bs = Some (t, v, rest) \<Longrightarrow>
    length v < 65536 \<and> length bs = 3 + length v + length rest"
  using unat_u16_less [of "le16_value (take 2 (drop 1 bs))"]
  by (auto simp: tlv_view_def Let_def split: if_splits)

lemma tlv_view_rest: "tlv_view bs = Some (t, v, rest) \<Longrightarrow> rest = drop (3 + length v) bs"
  by (auto simp: tlv_view_def Let_def split: if_splits)

lemma read_tlv_None:
  assumes "buf_wf b" and "tlv_view (buf_bytes b) = None"
  shows "read_tlv b 0 = Err OUT_OF_BOUNDS"
proof -
  have "int (unat l) + 3 \<le> INT_MAX" for l :: u16
    using int_unat_u16 [of l] unfolding INT_MAX_def by linarith
  then show ?thesis
    using assms
    by (auto simp: read_tlv_def field_u8.read_wf field_le16.read_wf read_bytes_wf INT_MAX_def
        tlv_view_def Let_def add.commute split: if_splits)
qed

lemma read_tlv_Some:
  assumes "buf_wf b" and "tlv_view (buf_bytes b) = Some (t, v, rest)"
  shows "read_tlv b 0 = Ret (int (length v) + 3) (t, of_nat (length v), drop 3 (buf_data b))"
    and "take (length v) (drop 3 (buf_data b)) = v" and "length v \<le> length (drop 3 (buf_data b))"
proof -
  have max: "int (unat l) + 3 \<le> INT_MAX" for l :: u16
    using int_unat_u16 [of l] unfolding INT_MAX_def by linarith
  from assms(2) have len: "3 + length v \<le> length (buf_bytes b)"
    and n: "unat (le16_value (take 2 (drop 1 (buf_bytes b)))) = length v"
    and t: "buf_bytes b ! 0 = t" and v: "v = take (length v) (drop 3 (buf_bytes b))"
    by (auto simp: tlv_view_def Let_def split: if_splits)
  from n have n': "le16_value (take 2 (drop 1 (buf_bytes b))) = of_nat (length v)"
    by (simp flip: n)
  show "read_tlv b 0 = Ret (int (length v) + 3) (t, of_nat (length v), drop 3 (buf_data b))"
    using assms(1) len n n' t max [of "of_nat (length v)"]
    by (simp add: read_tlv_def field_u8.read_wf field_le16.read_wf read_bytes_wf INT_MAX_def add.commute)
  show "take (length v) (drop 3 (buf_data b)) = v"
    by (subst v) (rule drop_buf_data [OF assms(1) len, symmetric])
  show "length v \<le> length (drop 3 (buf_data b))"
    using len by (auto simp: buf_data_def buf_bytes_def)
qed

lemma read_int_string_wf [wire_simps]:
  assumes "buf_wf b" and "0 \<le> offset" and "0 \<le> max_len" and "max_len < 256"
    and "nat max_len < length str" and "offset + 257 \<le> INT_MAX"
  shows "read_int_string b offset str max_len =
    (let i = nat offset; n = min (unat (buf_bytes b ! i)) (nat max_len) in
     if i < length (buf_bytes b) \<and> i + 1 + n \<le> length (buf_bytes b)
     then Ret (int n + 1) (take n (drop (i + 1) (buf_bytes b)) @ 0 # drop (n + 1) str)
     else Err OUT_OF_BOUNDS)"
proof (cases "nat offset < length (buf_bytes b)")
  case False
  with assms show ?thesis by (simp add: read_int_string_def field_u8.read_wf INT_MAX_def)
next
  case True
  define c where "c = buf_bytes b ! nat offset"
  define n where "n = (if int (unat c) > max_len then word_of_int max_len else c)"
  have n: "unat n = min (unat c) (nat max_len)"
  proof (cases "int (unat c) > max_len")
    case True
    then have "nat max_len \<le> unat c" by linarith
    with True assms(3,4) show ?thesis by (simp add: n_def unat_word_of_int_u8)
  next
    case False
    then have "unat c \<le> nat max_len" by linarith
    with False show ?thesis by (simp add: n_def)
  qed
  have c: "read_u8 b offset = Ret 1 c"
    using True assms by (simp add: field_u8.read_wf c_def)
  have r: "read_bytes_copy b (offset + 1) (int (unat n)) =
    (if nat offset + 1 + unat n \<le> length (buf_bytes b)
     then Ret (int (unat n)) (take (unat n) (drop (nat offset + 1) (buf_bytes b))) else Err OUT_OF_BOUNDS)"
    using assms n unat_u8_less [of n] by (subst read_bytes_copy_wf) (auto simp: nat_add_distrib)
  have lt: "unat n < length str" using n assms(5) by simp
  show ?thesis
    unfolding read_int_string_def c wire_result.case Let_def n_def [symmetric] r c_def [symmetric] n [symmetric]
    using True lt by simp
qed


section \<open>Properties\<close>

text \<open>A concrete buffer for the witnesses: twelve owned bytes.\<close>

definition sample_buf :: buf where
  "sample_buf = \<lparr>b_orig = [1, 2, 3, 4, 5, 6, 7, 8, 9, 10, 11, 12], b_data = 1, b_len = 10, b_owned = True\<rparr>"

lemma sample_buf_wf: "buf_wf sample_buf"
  by (simp add: sample_buf_def buf_wf_def INT_MAX_def)

text \<open>C33. Whenever a write of any of the six field types succeeds, reading the field back at the
  same offset returns the value written and the field's width, the buffer stays well formed, and
  every byte range outside the field is unchanged.\<close>

theorem wire_write_read:
  assumes "buf_wf b"
  shows
   "(\<forall>v n b'. write_u8 b i v = Ret n b' \<longrightarrow> n = 1 \<and> read_u8 b' i = Ret n v \<and> buf_wf b' \<and>
       (\<forall>j k. j + k \<le> nat i \<or> nat i + 1 \<le> j \<longrightarrow> take k (drop j (buf_bytes b')) = take k (drop j (buf_bytes b)))) \<and>
    (\<forall>v n b'. write_le16 b i v = Ret n b' \<longrightarrow> n = 2 \<and> read_le16 b' i = Ret n v \<and> buf_wf b' \<and>
       (\<forall>j k. j + k \<le> nat i \<or> nat i + 2 \<le> j \<longrightarrow> take k (drop j (buf_bytes b')) = take k (drop j (buf_bytes b)))) \<and>
    (\<forall>v n b'. write_be16 b i v = Ret n b' \<longrightarrow> n = 2 \<and> read_be16 b' i = Ret n v \<and> buf_wf b' \<and>
       (\<forall>j k. j + k \<le> nat i \<or> nat i + 2 \<le> j \<longrightarrow> take k (drop j (buf_bytes b')) = take k (drop j (buf_bytes b)))) \<and>
    (\<forall>v n b'. write_le32 b i v = Ret n b' \<longrightarrow> n = 4 \<and> read_le32 b' i = Ret n v \<and> buf_wf b' \<and>
       (\<forall>j k. j + k \<le> nat i \<or> nat i + 4 \<le> j \<longrightarrow> take k (drop j (buf_bytes b')) = take k (drop j (buf_bytes b)))) \<and>
    (\<forall>v n b'. write_be32 b i v = Ret n b' \<longrightarrow> n = 4 \<and> read_be32 b' i = Ret n v \<and> buf_wf b' \<and>
       (\<forall>j k. j + k \<le> nat i \<or> nat i + 4 \<le> j \<longrightarrow> take k (drop j (buf_bytes b')) = take k (drop j (buf_bytes b)))) \<and>
    (\<forall>a n b'. write_ether_addr b i a = Ret n b' \<longrightarrow> n = 6 \<and> read_ether_addr b' i = Ret n a \<and> buf_wf b' \<and>
       (\<forall>j k. j + k \<le> nat i \<or> nat i + 6 \<le> j \<longrightarrow> take k (drop j (buf_bytes b')) = take k (drop j (buf_bytes b))))"
  using field_u8.write_spec [OF assms, of i] field_le16.write_spec [OF assms, of i]
    field_be16.write_spec [OF assms, of i] field_le32.write_spec [OF assms, of i]
    field_be32.write_spec [OF assms, of i] field_ether.write_spec [OF assms, of i]
  by (auto simp del: take_drop)

theorem wire_write_read_witness:
  "\<exists>b'. write_le32 sample_buf 3 0xdeadbeef = Ret 4 b' \<and> read_le32 b' 3 = Ret 4 0xdeadbeef"
proof -
  obtain b' where w: "write_le32 sample_buf 3 0xdeadbeef = Ret 4 b'"
    using field_le32.write_succeeds [OF sample_buf_wf, of 3 "0xdeadbeef"]
    by (auto simp: sample_buf_def buf_bytes_def)
  then have "read_le32 b' 3 = Ret 4 0xdeadbeef"
    using wire_write_read [OF sample_buf_wf, of 3] by blast
  with w show ?thesis by blast
qed

text \<open>On a well-formed buffer and for every offset whose end does not overflow \<^verbatim>\<open>int\<close>, each
  fixed-width read has defined behaviour: it fails with the out-of-bounds code exactly when the
  field does not lie inside the buffer, and otherwise returns the bytes at that offset decoded in
  the field's byte order.\<close>

theorem wire_reads_exact:
  assumes "buf_wf b" and "i + 6 \<le> INT_MAX"
  shows
   "read_u8 b i = (if 0 \<le> i \<and> i + 1 \<le> int (length (buf_bytes b))
      then Ret 1 (buf_bytes b ! nat i) else Err OUT_OF_BOUNDS) \<and>
    read_le16 b i = (if 0 \<le> i \<and> i + 2 \<le> int (length (buf_bytes b))
      then Ret 2 (le16_value (take 2 (drop (nat i) (buf_bytes b)))) else Err OUT_OF_BOUNDS) \<and>
    read_be16 b i = (if 0 \<le> i \<and> i + 2 \<le> int (length (buf_bytes b))
      then Ret 2 (be16_value (take 2 (drop (nat i) (buf_bytes b)))) else Err OUT_OF_BOUNDS) \<and>
    read_le32 b i = (if 0 \<le> i \<and> i + 4 \<le> int (length (buf_bytes b))
      then Ret 4 (le32_value (take 4 (drop (nat i) (buf_bytes b)))) else Err OUT_OF_BOUNDS) \<and>
    read_be32 b i = (if 0 \<le> i \<and> i + 4 \<le> int (length (buf_bytes b))
      then Ret 4 (be32_value (take 4 (drop (nat i) (buf_bytes b)))) else Err OUT_OF_BOUNDS) \<and>
    read_ether_addr b i = (if 0 \<le> i \<and> i + 6 \<le> int (length (buf_bytes b))
      then Ret 6 (ether_of_bytes (take 6 (drop (nat i) (buf_bytes b)))) else Err OUT_OF_BOUNDS)"
  using field_u8.read_exact [OF assms(1), of i] field_le16.read_exact [OF assms(1), of i]
    field_be16.read_exact [OF assms(1), of i] field_le32.read_exact [OF assms(1), of i]
    field_be32.read_exact [OF assms(1), of i] field_ether.read_exact [OF assms(1), of i] assms(2)
  by auto

theorem wire_reads_exact_witness:
  "read_be16 sample_buf 8 = Ret 2 0x0a0b \<and> read_le32 sample_buf 7 = Err OUT_OF_BOUNDS"
  using wire_reads_exact [OF sample_buf_wf, of 8] wire_reads_exact [OF sample_buf_wf, of 7]
  by (simp add: sample_buf_def buf_bytes_def INT_MAX_def be16_value_def)

text \<open>A TLV laid out as type, little-endian length and value at the front of a buffer is read
  back exactly: \<^verbatim>\<open>read_tlv\<close> returns its type, its length and a pointer to its value, and the
  returned count is the offset of the next TLV.\<close>

theorem read_tlv_round_trip:
  assumes "buf_wf b" and "buf_bytes b = tlv_bytes t v @ rest" and "length v < 65536"
  shows "\<exists>ptr b'. read_tlv b 0 = Ret (int (length v) + 3) (t, of_nat (length v), ptr) \<and>
    take (length v) ptr = v \<and> buf_strip b (int (length v) + 3) = Ret (int (length v) + 3) b' \<and>
    buf_wf b' \<and> buf_bytes b' = rest"
proof -
  have view: "tlv_view (buf_bytes b) = Some (t, v, rest)"
    unfolding assms(2) using assms(3) by (rule tlv_view_bytes)
  have "length v + 3 \<le> length (buf_bytes b)" using tlv_view_length [OF view] by simp
  from buf_strip_ok [OF assms(1) this] obtain b' where
    "buf_strip b (int (length v) + 3) = Ret (int (length v) + 3) b'" "buf_wf b'"
    "buf_bytes b' = drop (3 + length v) (buf_bytes b)"
    by (auto simp: add.commute)
  then show ?thesis
    using read_tlv_Some [OF assms(1) view] tlv_view_rest [OF view] by auto
qed

definition sample_tlv :: buf where
  "sample_tlv = \<lparr>b_orig = [21, 2, 0, 0x34, 1, 99], b_data = 0, b_len = 6, b_owned = False\<rparr>"

theorem read_tlv_round_trip_witness:
  "\<exists>ptr b'. read_tlv sample_tlv 0 = Ret 5 (21, 2, ptr) \<and> take 2 ptr = [0x34, 1] \<and>
    buf_strip sample_tlv 5 = Ret 5 b' \<and> buf_wf b' \<and> buf_bytes b' = [99]"
proof -
  have "buf_wf sample_tlv" by (simp add: sample_tlv_def buf_wf_def INT_MAX_def)
  moreover have "buf_bytes sample_tlv = tlv_bytes 21 [0x34, 1] @ [99]"
    by (simp add: sample_tlv_def buf_bytes_def tlv_bytes_def le16_bytes_def)
  ultimately show ?thesis
    using read_tlv_round_trip [of sample_tlv 21 "[0x34, 1]" "[99]"] by (simp add: numeral_2_eq_2)
qed

text \<open>Reading a length-prefixed string into an array larger than the given maximum never
  writes outside the array, keeps its size, and leaves a terminated string of at most the maximum
  length; the function is defined for every buffer content.\<close>

theorem read_int_string_safe:
  assumes "buf_wf b" and "0 \<le> offset" and "offset + 257 \<le> INT_MAX"
    and "0 \<le> max_len" and "max_len < 256" and "nat max_len < length str"
  shows "read_int_string b offset str max_len = Err OUT_OF_BOUNDS \<or>
    (\<exists>n str'. read_int_string b offset str max_len = Ret n str' \<and> length str' = length str \<and>
       1 \<le> n \<and> n \<le> max_len + 1 \<and> str' ! nat (n - 1) = 0 \<and> length (c_string str') \<le> nat max_len)"
proof -
  define i where "i = nat offset"
  define n where "n = min (unat (buf_bytes b ! i)) (nat max_len)"
  define s where "s = take n (drop (i + 1) (buf_bytes b)) @ 0 # drop (n + 1) str"
  have eq: "read_int_string b offset str max_len =
      (if i < length (buf_bytes b) \<and> i + 1 + n \<le> length (buf_bytes b) then Ret (int n + 1) s else Err OUT_OF_BOUNDS)"
    using read_int_string_wf [OF assms(1,2,4,5,6,3)] by (simp add: Let_def i_def n_def s_def)
  have n: "n \<le> nat max_len" by (simp add: n_def)
  show ?thesis
  proof (cases "i < length (buf_bytes b) \<and> i + 1 + n \<le> length (buf_bytes b)")
    case True
    then have len: "length (take n (drop (i + 1) (buf_bytes b))) = n" by auto
    have "length s = length str" using len n assms(6) by (simp add: s_def)
    moreover have "s ! n = 0" unfolding s_def using len by (metis nth_append_length)
    moreover have "length (c_string s) \<le> nat max_len"
    proof -
      have "c_string s = c_string (take n (drop (i + 1) (buf_bytes b)))"
        unfolding s_def by (rule c_string_terminated)
      also have "length \<dots> \<le> n"
        using len length_takeWhile_le [of _ "take n (drop (i + 1) (buf_bytes b))"] by (simp add: c_string_def)
      finally show ?thesis using n by simp
    qed
    ultimately show ?thesis using True n assms(4) by (auto simp: eq)
  qed (auto simp: eq)
qed

theorem read_int_string_safe_witness:
  "\<exists>n str'. read_int_string \<lparr>b_orig = [3, 0x6f, 0x77, 0x6c], b_data = 0, b_len = 4, b_owned = False\<rparr>
     0 [9, 9, 9, 9] 3 = Ret n str' \<and> length str' = 4 \<and> str' ! nat (n - 1) = 0 \<and> str' = [0x6f, 0x77, 0x6c, 0]"
proof -
  let ?b = "\<lparr>b_orig = [3, 0x6f, 0x77, 0x6c], b_data = 0, b_len = 4, b_owned = False\<rparr> :: buf"
  have wf: "buf_wf ?b" by (simp add: buf_wf_def INT_MAX_def)
  have r: "read_int_string ?b 0 [9, 9, 9, 9] 3 = Ret 4 [0x6f, 0x77, 0x6c, 0]"
    using read_int_string_wf [OF wf, of 0 3 "[9, 9, 9, 9]"] by (simp add: INT_MAX_def buf_bytes_def)
  show ?thesis
    using read_int_string_safe [OF wf, of 0 3 "[9, 9, 9, 9]"] r by (simp add: INT_MAX_def)
qed

text \<open>C37. The byte-string operations do not test their length for being negative: a negative
  length passes the bounds check of \<^verbatim>\<open>write_bytes\<close> and \<^verbatim>\<open>read_bytes_copy\<close> on every buffer
  that admits the offset and reaches \<^verbatim>\<open>memcpy\<close> with a huge size, which is undefined, while
  \<^verbatim>\<open>buf_strip\<close> and \<^verbatim>\<open>buf_take\<close> reject it.\<close>

theorem negative_length_undefined:
  assumes "buf_wf b" and "0 \<le> offset" and "offset \<le> int (length (buf_bytes b))"
    and "len < 0" and "INT_MIN \<le> len"
  shows "write_bytes b offset ptr len = UB \<and> read_bytes_copy b offset len = UB \<and>
    buf_strip b len = Err OUT_OF_BOUNDS \<and> buf_take b len = Err OUT_OF_BOUNDS"
proof -
  have "int_range (offset + len)"
    using assms length_buf_bytes_le [OF assms(1)] by (auto simp: int_range_def INT_MIN_def)
  moreover have "\<not> offset + len > b_len b"
    using assms length_buf_bytes [OF assms(1)] by linarith
  ultimately show ?thesis
    using assms(2,4) by (simp add: write_bytes_def read_bytes_copy_def out_of_bounds_def buf_strip_def buf_take_def)
qed

theorem negative_length_undefined_witness:
  "write_bytes sample_buf 0 [] (- 1) = UB \<and> buf_strip sample_buf (- 1) = Err OUT_OF_BOUNDS"
  using negative_length_undefined [OF sample_buf_wf, of 0 "- 1" "[]"] by (simp add: INT_MIN_def)

end
