(* ===== verification/Tx.thy ===== *)
theory Tx
  imports State Crc32 Wire
begin

text \<open>
  Model of \<^verbatim>\<open>src/src/tx.c\<close>: the construction of action and data frames. An initialiser that fills
  memory at a pointer and returns the number of bytes is the list of the bytes it leaves there;
  the readings of the clock are arguments, in the order in which the code takes them. The layout
  of the radiotap header and the number of its rate field come from the radiotap library, which
  is a parameter. Undefined behaviour (the length of a name without terminator) is \<^term>\<open>None\<close>.
\<close>

section \<open>The radiotap library\<close>

text \<open>The packed header from its fields, the field \<^verbatim>\<open>it_len\<close> of a header in memory, the bit numbers of
  the fields and flags this program uses, and the result of running the iterator over the memory at a
  pointer with a maximal length: the error of the initialisation, the fields in order (whether
  in the radiotap namespace, their number and the byte they start with) and the final error.\<close>

record radiotap =
  rt_header :: "u8 \<Rightarrow> u8 \<Rightarrow> u16 \<Rightarrow> u32 \<Rightarrow> u8 list"
  rt_it_len :: "u8 list \<Rightarrow> u16"
  rt_RATE :: nat
  rt_FLAGS :: nat
  rt_DBM_ANTSIGNAL :: nat
  rt_F_FCS :: u8
  rt_F_BADFCS :: u8
  rt_iterate :: "u8 list \<Rightarrow> int \<Rightarrow> int \<times> (bool \<times> nat \<times> u8) list \<times> bool"

section \<open>Headers\<close>

definition AWDL_DNS_SHORT_LOCAL :: u16 where
  "AWDL_DNS_SHORT_LOCAL = 0xc00c"

definition AWDL_DATA_HEAD :: u16 where
  "AWDL_DATA_HEAD = 0x0403"

definition AWDL_DATA_PAD :: u16 where
  "AWDL_DATA_PAD = 0x0000"

definition AWDL_SOCIAL_CHANNEL_6_BIT :: u16 where
  "AWDL_SOCIAL_CHANNEL_6_BIT = 0x0001"

definition AWDL_SOCIAL_CHANNEL_44_BIT :: u16 where
  "AWDL_SOCIAL_CHANNEL_44_BIT = 0x0002"

definition AWDL_SOCIAL_CHANNEL_149_BIT :: u16 where
  "AWDL_SOCIAL_CHANNEL_149_BIT = 0x0004"

definition ETH_P_IPV6 :: u16 where
  "ETH_P_IPV6 = 0x86dd"

definition awdl_init_data :: "awdl_state \<Rightarrow> u8 list \<times> awdl_state" where
  "awdl_init_data state =
     (case awdl_state_next_sequence_number state of
        (seq, state') \<Rightarrow>
          (awdl_data_bytes \<lparr>d_head = AWDL_DATA_HEAD, d_seq = seq, d_pad = AWDL_DATA_PAD, d_ethertype = ETH_P_IPV6\<rparr>,
           state'))"

definition awdl_init_action :: "u64 \<Rightarrow> awdl_action_type \<Rightarrow> u8 list" where
  "awdl_init_action now type =
     (let steady_time = ucast now in
      awdl_action_bytes
        \<lparr>af_category = IEEE80211_VENDOR_SPECIFIC, af_oui = AWDL_OUI, af_type = AWDL_TYPE,
         af_version = AWDL_VERSION_COMPAT, af_subtype = awdl_action_code type, af_reserved = 0,
         af_phy_tx = steady_time, af_target_tx = steady_time\<rparr>)"

definition awdl_chan_encoding_length :: "awdl_chan_encoding \<Rightarrow> nat" where
  "awdl_chan_encoding_length enc =
     (case enc of
        AWDL_CHAN_ENC_SIMPLE \<Rightarrow> 1
      | AWDL_CHAN_ENC_LEGACY \<Rightarrow> 2
      | AWDL_CHAN_ENC_OPCLASS \<Rightarrow> 2
      | AWDL_CHAN_ENC_UNKNOWN _ \<Rightarrow> 0)"

definition awdl_chan_bytes :: "awdl_chan \<Rightarrow> u8 list" where
  "awdl_chan_bytes c = [chan_val0 c, chan_val1 c]"

definition awdl_init_chanseq :: "awdl_state \<Rightarrow> u8 list" where
  "awdl_init_chanseq state =
     (let enc_len = awdl_chan_encoding_length (ch_enc (st_channel state)) in
      awdl_chanseq_bytes
        \<lparr>cs_count = of_nat (AWDL_CHANSEQ_LENGTH - 1),
         cs_encoding = awdl_chan_encoding_code (ch_enc (st_channel state)),
         cs_duplicate_count = 0, cs_step_count = 3, cs_fill_channel = 0xffff\<rparr> @
      concat (map (\<lambda>i. take enc_len (awdl_chan_bytes (ch_sequence (st_channel state) ! i))) [0..<AWDL_CHANSEQ_LENGTH]))"

section \<open>TLVs\<close>

definition awdl_init_sync_params_tlv :: "u64 \<Rightarrow> awdl_state \<Rightarrow> u8 list" where
  "awdl_init_sync_params_tlv now state =
     (let sync = st_sync state;
          chanseq = awdl_init_chanseq state;
          len = 36 + length chanseq + 2;
          current_aw = awdl_sync_current_aw now sync;
          next_aw = awdl_sync_next_aw_tu now sync;
          passed = uint (sy_aw_period sync) * uint (sy_presence_mode sync) - uint next_aw;
          remaining = (if uint (sy_aw_period sync) < passed then 0 else word_of_int (uint (sy_aw_period sync) - passed)) in
      awdl_sync_params_tlv_bytes
        \<lparr>sp_type = awdl_tlv_code AWDL_SYNCHRONIZATON_PARAMETERS_TLV,
         sp_length = of_nat (len - 3),
         sp_next_aw_channel = awdl_chan_num (ch_current (st_channel state)) (ch_enc (st_channel state)),
         sp_tx_down_counter = next_aw,
         sp_master_channel = awdl_chan_num (ch_master (st_channel state)) (ch_enc (st_channel state)),
         sp_guard_time = 0,
         sp_aw_period = sy_aw_period sync,
         sp_af_period = st_psf_interval state,
         sp_flags = 0x1800,
         sp_aw_ext_length = sy_aw_period sync,
         sp_aw_com_length = sy_aw_period sync,
         sp_remaining_aw_length = remaining,
         sp_min_ext = sy_presence_mode sync - 1,
         sp_max_ext_multicast = sy_presence_mode sync - 1,
         sp_max_ext_unicast = sy_presence_mode sync - 1,
         sp_max_ext_af = sy_presence_mode sync - 1,
         sp_master_addr = el_master_addr (st_election state),
         sp_presence_mode = sy_presence_mode sync,
         sp_reserved = 0,
         sp_next_aw_seq = current_aw,
         sp_ap_alignment = current_aw\<rparr> @
      chanseq @ [0, 0])"

definition awdl_init_chanseq_tlv :: "awdl_state \<Rightarrow> u8 list" where
  "awdl_init_chanseq_tlv state =
     (let chanseq = awdl_init_chanseq state;
          len = 3 + length chanseq + 3 in
      awdl_chanseq_tlv_bytes \<lparr>ct_type = awdl_tlv_code AWDL_CHAN_SEQ_TLV, ct_length = of_nat (len - 3)\<rparr> @
      chanseq @ [0, 0, 0])"

definition awdl_init_election_params_tlv :: "awdl_state \<Rightarrow> u8 list" where
  "awdl_init_election_params_tlv state =
     awdl_election_params_tlv_bytes
       \<lparr>ep_type = awdl_tlv_code AWDL_ELECTION_PARAMETERS_TLV,
        ep_length = 24 - 3,
        ep_flags = 0,
        ep_id = 0,
        ep_distancetop = ucast (el_height (st_election state)),
        ep_unknown = 0,
        ep_top_master_addr = el_master_addr (st_election state),
        ep_top_master_metric = el_master_metric (st_election state),
        ep_self_metric = el_self_metric (st_election state),
        ep_pad = [0, 0]\<rparr>"

definition awdl_init_election_params_v2_tlv :: "awdl_state \<Rightarrow> u8 list" where
  "awdl_init_election_params_v2_tlv state =
     awdl_election_params_v2_tlv_bytes
       \<lparr>ev_type = awdl_tlv_code AWDL_ELECTION_PARAMETERS_V2_TLV,
        ev_length = 43 - 3,
        ev_master_addr = el_master_addr (st_election state),
        ev_sync_addr = el_sync_addr (st_election state),
        ev_master_counter = el_master_counter (st_election state),
        ev_distance_to_master = el_height (st_election state),
        ev_master_metric = el_master_metric (st_election state),
        ev_self_metric = el_self_metric (st_election state),
        ev_unknown = 0,
        ev_reserved = 0,
        ev_self_counter = el_self_counter (st_election state)\<rparr>"

definition awdl_init_service_params_tlv :: "awdl_state \<Rightarrow> u8 list" where
  "awdl_init_service_params_tlv state =
     awdl_service_params_tlv_bytes
       \<lparr>sv_type = awdl_tlv_code AWDL_SERVICE_PARAMETERS_TLV, sv_length = 12 - 3,
        sv_unknown = [0, 0, 0], sv_sui = 0, sv_bitmask = 0\<rparr>"

definition awdl_init_ht_capabilities_tlv :: "awdl_state \<Rightarrow> u8 list" where
  "awdl_init_ht_capabilities_tlv state =
     awdl_ht_capabilities_tlv_bytes
       \<lparr>ht_type = awdl_tlv_code AWDL_ENHANCED_DATA_RATE_CAPABILITIES_TLV, ht_length = 11 - 3,
        ht_unknown = 0, ht_ht_capabilities = 0x11ce, ht_ampdu_params = 0x1b, ht_rx_mcs = 0xff, ht_unknown2 = 0\<rparr>"

definition awdl_init_data_path_state_tlv :: "awdl_state \<Rightarrow> u8 list" where
  "awdl_init_data_path_state_tlv state =
     (let chan = awdl_chan_num (ch_master (st_channel state)) AWDL_CHAN_ENC_OPCLASS in
      awdl_data_path_state_tlv_bytes
       \<lparr>dp_type = awdl_tlv_code AWDL_DATA_PATH_STATE_TLV, dp_length = 18 - 3,
        dp_flags = 0x8f24,
        dp_country_code = [0x58, 0x30, 0],
        dp_social_channels =
          (if chan = 6 then AWDL_SOCIAL_CHANNEL_6_BIT
           else if chan = 44 then AWDL_SOCIAL_CHANNEL_44_BIT
           else AWDL_SOCIAL_CHANNEL_149_BIT),
        dp_awdl_addr = st_self_address state,
        dp_ext_flags = 0x0000\<rparr>)"

text \<open>The struct \<^verbatim>\<open>awdl_arpa_tlv\<close> ends with a name of declared length one.\<close>

definition awdl_init_arpa_tlv :: "awdl_state \<Rightarrow> u8 list option" where
  "awdl_init_arpa_tlv state =
     (if 0 \<in> set (st_name state)
      then (let name = c_string (st_name state) in
            Some (awdl_arpa_tlv_bytes
                    \<lparr>ar_type = awdl_tlv_code AWDL_ARPA_TLV, ar_length = of_nat (6 - 3 + length name + 1), ar_flags = 3,
                     ar_name_length = of_nat (length name), ar_name = name\<rparr> @
                  be16_bytes AWDL_DNS_SHORT_LOCAL))
      else None)"

definition awdl_init_version_tlv :: "awdl_state \<Rightarrow> u8 list" where
  "awdl_init_version_tlv state =
     awdl_version_tlv_bytes
       \<lparr>vt_type = awdl_tlv_code AWDL_VERSION_TLV, vt_length = 5 - 3,
        vt_version = st_version state, vt_devclass = st_dev_class state\<rparr>"

section \<open>Frames\<close>

text \<open>\<^verbatim>\<open>*ptr = htole16(...)\<close> stores one byte, on a little-endian host the rate.\<close>

definition ieee80211_init_radiotap_header :: "radiotap \<Rightarrow> u8 list" where
  "ieee80211_init_radiotap_header rt =
     (let present = word_of_int (ieee80211_radiotap_type_to_mask (rt_RATE rt)) in
      rt_header rt 0 0 (8 + 1) present @ [word_of_int (ieee80211_radiotap_rate_to_val 12)])"

definition ieee80211_init_awdl_hdr ::
  "ether_addr \<Rightarrow> ether_addr \<Rightarrow> ieee80211_state \<Rightarrow> u16 \<Rightarrow> u8 list \<times> ieee80211_state" where
  "ieee80211_init_awdl_hdr src dst state type =
     (case ieee80211_state_next_sequence_number state of
        (seq, state') \<Rightarrow>
          (ieee80211_hdr_bytes
             \<lparr>h_frame_control = type, h_duration_id = 0, h_addr1 = dst, h_addr2 = src, h_addr3 = AWDL_BSSID,
              h_seq_ctrl = push_bit 4 seq\<rparr>,
           state'))"

definition ieee80211_init_awdl_action_hdr ::
  "ether_addr \<Rightarrow> ether_addr \<Rightarrow> ieee80211_state \<Rightarrow> u8 list \<times> ieee80211_state" where
  "ieee80211_init_awdl_action_hdr src dst state =
     ieee80211_init_awdl_hdr src dst state (IEEE80211_FTYPE_MGMT OR IEEE80211_STYPE_ACTION)"

definition ieee80211_init_awdl_data_hdr ::
  "ether_addr \<Rightarrow> ether_addr \<Rightarrow> ieee80211_state \<Rightarrow> u8 list \<times> ieee80211_state" where
  "ieee80211_init_awdl_data_hdr src dst state =
     ieee80211_init_awdl_hdr src dst state (IEEE80211_FTYPE_DATA OR IEEE80211_STYPE_DATA)"

definition llc_init_awdl_hdr :: "u8 list" where
  "llc_init_awdl_hdr =
     llc_hdr_bytes \<lparr>llc_dsap = 0xaa, llc_ssap = 0xaa, llc_control = 0x03, llc_oui = AWDL_OUI,
       llc_pid = AWDL_LLC_PROTOCOL_ID\<rparr>"

text \<open>The checksum of the bytes from \<^verbatim>\<open>start\<close> to \<^verbatim>\<open>end\<close>, stored at \<^verbatim>\<open>end\<close>.\<close>

definition ieee80211_add_fcs :: "u8 list \<Rightarrow> u8 list" where
  "ieee80211_add_fcs frame = le32_bytes (crc32 frame)"

text \<open>\<open>now1\<close> is the clock reading of \<^verbatim>\<open>awdl_init_action\<close>, \<open>now2\<close> that of
  \<^verbatim>\<open>awdl_init_sync_params_tlv\<close>.\<close>

definition awdl_init_full_action_frame ::
  "radiotap \<Rightarrow> u64 \<Rightarrow> u64 \<Rightarrow> awdl_state \<Rightarrow> ieee80211_state \<Rightarrow> awdl_action_type \<Rightarrow> (u8 list \<times> ieee80211_state) option" where
  "awdl_init_full_action_frame rt now1 now2 state ieee80211_state type =
     (case ieee80211_init_awdl_action_hdr (st_self_address state) (st_dst state) ieee80211_state of
        (hdr, ieee80211_state') \<Rightarrow>
          (case (if type = AWDL_ACTION_MIF then awdl_init_arpa_tlv state else Some []) of
             None \<Rightarrow> None
           | Some arpa \<Rightarrow>
               (let frame =
                  ieee80211_init_radiotap_header rt @
                  hdr @
                  awdl_init_action now1 type @
                  awdl_init_sync_params_tlv now2 state @
                  awdl_init_election_params_tlv state @
                  awdl_init_chanseq_tlv state @
                  awdl_init_election_params_v2_tlv state @
                  awdl_init_service_params_tlv state @
                  (if type = AWDL_ACTION_MIF then awdl_init_ht_capabilities_tlv state else []) @
                  arpa @
                  awdl_init_data_path_state_tlv state @
                  awdl_init_version_tlv state in
                Some (frame @ (if ie_fcs ieee80211_state then ieee80211_add_fcs frame else []), ieee80211_state'))))"

definition awdl_init_full_data_frame ::
  "radiotap \<Rightarrow> ether_addr \<Rightarrow> ether_addr \<Rightarrow> u8 list \<Rightarrow> awdl_state \<Rightarrow> ieee80211_state \<Rightarrow> u8 list \<times> awdl_state \<times> ieee80211_state" where
  "awdl_init_full_data_frame rt src dst payload state ieee80211_state =
     (case ieee80211_init_awdl_data_hdr src dst ieee80211_state of
        (hdr, ieee80211_state') \<Rightarrow>
          (case awdl_init_data state of
             (data, state') \<Rightarrow>
               (let frame = ieee80211_init_radiotap_header rt @ hdr @ llc_init_awdl_hdr @ data @ payload in
                (frame @ (if ie_fcs ieee80211_state then ieee80211_add_fcs frame else []), state', ieee80211_state'))))"

section \<open>Every TLV announces its own length\<close>

lemma length_concat_const: "(\<And>x. x \<in> set xs \<Longrightarrow> length (f x) = k) \<Longrightarrow> length (concat (map f xs)) = k * length xs"
  by (induction xs) auto

lemma length_init_chanseq:
  "length (awdl_init_chanseq state) = 6 + 16 * awdl_chan_encoding_length (ch_enc (st_channel state))"
proof -
  have "awdl_chan_encoding_length e \<le> Suc (Suc 0)" for e by (cases e) (simp_all add: awdl_chan_encoding_length_def)
  then have "length (concat (map (\<lambda>i. take (awdl_chan_encoding_length (ch_enc (st_channel state)))
      (awdl_chan_bytes (ch_sequence (st_channel state) ! i))) [0..<AWDL_CHANSEQ_LENGTH])) =
      awdl_chan_encoding_length (ch_enc (st_channel state)) * length [0..<AWDL_CHANSEQ_LENGTH]"
    by (intro length_concat_const) (simp add: awdl_chan_bytes_def min_absorb2)
  then show ?thesis by (simp add: awdl_init_chanseq_def Let_def AWDL_CHANSEQ_LENGTH_def)
qed

text \<open>A TLV in memory with the type and the length of its value.\<close>

definition tlv_framed :: "awdl_tlvs \<Rightarrow> u8 list \<Rightarrow> bool" where
  "tlv_framed t bs \<longleftrightarrow> bs = tlv_bytes (awdl_tlv_code t) (drop 3 bs) \<and> length bs < 65539"

lemma tlv_framedI:
  assumes "bs = [awdl_tlv_code t] @ le16_bytes (of_nat n) @ v" and "n = length v" and "length v < 65536"
  shows "tlv_framed t bs"
proof -
  have "drop 3 bs = v" using assms(1) by (simp add: le16_bytes_def numeral_3_eq_3)
  with assms show ?thesis by (simp add: tlv_framed_def tlv_bytes_def)
qed

lemma tlv_framed_view: "tlv_framed t bs \<Longrightarrow> tlv_view (bs @ rest) = Some (awdl_tlv_code t, drop 3 bs, rest)"
proof -
  assume f: "tlv_framed t bs"
  then have "length (drop 3 bs) < 65536" by (auto simp: tlv_framed_def)
  from tlv_view_bytes [OF this, of "awdl_tlv_code t" rest] f show ?thesis by (simp add: tlv_framed_def)
qed

lemma encoding_length_le: "awdl_chan_encoding_length e \<le> 2"
  by (cases e) (simp_all add: awdl_chan_encoding_length_def)

lemma length_chanseq_less: "length (awdl_init_chanseq state) < 100"
  using encoding_length_le [of "ch_enc (st_channel state)"] by (simp add: length_init_chanseq)

lemma framed_sync: "tlv_framed AWDL_SYNCHRONIZATON_PARAMETERS_TLV (awdl_init_sync_params_tlv now state)"
  using length_chanseq_less [of state]
  by (intro tlv_framedI [where n = "35 + length (awdl_init_chanseq state)"],
      simp add: awdl_init_sync_params_tlv_def Let_def awdl_sync_params_tlv_bytes_def, simp_all)

lemma framed_chanseq: "tlv_framed AWDL_CHAN_SEQ_TLV (awdl_init_chanseq_tlv state)"
  using length_chanseq_less [of state]
  by (intro tlv_framedI [where n = "3 + length (awdl_init_chanseq state)" and v = "awdl_init_chanseq state @ [0, 0, 0]"])
    (simp_all add: awdl_init_chanseq_tlv_def Let_def awdl_chanseq_tlv_bytes_def)

lemma framed_election: "tlv_framed AWDL_ELECTION_PARAMETERS_TLV (awdl_init_election_params_tlv state)"
  by (rule tlv_framedI [where n = 21], simp add: awdl_init_election_params_tlv_def awdl_election_params_tlv_bytes_def, simp_all)

lemma framed_election_v2: "tlv_framed AWDL_ELECTION_PARAMETERS_V2_TLV (awdl_init_election_params_v2_tlv state)"
  by (rule tlv_framedI [where n = 40], simp add: awdl_init_election_params_v2_tlv_def awdl_election_params_v2_tlv_bytes_def, simp_all)

lemma framed_service: "tlv_framed AWDL_SERVICE_PARAMETERS_TLV (awdl_init_service_params_tlv state)"
  by (rule tlv_framedI [where n = 9], simp add: awdl_init_service_params_tlv_def awdl_service_params_tlv_bytes_def, simp_all)

lemma framed_ht: "tlv_framed AWDL_ENHANCED_DATA_RATE_CAPABILITIES_TLV (awdl_init_ht_capabilities_tlv state)"
  by (rule tlv_framedI [where n = 8], simp add: awdl_init_ht_capabilities_tlv_def awdl_ht_capabilities_tlv_bytes_def, simp_all)

lemma framed_data_path: "tlv_framed AWDL_DATA_PATH_STATE_TLV (awdl_init_data_path_state_tlv state)"
  by (rule tlv_framedI [where n = 15], simp add: awdl_init_data_path_state_tlv_def Let_def awdl_data_path_state_tlv_bytes_def, simp_all)

lemma framed_version: "tlv_framed AWDL_VERSION_TLV (awdl_init_version_tlv state)"
  by (rule tlv_framedI [where n = 2], simp add: awdl_init_version_tlv_def awdl_version_tlv_bytes_def, simp_all)

lemma framed_arpa:
  assumes "awdl_init_arpa_tlv state = Some bs" and "length (st_name state) = HOST_NAME_LENGTH_MAX + 1"
  shows "tlv_framed AWDL_ARPA_TLV bs"
proof -
  have "length (c_string (st_name state)) \<le> 65"
    using length_takeWhile_le [of _ "st_name state"] assms(2) by (simp add: c_string_def HOST_NAME_LENGTH_MAX_def)
  with assms(1) show ?thesis
    by (intro tlv_framedI [where n = "4 + length (c_string (st_name state))"])
      (auto simp: awdl_init_arpa_tlv_def awdl_arpa_tlv_bytes_def Let_def split: if_splits)
qed

lemmas tlvs_framed = framed_sync framed_chanseq framed_election framed_election_v2 framed_service framed_ht
  framed_data_path framed_version

lemma length_tlvs:
  "length (awdl_init_action now type) = 16"
  "length (awdl_init_sync_params_tlv now state) = 38 + length (awdl_init_chanseq state)"
  "length (awdl_init_chanseq_tlv state) = 6 + length (awdl_init_chanseq state)"
  "length (awdl_init_election_params_tlv state) = 24" "length (awdl_init_election_params_v2_tlv state) = 43"
  "length (awdl_init_service_params_tlv state) = 12" "length (awdl_init_ht_capabilities_tlv state) = 11"
  "length (awdl_init_data_path_state_tlv state) = 18" "length (awdl_init_version_tlv state) = 5"
  "length llc_init_awdl_hdr = 8"
  by (simp_all add: awdl_init_action_def awdl_action_bytes_def AWDL_OUI_def awdl_init_sync_params_tlv_def Let_def
      awdl_init_chanseq_tlv_def awdl_init_election_params_tlv_def awdl_election_params_tlv_bytes_def
      awdl_init_election_params_v2_tlv_def awdl_init_service_params_tlv_def awdl_service_params_tlv_bytes_def
      awdl_init_ht_capabilities_tlv_def awdl_init_data_path_state_tlv_def awdl_data_path_state_tlv_bytes_def
      awdl_init_version_tlv_def llc_init_awdl_hdr_def llc_hdr_bytes_def)

text \<open>The sequence of TLVs of an action frame.\<close>

definition action_tlvs :: "u64 \<Rightarrow> awdl_state \<Rightarrow> awdl_action_type \<Rightarrow> u8 list \<Rightarrow> (awdl_tlvs \<times> u8 list) list" where
  "action_tlvs now state type arpa =
     [(AWDL_SYNCHRONIZATON_PARAMETERS_TLV, awdl_init_sync_params_tlv now state),
      (AWDL_ELECTION_PARAMETERS_TLV, awdl_init_election_params_tlv state),
      (AWDL_CHAN_SEQ_TLV, awdl_init_chanseq_tlv state),
      (AWDL_ELECTION_PARAMETERS_V2_TLV, awdl_init_election_params_v2_tlv state),
      (AWDL_SERVICE_PARAMETERS_TLV, awdl_init_service_params_tlv state)] @
     (if type = AWDL_ACTION_MIF
      then [(AWDL_ENHANCED_DATA_RATE_CAPABILITIES_TLV, awdl_init_ht_capabilities_tlv state), (AWDL_ARPA_TLV, arpa)]
      else []) @
     [(AWDL_DATA_PATH_STATE_TLV, awdl_init_data_path_state_tlv state),
      (AWDL_VERSION_TLV, awdl_init_version_tlv state)]"

text \<open>What the documentation of the radiotap header says of the library: the packed header has eight
  bytes, and its length field is read back.\<close>

definition radiotap_header_ok :: "radiotap \<Rightarrow> bool" where
  "radiotap_header_ok rt \<longleftrightarrow>
     (\<forall>v p l e rest. length (rt_header rt v p l e) = 8 \<and> rt_it_len rt (rt_header rt v p l e @ rest) = l)"

lemma length_radiotap: "radiotap_header_ok rt \<Longrightarrow> length (ieee80211_init_radiotap_header rt) = 9"
  by (simp add: ieee80211_init_radiotap_header_def radiotap_header_ok_def Let_def)

lemma full_action_frame:
  assumes "awdl_init_full_action_frame rt now1 now2 state ie type = Some (frame, ie')"
  obtains arpa hdr where
    "type = AWDL_ACTION_MIF \<longrightarrow> awdl_init_arpa_tlv state = Some arpa" and
    "ieee80211_init_awdl_action_hdr (st_self_address state) (st_dst state) ie = (hdr, ie')" and
    "frame = (let body = ieee80211_init_radiotap_header rt @ hdr @ awdl_init_action now1 type @
        concat (map snd (action_tlvs now2 state type arpa)) in
      body @ (if ie_fcs ie then ieee80211_add_fcs body else []))"
  using assms
  by (auto simp: awdl_init_full_action_frame_def action_tlvs_def Let_def split: prod.splits option.splits if_splits)

section \<open>Properties\<close>

text \<open>Every TLV of an action frame is well framed: parsing the bytes of a frame after the action
  header as a sequence of TLVs yields exactly the TLVs that were written, in order, with their types
  and values, and ends with nothing left over.\<close>

theorem action_frame_tlvs_parse:
  assumes "length (st_name state) = HOST_NAME_LENGTH_MAX + 1"
    and "type = AWDL_ACTION_MIF \<Longrightarrow> awdl_init_arpa_tlv state = Some arpa"
    and "i < length (action_tlvs now state type arpa)"
  shows "tlv_view (concat (map snd (drop i (action_tlvs now state type arpa)))) =
    Some (awdl_tlv_code (fst (action_tlvs now state type arpa ! i)), drop 3 (snd (action_tlvs now state type arpa ! i)),
      concat (map snd (drop (Suc i) (action_tlvs now state type arpa))))"
proof -
  let ?ts = "action_tlvs now state type arpa"
  have "\<forall>(t, bs) \<in> set ?ts. tlv_framed t bs"
    using tlvs_framed framed_arpa [OF _ assms(1)] assms(2) by (auto simp: action_tlvs_def)
  then have "tlv_framed (fst (?ts ! i)) (snd (?ts ! i))" using nth_mem [OF assms(3)] by (auto split: prod.splits)
  from tlv_framed_view [OF this] show ?thesis
    by (subst Cons_nth_drop_Suc [OF assms(3), symmetric]) simp
qed

theorem action_frame_tlvs_parse_witness:
  "tlv_view (concat (map snd (drop 6 (action_tlvs 5000 sample_state AWDL_ACTION_PSF [])))) =
   Some (21, [0x34, 1], [])"
proof -
  have n: "length (st_name sample_state) = HOST_NAME_LENGTH_MAX + 1"
    using sample_state_ok by (simp add: state_ok_def)
  have "action_tlvs 5000 sample_state AWDL_ACTION_PSF [] ! 6 = (AWDL_VERSION_TLV, awdl_init_version_tlv sample_state)"
    "length (action_tlvs 5000 sample_state AWDL_ACTION_PSF []) = 7"
    by (simp_all add: action_tlvs_def)
  moreover have "awdl_init_version_tlv sample_state = [21, 2, 0, 0x34, 1]"
    by (simp add: awdl_init_version_tlv_def awdl_version_tlv_bytes_def sample_state_def le16_bytes_def)
  ultimately show ?thesis
    using action_frame_tlvs_parse [OF n, of AWDL_ACTION_PSF "[]" 6 5000] by (simp add: eval_nat_numeral)
qed

lemma action_frame_bounds:
  assumes "radiotap_header_ok rt" and "length (st_name state) = HOST_NAME_LENGTH_MAX + 1"
    and "awdl_init_full_action_frame rt now1 now2 state ie type = Some (frame, ie')"
  shows "207 \<le> length frame \<and> length frame \<le> 357"
proof -
  obtain arpa hdr where arpa: "type = AWDL_ACTION_MIF \<longrightarrow> awdl_init_arpa_tlv state = Some arpa"
    and hdr: "ieee80211_init_awdl_action_hdr (st_self_address state) (st_dst state) ie = (hdr, ie')"
    and frame: "frame = (let body = ieee80211_init_radiotap_header rt @ hdr @ awdl_init_action now1 type @
        concat (map snd (action_tlvs now2 state type arpa)) in
      body @ (if ie_fcs ie then ieee80211_add_fcs body else []))"
    by (rule full_action_frame [OF assms(3)])
  have len_hdr: "length hdr = 24"
    using hdr by (auto simp: ieee80211_init_awdl_action_hdr_def ieee80211_init_awdl_hdr_def split: prod.splits)
  have len_arpa: "length arpa \<le> 71" if "type = AWDL_ACTION_MIF"
  proof -
    from arpa that have z: "0 \<in> set (st_name state)" by (auto simp: awdl_init_arpa_tlv_def awdl_arpa_tlv_bytes_def split: if_splits)
    have "c_string (st_name state) \<noteq> st_name state"
      using z by (auto simp: c_string_def takeWhile_eq_all_conv)
    then have "length (c_string (st_name state)) < length (st_name state)"
      unfolding c_string_def by (metis length_takeWhile_le nat_less_le takeWhile_eq_take take_all)
    then show ?thesis
      using arpa that assms(2) by (auto simp: awdl_init_arpa_tlv_def awdl_arpa_tlv_bytes_def HOST_NAME_LENGTH_MAX_def Let_def split: if_splits)
  qed
  have enc: "length (awdl_init_chanseq state) \<le> 38" "6 \<le> length (awdl_init_chanseq state)"
    using encoding_length_le [of "ch_enc (st_channel state)"] by (simp_all add: length_init_chanseq)
  show ?thesis
  proof (cases type)
    case AWDL_ACTION_PSF
    then show ?thesis using enc
      by (simp add: frame Let_def length_radiotap [OF assms(1)] len_hdr length_tlvs action_tlvs_def ieee80211_add_fcs_def)
  next
    case AWDL_ACTION_MIF
    with len_arpa enc show ?thesis
      by (simp add: frame Let_def length_radiotap [OF assms(1)] len_hdr length_tlvs action_tlvs_def ieee80211_add_fcs_def)
  qed
qed

text \<open>An action frame always fits its buffer: for a node whose name array has its declared size, a
  PSF or MIF including the radiotap header and the checksum has at most 357 of the 65535 bytes the
  caller provides, whatever the state.\<close>

theorem action_frame_size:
  assumes "radiotap_header_ok rt" and "length (st_name state) = HOST_NAME_LENGTH_MAX + 1"
    and "awdl_init_full_action_frame rt now1 now2 state ie type = Some (frame, ie')"
  shows "207 \<le> length frame \<and> length frame \<le> 357"
  by (rule action_frame_bounds [OF assms])

text \<open>An instance of the library for the witnesses: the documented layout of the header, and an iterator
  that finds the one-byte fields the program reads when their bits are set.\<close>

definition sample_radiotap :: radiotap where
  "sample_radiotap =
     \<lparr>rt_header = (\<lambda>v p l e. [v, p] @ le16_bytes l @ le32_bytes e),
      rt_it_len = (\<lambda>m. le16_value (take 2 (drop 2 m))),
      rt_RATE = 2, rt_FLAGS = 1, rt_DBM_ANTSIGNAL = 5, rt_F_FCS = 0x10, rt_F_BADFCS = 0x40,
      rt_iterate = (\<lambda>m len. if len < 8 then (- 22, [], False) else (0, [(True, 2, m ! 8)], True))\<rparr>"

lemma sample_radiotap_ok: "radiotap_header_ok sample_radiotap"
  by (auto simp: radiotap_header_ok_def sample_radiotap_def)

theorem action_frame_size_witness:
  "\<exists>frame ie'. awdl_init_full_action_frame sample_radiotap 7 8 sample_state ieee80211_init_state AWDL_ACTION_PSF = Some (frame, ie') \<and>
    length frame \<le> 357"
proof -
  have n: "length (st_name sample_state) = HOST_NAME_LENGTH_MAX + 1"
    using sample_state_ok by (simp add: state_ok_def)
  obtain frame ie' where f: "awdl_init_full_action_frame sample_radiotap 7 8 sample_state ieee80211_init_state AWDL_ACTION_PSF = Some (frame, ie')"
    by (cases "ieee80211_init_awdl_action_hdr (st_self_address sample_state) (st_dst sample_state) ieee80211_init_state")
      (simp add: awdl_init_full_action_frame_def Let_def)
  with action_frame_size [OF sample_radiotap_ok n f] show ?thesis by blast
qed

end
