(* ===== verification/Rx.thy ===== *)
theory Rx
  imports Tx
begin

text \<open>
  Model of \<^verbatim>\<open>src/src/rx.c\<close> and \<^verbatim>\<open>src/src/rx.h\<close>: the reception of frames. Every handler returns its
  result code and the records it may change, also on its error paths, where the fields written
  before the error stay written; \<^term>\<open>None\<close> is undefined behaviour. The pointer to the peer's record
  is followed once: the record is taken from the table, threaded through the handlers and written back.
  Uninitialised memory (the local channel list, a new peer, the new Ethernet frame, the signal and
  flags variables) is an argument, and so are the clock and the radiotap library.
\<close>

section \<open>Results and surroundings\<close>

datatype RX_RESULT =
  RX_IGNORE_PEER | RX_IGNORE_RSSI | RX_IGNORE_FAILED_CRC | RX_IGNORE_NOPROMISC | RX_IGNORE_FROM_SELF
  | RX_IGNORE | RX_OK | RX_UNEXPECTED_FORMAT | RX_UNEXPECTED_TYPE | RX_UNEXPECTED_VALUE | RX_TOO_SHORT

primrec rx_code :: "RX_RESULT \<Rightarrow> int" where
  "rx_code RX_IGNORE_PEER = 6"
| "rx_code RX_IGNORE_RSSI = 5"
| "rx_code RX_IGNORE_FAILED_CRC = 4"
| "rx_code RX_IGNORE_NOPROMISC = 3"
| "rx_code RX_IGNORE_FROM_SELF = 2"
| "rx_code RX_IGNORE = 1"
| "rx_code RX_OK = 0"
| "rx_code RX_UNEXPECTED_FORMAT = - 1"
| "rx_code RX_UNEXPECTED_TYPE = - 2"
| "rx_code RX_UNEXPECTED_VALUE = - 3"
| "rx_code RX_TOO_SHORT = - 3"

text \<open>The calls of the hooks in the order they are made.\<close>

datatype rx_event = Peer_cb awdl_peer | Tlv_cb awdl_peer u8 "u8 list"

text \<open>What the code finds around it: whether \<^verbatim>\<open>calloc\<close> succeeds, what \<^verbatim>\<open>malloc\<close> returns for a
  new peer, and the content of memory it reads before writing.\<close>

record rx_env =
  env_mem :: "nat \<Rightarrow> bool"
  env_peer :: "awdl_peer option"
  env_chan :: "nat \<Rightarrow> u8"
  env_frame :: "nat \<Rightarrow> u8"
  env_rssi :: int
  env_flags :: u8

definition AWDL_SYNC_THRESHOLD :: int where
  "AWDL_SYNC_THRESHOLD = 3"

section \<open>TLV handlers\<close>

definition awdl_handle_sync_params_tlv :: "awdl_peer \<Rightarrow> buf \<Rightarrow> awdl_state \<Rightarrow> u64 \<Rightarrow> (RX_RESULT \<times> awdl_state) option" where
  "awdl_handle_sync_params_tlv src val state now =
     (if \<not> awdl_election_is_sync_master (st_election state) (p_addr src) then Some (RX_IGNORE, state)
      else
        checked (read_le16 val 1) (Some (RX_TOO_SHORT, state)) (\<lambda>time_to_next_aw_master.
        checked (read_le16 val 29) (Some (RX_TOO_SHORT, state)) (\<lambda>aw_counter_master.
          (let sync = (st_sync state)\<lparr>sy_meas_total := sy_meas_total (st_sync state) + 1\<rparr>;
               sync_err_tu = awdl_sync_error_tu now time_to_next_aw_master aw_counter_master sync;
               sync' = (if sync_err_tu > AWDL_SYNC_THRESHOLD \<or> sync_err_tu < - AWDL_SYNC_THRESHOLD
                        then sync\<lparr>sy_meas_err := sy_meas_err sync + 1\<rparr> else sync) in
           Some (RX_OK, state\<lparr>st_sync := awdl_sync_update_last now time_to_next_aw_master aw_counter_master sync'\<rparr>)))))"

text \<open>The loop that reads the channel list: \<open>n\<close> rounds are left, \<open>i\<close> is the index and \<open>acc\<close> what has
  been read. With the one-byte encoding the second byte keeps the content of the local array.\<close>

fun read_chanseq ::
  "buf \<Rightarrow> int \<Rightarrow> (nat \<Rightarrow> u8) \<Rightarrow> nat \<Rightarrow> nat \<Rightarrow> int \<Rightarrow> awdl_chan list \<Rightarrow> 'r option \<Rightarrow> (awdl_chan list \<Rightarrow> 'r option) \<Rightarrow> 'r option" where
  "read_chanseq val sz junk 0 i offset acc wire_error continue = continue acc"
| "read_chanseq val sz junk (Suc n) i offset acc wire_error continue =
     checked (read_bytes_copy val offset sz) wire_error (\<lambda>bs.
       read_chanseq val sz junk n (i + 1) (offset + sz)
         (acc @ [\<lparr>chan_val0 = bs ! 0, chan_val1 = (if sz = 2 then bs ! 1 else junk i)\<rparr>]) wire_error continue)"

definition awdl_handle_chanseq_tlv :: "rx_env \<Rightarrow> awdl_peer \<Rightarrow> buf \<Rightarrow> awdl_state \<Rightarrow> (RX_RESULT \<times> awdl_peer) option" where
  "awdl_handle_chanseq_tlv env src val state =
     (let wire_error = Some (RX_TOO_SHORT, src); unexpected = Some (RX_UNEXPECTED_VALUE, src) in
      checked (read_u8 val 0) wire_error (\<lambda>count.
      if unat count + 1 \<noteq> AWDL_CHANSEQ_LENGTH then unexpected else
      checked (read_u8 val 2) wire_error (\<lambda>duplicate_count.
      if duplicate_count > 0 then unexpected else
      checked (read_u8 val 3) wire_error (\<lambda>step_count.
      if unat step_count + 1 \<noteq> unat (sy_presence_mode (st_sync state)) then unexpected else
      checked (read_le16 val 4) wire_error (\<lambda>fill_channel.
      if fill_channel \<noteq> 0xffff then unexpected else
      checked (read_u8 val 1) wire_error (\<lambda>encoding.
      (let sz = awdl_chan_encoding_size (awdl_chan_encoding_of encoding) in
       if sz < 1 then unexpected else
       read_chanseq val sz (env_chan env) AWDL_CHANSEQ_LENGTH 0 6 [] wire_error (\<lambda>list.
         Some (RX_OK, if p_sequence src \<noteq> list then src\<lparr>p_sequence := list\<rparr> else src)))))))))"

definition awdl_handle_election_params_tlv :: "awdl_peer \<Rightarrow> buf \<Rightarrow> awdl_state \<Rightarrow> (RX_RESULT \<times> awdl_peer) option" where
  "awdl_handle_election_params_tlv src val state =
     (if p_supports_v2 src then Some (RX_OK, src)
      else
        checked (read_u8 val 3) (Some (RX_TOO_SHORT, src)) (\<lambda>distance_to_master.
        (let src = src\<lparr>p_election := (p_election src)\<lparr>el_height := ucast distance_to_master\<rparr>\<rparr> in
         checked (read_ether_addr val 5) (Some (RX_TOO_SHORT, src)) (\<lambda>master_addr.
         (let src = src\<lparr>p_election := (p_election src)\<lparr>el_master_addr := master_addr\<rparr>\<rparr> in
          checked (read_le32 val 11) (Some (RX_TOO_SHORT, src)) (\<lambda>master_metric.
          (let src = src\<lparr>p_election := (p_election src)\<lparr>el_master_metric := master_metric\<rparr>\<rparr> in
           checked (read_le32 val 15) (Some (RX_TOO_SHORT, src)) (\<lambda>self_metric.
             Some (RX_OK, src\<lparr>p_election := (p_election src)\<lparr>el_self_metric := self_metric\<rparr>\<rparr>)))))))))"

definition awdl_handle_election_params_v2_tlv :: "awdl_peer \<Rightarrow> buf \<Rightarrow> awdl_state \<Rightarrow> (RX_RESULT \<times> awdl_peer) option" where
  "awdl_handle_election_params_v2_tlv src val state =
     checked (read_le32 val 16) (Some (RX_TOO_SHORT, src)) (\<lambda>height.
     (let src = src\<lparr>p_election := (p_election src)\<lparr>el_height := height\<rparr>\<rparr> in
      checked (read_ether_addr val 0) (Some (RX_TOO_SHORT, src)) (\<lambda>master_addr.
      (let src = src\<lparr>p_election := (p_election src)\<lparr>el_master_addr := master_addr\<rparr>\<rparr> in
       checked (read_ether_addr val 6) (Some (RX_TOO_SHORT, src)) (\<lambda>sync_addr.
       (let src = src\<lparr>p_election := (p_election src)\<lparr>el_sync_addr := sync_addr\<rparr>\<rparr> in
        checked (read_le32 val 12) (Some (RX_TOO_SHORT, src)) (\<lambda>master_counter.
        (let src = src\<lparr>p_election := (p_election src)\<lparr>el_master_counter := master_counter\<rparr>\<rparr> in
         checked (read_le32 val 20) (Some (RX_TOO_SHORT, src)) (\<lambda>master_metric.
         (let src = src\<lparr>p_election := (p_election src)\<lparr>el_master_metric := master_metric\<rparr>\<rparr> in
          checked (read_le32 val 24) (Some (RX_TOO_SHORT, src)) (\<lambda>self_metric.
          (let src = src\<lparr>p_election := (p_election src)\<lparr>el_self_metric := self_metric\<rparr>\<rparr> in
           checked (read_le32 val 36) (Some (RX_TOO_SHORT, src)) (\<lambda>self_counter.
             Some (RX_OK, src\<lparr>p_election := (p_election src)\<lparr>el_self_counter := self_counter\<rparr>,
                              p_supports_v2 := True\<rparr>))))))))))))))"

definition awdl_handle_arpa_tlv :: "awdl_peer \<Rightarrow> buf \<Rightarrow> awdl_state \<Rightarrow> (RX_RESULT \<times> awdl_peer) option" where
  "awdl_handle_arpa_tlv src val state =
     checked (read_int_string val 1 (p_name src) (int HOST_NAME_LENGTH_MAX)) (Some (RX_TOO_SHORT, src)) (\<lambda>name.
       Some (RX_OK, src\<lparr>p_name := name\<rparr>))"

definition AWDL_DATA_PATH_FLAG_COUNTRY_CODE :: u16 where
  "AWDL_DATA_PATH_FLAG_COUNTRY_CODE = 0x0100"

definition AWDL_DATA_PATH_FLAG_SOCIAL_CHANNEL_MAP :: u16 where
  "AWDL_DATA_PATH_FLAG_SOCIAL_CHANNEL_MAP = 0x0200"

definition AWDL_DATA_PATH_FLAG_INFRA_INFO :: u16 where
  "AWDL_DATA_PATH_FLAG_INFRA_INFO = 0x0001"

definition AWDL_DATA_PATH_FLAG_INFRA_ADDRESS :: u16 where
  "AWDL_DATA_PATH_FLAG_INFRA_ADDRESS = 0x0002"

definition AWDL_DATA_PATH_FLAG_AWDL_ADDRESS :: u16 where
  "AWDL_DATA_PATH_FLAG_AWDL_ADDRESS = 0x0004"

text \<open>An optional field: when its flag is set it is read and the offset advances.\<close>

definition optional_field ::
  "bool \<Rightarrow> (int \<Rightarrow> 'a wire_result) \<Rightarrow> int \<Rightarrow> int \<Rightarrow> awdl_peer \<Rightarrow> ('a \<Rightarrow> awdl_peer \<Rightarrow> awdl_peer) \<Rightarrow>
   (int \<Rightarrow> awdl_peer \<Rightarrow> (RX_RESULT \<times> awdl_peer) option) \<Rightarrow> (RX_RESULT \<times> awdl_peer) option" where
  "optional_field present rd sz offset src store continue =
     (if present
      then checked (rd offset) (Some (RX_TOO_SHORT, src)) (\<lambda>v. continue (offset + sz) (store v src))
      else continue offset src)"

definition awdl_handle_data_path_state_tlv :: "awdl_peer \<Rightarrow> buf \<Rightarrow> awdl_state \<Rightarrow> (RX_RESULT \<times> awdl_peer) option" where
  "awdl_handle_data_path_state_tlv src val state =
     checked (read_le16 val 0) (Some (RX_TOO_SHORT, src)) (\<lambda>flags.
     optional_field (flags AND AWDL_DATA_PATH_FLAG_COUNTRY_CODE \<noteq> 0)
       (\<lambda>offset. read_bytes_copy val offset 3) 3 2 src (\<lambda>cc src. src\<lparr>p_country_code := cc @ drop 3 (p_country_code src)\<rparr>) (\<lambda>offset src.
     optional_field (flags AND AWDL_DATA_PATH_FLAG_SOCIAL_CHANNEL_MAP \<noteq> 0)
       (read_le16 val) 2 offset src (\<lambda>_ src. src) (\<lambda>offset src.
     optional_field (flags AND AWDL_DATA_PATH_FLAG_INFRA_INFO \<noteq> 0)
       (read_ether_addr val) 6 offset src (\<lambda>_ src. src) (\<lambda>offset src.
     optional_field (flags AND AWDL_DATA_PATH_FLAG_INFRA_INFO \<noteq> 0)
       (read_le16 val) 2 offset src (\<lambda>_ src. src) (\<lambda>offset src.
     optional_field (flags AND AWDL_DATA_PATH_FLAG_INFRA_ADDRESS \<noteq> 0)
       (read_ether_addr val) 6 offset src (\<lambda>a src. src\<lparr>p_infra_addr := a\<rparr>) (\<lambda>offset src.
     optional_field (flags AND AWDL_DATA_PATH_FLAG_AWDL_ADDRESS \<noteq> 0)
       (read_ether_addr val) 6 offset src (\<lambda>_ src. src) (\<lambda>offset src.
     Some (RX_OK, src))))))))"

definition awdl_handle_version_tlv :: "awdl_peer \<Rightarrow> buf \<Rightarrow> awdl_state \<Rightarrow> (RX_RESULT \<times> awdl_peer) option" where
  "awdl_handle_version_tlv src val state =
     checked (read_u8 val 0) (Some (RX_TOO_SHORT, src)) (\<lambda>version.
     checked (read_u8 val 1) (Some (RX_TOO_SHORT, src)) (\<lambda>devclass.
       Some (RX_OK, src\<lparr>p_version := version, p_devclass := devclass\<rparr>)))"

definition with_state :: "awdl_state \<Rightarrow> (RX_RESULT \<times> awdl_peer) option \<Rightarrow> (RX_RESULT \<times> awdl_peer \<times> awdl_state) option" where
  "with_state state r = map_option (\<lambda>(result, src). (result, src, state)) r"

definition awdl_handle_tlv ::
  "rx_env \<Rightarrow> awdl_peer \<Rightarrow> u8 \<Rightarrow> buf \<Rightarrow> awdl_state \<Rightarrow> u64 \<Rightarrow> (RX_RESULT \<times> awdl_peer \<times> awdl_state) option" where
  "awdl_handle_tlv env src type val state tsft =
     (case awdl_tlv_of type of
        Some AWDL_SYNCHRONIZATON_PARAMETERS_TLV \<Rightarrow>
          map_option (\<lambda>(result, state). (result, src, state)) (awdl_handle_sync_params_tlv src val state tsft)
      | Some AWDL_CHAN_SEQ_TLV \<Rightarrow> with_state state (awdl_handle_chanseq_tlv env src val state)
      | Some AWDL_ELECTION_PARAMETERS_TLV \<Rightarrow> with_state state (awdl_handle_election_params_tlv src val state)
      | Some AWDL_ELECTION_PARAMETERS_V2_TLV \<Rightarrow> with_state state (awdl_handle_election_params_v2_tlv src val state)
      | Some AWDL_ARPA_TLV \<Rightarrow> with_state state (awdl_handle_arpa_tlv src val state)
      | Some AWDL_DATA_PATH_STATE_TLV \<Rightarrow> with_state state (awdl_handle_data_path_state_tlv src val state)
      | Some AWDL_VERSION_TLV \<Rightarrow> with_state state (awdl_handle_version_tlv src val state)
      | _ \<Rightarrow> Some (RX_IGNORE, src, state))"

section \<open>Action frames\<close>

text \<open>A call of \<^verbatim>\<open>buf_strip\<close> whose result is ignored.\<close>

definition strip_ignore :: "buf \<Rightarrow> int \<Rightarrow> buf" where
  "strip_ignore frame len = (case buf_strip frame len of Ret _ frame' \<Rightarrow> frame' | _ \<Rightarrow> frame)"

definition awdl_parse_action_hdr :: "buf \<Rightarrow> int option" where
  "awdl_parse_action_hdr frame =
     checked (read_bytes frame 0 16) (Some (- 1)) (\<lambda>_.
       (let af = buf_data frame;
            valid = (af ! 0 = IEEE80211_VENDOR_SPECIFIC \<and> memcmp (take 3 (drop 1 af)) AWDL_OUI = 0 \<and>
                     af ! 4 = AWDL_TYPE \<and> af ! 5 = AWDL_VERSION_COMPAT);
            subtype = af ! 6 in
        if valid \<and> (subtype = awdl_action_code AWDL_ACTION_PSF \<or> subtype = awdl_action_code AWDL_ACTION_MIF)
        then Some (uint subtype) else Some (- 1)))"

text \<open>The loop over the TLVs. The first component says whether it was left because of a parsing
  error. A \<^verbatim>\<open>buf_strip\<close> that failed would leave the frame unchanged and the loop without end.\<close>

function rx_tlvs ::
  "rx_env \<Rightarrow> u64 \<Rightarrow> buf \<Rightarrow> awdl_peer \<Rightarrow> awdl_state \<Rightarrow> rx_event list \<Rightarrow>
   (bool \<times> buf \<times> awdl_peer \<times> awdl_state \<times> rx_event list) option" where
  "rx_tlvs env tsft frame peer state events =
     (case read_tlv frame 0 of
        UB \<Rightarrow> None
      | Err _ \<Rightarrow> Some (False, frame, peer, state, events)
      | Ret len (tlv_type, tlv_len, tlv_value) \<Rightarrow>
          if len \<le> 0 then Some (False, frame, peer, state, events)
          else (case buf_new_const tlv_value (int (unat tlv_len)) of
                  None \<Rightarrow> None
                | Some tlv_buf \<Rightarrow>
                    (case awdl_handle_tlv env peer tlv_type tlv_buf state tsft of
                       None \<Rightarrow> None
                     | Some (result, peer', state') \<Rightarrow>
                         (let events' = events @ (if st_tlv_cb state' then [Tlv_cb peer' tlv_type (buf_bytes tlv_buf)] else []) in
                          if rx_code result < 0 then Some (True, frame, peer', state', events')
                          else (case buf_strip frame len of
                                  Ret _ frame' \<Rightarrow> rx_tlvs env tsft frame' peer' state' events'
                                | _ \<Rightarrow> None)))))"
  by pat_completeness auto
termination
proof (relation "measure (\<lambda>(env, tsft, frame, peer, state, events). nat (b_len frame))", goal_cases)
  case (2 env tsft frame peer state events len v t v' l ptr tlv_buf r result y peer' state' events' n frame')
  then show ?case by (auto simp: buf_strip_def split: if_splits)
qed simp

declare rx_tlvs.simps [simp del]

definition set_peers :: "awdl_state \<Rightarrow> awdl_peers \<Rightarrow> awdl_state" where
  "set_peers state m = state\<lparr>st_peers := (st_peers state)\<lparr>ps_peers := m\<rparr>\<rparr>"

definition peers_of :: "awdl_state \<Rightarrow> awdl_peers" where
  "peers_of state = ps_peers (st_peers state)"

text \<open>The record behind the pointer is stored back where the pointer points to.\<close>

definition write_peer :: "awdl_state \<Rightarrow> awdl_peer \<Rightarrow> awdl_state" where
  "write_peer state peer = set_peers state (hm_write (peers_of state) (peer_key (p_addr peer)) peer)"

definition count_rx_action :: "awdl_state \<Rightarrow> awdl_state" where
  "count_rx_action state = state\<lparr>st_stats := (st_stats state)\<lparr>stats_rx_action := stats_rx_action (st_stats state) + 1\<rparr>\<rparr>"

definition count_rx_data :: "awdl_state \<Rightarrow> awdl_state" where
  "count_rx_data state = state\<lparr>st_stats := (st_stats state)\<lparr>stats_rx_data := stats_rx_data (st_stats state) + 1\<rparr>\<rparr>"

text \<open>Whether the frame is dropped for its signal strength.\<close>

definition rssi_too_low :: "awdl_state \<Rightarrow> ether_addr \<Rightarrow> int \<Rightarrow> bool" where
  "rssi_too_low state src rssi \<longleftrightarrow>
     st_filter_rssi state \<and>
     (let status = fst (awdl_peer_get (peers_of state) src) in
      status = PEERS_OK \<and> rssi < st_rssi_threshold state + st_rssi_grace state \<or>
      status = PEERS_MISSING \<and> rssi < st_rssi_threshold state)"

text \<open>The part of \<^verbatim>\<open>awdl_rx_action\<close> after the TLV loop: \<open>err\<close> says that the loop was left by an error.\<close>

definition rx_action_finish ::
  "rx_env \<Rightarrow> int \<Rightarrow> u64 \<Rightarrow> ether_addr \<Rightarrow> bool \<Rightarrow> buf \<Rightarrow> awdl_peer \<Rightarrow> awdl_state \<Rightarrow> rx_event list \<Rightarrow>
   (RX_RESULT \<times> awdl_state \<times> rx_event list) option" where
  "rx_action_finish env subtype tsft src err frame peer state events =
     (if err then Some (RX_UNEXPECTED_FORMAT, write_peer state peer, events)
      else if buf_len frame > 0 then Some (RX_UNEXPECTED_FORMAT, write_peer state peer, events)
      else
        (let peer = (if subtype = uint (awdl_action_code AWDL_ACTION_MIF) then peer\<lparr>p_sent_mif := True\<rparr> else peer);
             state = write_peer state peer in
         case awdl_peer_add (env_mem env) (env_peer env) (peers_of state) src tsft (st_peer_cb state) of
           None \<Rightarrow> None
         | Some (_, peers, called) \<Rightarrow> Some (RX_OK, set_peers state peers, events @ map Peer_cb called)))"

definition awdl_rx_action ::
  "rx_env \<Rightarrow> buf \<Rightarrow> int \<Rightarrow> u64 \<Rightarrow> ether_addr \<Rightarrow> ether_addr \<Rightarrow> awdl_state \<Rightarrow> (RX_RESULT \<times> awdl_state \<times> rx_event list) option" where
  "awdl_rx_action env frame rssi tsft src dst state =
     (case awdl_parse_action_hdr frame of
        None \<Rightarrow> None
      | Some subtype \<Rightarrow>
          if subtype < 0 then Some (RX_IGNORE, state, [])
          else
            (let frame = strip_ignore frame 16 in
             if rssi_too_low state src rssi then Some (RX_IGNORE_RSSI, state, [])
             else
               (let state = count_rx_action state in
                case awdl_peer_add (env_mem env) (env_peer env) (peers_of state) src tsft (st_peer_cb state) of
                  None \<Rightarrow> None
                | Some (status, peers, called) \<Rightarrow>
                    (let state = set_peers state peers; events = map Peer_cb called in
                     if peers_status_code status < 0 then Some (RX_IGNORE, state, events)
                     else
                       (case awdl_peer_get (peers_of state) src of
                          (status, found) \<Rightarrow>
                            if peers_status_code status < 0 then Some (RX_IGNORE, state, events)
                            else
                              (case found of
                                 None \<Rightarrow> None
                               | Some peer \<Rightarrow>
                                   (case rx_tlvs env tsft frame peer state events of
                                      None \<Rightarrow> None
                                    | Some (err, frame, peer, state, events) \<Rightarrow>
                                        rx_action_finish env subtype tsft src err frame peer state events)))))))"

section \<open>Data frames\<close>

definition llc_parse :: "buf \<Rightarrow> (RX_RESULT \<times> llc_hdr option) option" where
  "llc_parse frame =
     (let wire_error = Some (RX_TOO_SHORT, None) in
      checked (read_u8 frame 0) wire_error (\<lambda>dsap.
      checked (read_u8 frame 1) wire_error (\<lambda>ssap.
      checked (read_u8 frame 2) wire_error (\<lambda>control.
      checked (read_bytes_copy frame 3 3) wire_error (\<lambda>oui.
      checked (read_be16 frame 6) wire_error (\<lambda>pid.
        Some (RX_OK, Some \<lparr>llc_dsap = dsap, llc_ssap = ssap, llc_control = control, llc_oui = oui, llc_pid = pid\<rparr>)))))))"

definition awdl_valid_llc_header :: "buf \<Rightarrow> bool option" where
  "awdl_valid_llc_header frame =
     (case llc_parse frame of
        None \<Rightarrow> None
      | Some (result, llc) \<Rightarrow>
          if rx_code result < 0 then Some False
          else (case llc of
                  None \<Rightarrow> None
                | Some llc \<Rightarrow>
                    Some (\<not> (llc_dsap llc \<noteq> 0xaa \<or> llc_ssap llc \<noteq> 0xaa \<or> llc_control llc \<noteq> 0x03 \<or>
                             llc_pid llc \<noteq> AWDL_LLC_PROTOCOL_ID))))"

definition ETHER_MAX_LEN :: int where
  "ETHER_MAX_LEN = 1518"

text \<open>A write whose result is added to the offset: on failure the buffer stays and the offset
  changes by the error code.\<close>

definition write_add :: "(buf \<Rightarrow> int \<Rightarrow> buf wire_result) \<Rightarrow> buf \<times> int \<Rightarrow> (buf \<times> int) option" where
  "write_add wr bo =
     (case bo of (b, offset) \<Rightarrow>
        (case wr b offset of Ret n b' \<Rightarrow> Some (b', offset + n) | Err _ \<Rightarrow> Some (b, offset - 1) | UB \<Rightarrow> None))"

text \<open>The Ethernet frame delivered to the host; \<open>junk\<close> is the content of the fresh memory.\<close>

definition rx_build_frame :: "(nat \<Rightarrow> u8) \<Rightarrow> buf \<Rightarrow> u16 \<Rightarrow> ether_addr \<Rightarrow> ether_addr \<Rightarrow> buf option" where
  "rx_build_frame junk frame ether_type src dst =
     (case buf_new_owned junk ETHER_MAX_LEN of
        None \<Rightarrow> None
      | Some out \<Rightarrow>
          Option.bind (write_add (\<lambda>b offset. write_ether_addr b offset dst) (out, 0)) (\<lambda>bo.
          Option.bind (write_add (\<lambda>b offset. write_ether_addr b offset src) bo) (\<lambda>bo.
          Option.bind (write_add (\<lambda>b offset. write_be16 b offset ether_type) bo) (\<lambda>bo.
          Option.bind (write_add (\<lambda>b offset. write_bytes b offset (buf_data frame) (buf_len frame)) bo) (\<lambda>bo.
          Some (fst bo))))))"

text \<open>\<open>out\<close> holds the frames stored so far in the caller's array of \<open>cap\<close> pointers; storing one
  more in a full array is undefined.\<close>

definition awdl_rx_data ::
  "rx_env \<Rightarrow> nat \<Rightarrow> buf \<Rightarrow> buf list \<Rightarrow> ether_addr \<Rightarrow> ether_addr \<Rightarrow> awdl_state \<Rightarrow> (RX_RESULT \<times> buf list \<times> awdl_state) option" where
  "awdl_rx_data env cap frame out src dst state =
     (let state = count_rx_data state in
      if fst (awdl_peer_get (peers_of state) src) \<noteq> PEERS_OK then Some (RX_IGNORE_PEER, out, state)
      else
        (case awdl_valid_llc_header frame of
           None \<Rightarrow> None
         | Some valid \<Rightarrow>
             if \<not> valid then Some (RX_UNEXPECTED_FORMAT, out, state)
             else
               (let frame = strip_ignore frame 8 in
                if buf_len frame < 8 then Some (RX_TOO_SHORT, out, state)
                else
                  (case read_be16 frame 6 of
                     Ret _ ether_type \<Rightarrow>
                       (let frame = strip_ignore frame 8 in
                        if cap \<le> length out then None
                        else
                          (case rx_build_frame (env_frame env) frame ether_type src dst of
                             None \<Rightarrow> None
                           | Some b \<Rightarrow> Some (RX_OK, out @ [b], state)))
                   | _ \<Rightarrow> None))))"

lemma buf_strip_le: "buf_strip b n = Ret r b' \<Longrightarrow> b_len b' \<le> b_len b \<and> (0 < n \<longrightarrow> b_len b' < b_len b)"
  by (auto dest!: buf_strip_len)

function awdl_rx_data_amsdu ::
  "rx_env \<Rightarrow> nat \<Rightarrow> buf \<Rightarrow> buf list \<Rightarrow> awdl_state \<Rightarrow> (RX_RESULT \<times> buf list \<times> awdl_state) option" where
  "awdl_rx_data_amsdu env cap frame out state =
     (if \<not> buf_len frame > 0 then Some (RX_OK, out, state)
      else
        (let wire_error = Some (RX_TOO_SHORT, out, state) in
         checked (read_ether_addr frame 0) wire_error (\<lambda>dst_a.
         checked (read_ether_addr frame 6) wire_error (\<lambda>src_a.
         checked (read_be16 frame 12) wire_error (\<lambda>len_a.
         (case buf_strip frame 14 of
            Ret _ frame1 \<Rightarrow>
              if int (unat len_a) > buf_len frame1 then Some (RX_TOO_SHORT, out, state)
              else
                (case buf_new_const (buf_data frame1) (int (unat len_a)) of
                   None \<Rightarrow> None
                 | Some subframe \<Rightarrow>
                     (case awdl_rx_data env cap subframe out src_a dst_a state of
                        None \<Rightarrow> None
                      | Some (err, out, state) \<Rightarrow>
                          if rx_code err < 0 then Some (err, out, state)
                          else
                            (case buf_strip frame1 (int (unat len_a)) of
                               Ret _ frame2 \<Rightarrow>
                                 if buf_len frame2 > 0
                                 then (case buf_strip frame2 ((4 - ((14 + int (unat len_a)) mod 4)) mod 4) of
                                         Ret _ frame3 \<Rightarrow> awdl_rx_data_amsdu env cap frame3 out state
                                       | _ \<Rightarrow> Some (RX_TOO_SHORT, out, state))
                                 else awdl_rx_data_amsdu env cap frame2 out state
                             | _ \<Rightarrow> Some (RX_TOO_SHORT, out, state))))
          | _ \<Rightarrow> wire_error))))))"
  by pat_completeness auto
termination
  by (relation "measure (\<lambda>(env, cap, frame, out, state). nat (b_len frame))")
    (auto simp: buf_len_def dest!: buf_strip_le)

declare awdl_rx_data_amsdu.simps [simp del]

section \<open>Frames\<close>

text \<open>The fields the iterator yields, starting from the values the caller's variables have.\<close>

definition radiotap_field :: "radiotap \<Rightarrow> bool \<times> nat \<times> u8 \<Rightarrow> int \<times> u8 \<Rightarrow> int \<times> u8" where
  "radiotap_field rt field vars =
     (case field of (is_radiotap_ns, index, arg) \<Rightarrow>
        if is_radiotap_ns \<and> index = rt_FLAGS rt then (fst vars, arg)
        else if is_radiotap_ns \<and> index = rt_DBM_ANTSIGNAL rt then (sint arg, snd vars)
        else vars)"

definition radiotap_parse :: "radiotap \<Rightarrow> buf \<Rightarrow> int \<Rightarrow> u8 \<Rightarrow> RX_RESULT \<times> int \<times> u8" where
  "radiotap_parse rt frame rssi flags =
     (case rt_iterate rt (buf_data frame) (buf_len frame) of
        (err, found, at_end) \<Rightarrow>
          if err < 0 then (RX_UNEXPECTED_FORMAT, rssi, flags)
          else (case fold (radiotap_field rt) found (rssi, flags) of
                  (rssi, flags) \<Rightarrow> (if at_end then RX_OK else RX_UNEXPECTED_FORMAT, rssi, flags)))"

definition check_fcs :: "radiotap \<Rightarrow> buf \<Rightarrow> u8 \<Rightarrow> int \<times> buf" where
  "check_fcs rt frame radiotap_flags =
     (if radiotap_flags AND rt_F_BADFCS rt \<noteq> 0 then (- 1, frame)
      else if radiotap_flags AND rt_F_FCS rt \<noteq> 0
      then (case buf_take frame 4 of Ret _ frame' \<Rightarrow> (0, frame') | _ \<Rightarrow> (- 1, frame))
      else (0, frame))"

definition rx_result_of :: "(RX_RESULT \<times> awdl_state \<times> rx_event list) option \<Rightarrow> (RX_RESULT \<times> buf list \<times> awdl_state \<times> rx_event list) option" where
  "rx_result_of r = map_option (\<lambda>(result, state, events). (result, [], state, events)) r"

definition rx_result_data :: "(RX_RESULT \<times> buf list \<times> awdl_state) option \<Rightarrow> (RX_RESULT \<times> buf list \<times> awdl_state \<times> rx_event list) option" where
  "rx_result_data r = map_option (\<lambda>(result, out, state). (result, out, state, [])) r"

text \<open>The switch over the frame type at the end of \<^verbatim>\<open>awdl_rx\<close>; \<open>now\<close> is the reading of the clock and
  \<open>cap\<close> the size of the caller's array of frames.\<close>

definition rx_dispatch ::
  "rx_env \<Rightarrow> nat \<Rightarrow> u64 \<Rightarrow> int \<Rightarrow> u16 \<Rightarrow> ether_addr \<Rightarrow> ether_addr \<Rightarrow> buf \<Rightarrow> awdl_state \<Rightarrow>
   (RX_RESULT \<times> buf list \<times> awdl_state \<times> rx_event list) option" where
  "rx_dispatch env cap now rssi fc from to frame state =
     (let kind = fc AND (IEEE80211_FCTL_FTYPE OR IEEE80211_FCTL_STYPE); wire_error = Some (RX_TOO_SHORT, [], state, []) in
      if kind = IEEE80211_FTYPE_MGMT OR IEEE80211_STYPE_ACTION
      then rx_result_of (awdl_rx_action env frame rssi now from to state)
      else if kind = IEEE80211_FTYPE_DATA OR IEEE80211_STYPE_DATA OR IEEE80211_STYPE_QOS_DATA
      then checked (read_le16 frame 0) wire_error (\<lambda>qosc.
           checked (buf_strip frame IEEE80211_QOS_CTL_LEN) wire_error (\<lambda>frame.
             if qosc AND IEEE80211_QOS_CTL_A_MSDU_PRESENT \<noteq> 0
             then rx_result_data (awdl_rx_data_amsdu env cap frame [] state)
             else rx_result_data (awdl_rx_data env cap frame [] from to state)))
      else if kind = IEEE80211_FTYPE_DATA OR IEEE80211_STYPE_DATA
      then rx_result_data (awdl_rx_data env cap frame [] from to state)
      else Some (RX_UNEXPECTED_TYPE, [], state, []))"

text \<open>The part of \<^verbatim>\<open>awdl_rx\<close> from the 802.11 header on.\<close>

definition rx_ieee80211 ::
  "rx_env \<Rightarrow> nat \<Rightarrow> u64 \<Rightarrow> int \<Rightarrow> buf \<Rightarrow> awdl_state \<Rightarrow> (RX_RESULT \<times> buf list \<times> awdl_state \<times> rx_event list) option" where
  "rx_ieee80211 env cap now rssi frame state =
     (let wire_error = Some (RX_TOO_SHORT, [], state, []) in
      checked (read_bytes frame 0 24) wire_error (\<lambda>_.
      (let hdr = buf_data frame;
           fc = le16_value (take 2 hdr);
           to = ether_of_bytes (take 6 (drop 4 hdr));
           from = ether_of_bytes (take 6 (drop 10 hdr)) in
       if memcmp (ether_bytes from) (ether_bytes (st_self_address state)) = 0
       then Some (RX_IGNORE_FROM_SELF, [], state, [])
       else checked (buf_strip frame 24) wire_error (\<lambda>frame. rx_dispatch env cap now rssi fc from to frame state))))"

definition awdl_rx ::
  "radiotap \<Rightarrow> rx_env \<Rightarrow> nat \<Rightarrow> u64 \<Rightarrow> buf \<Rightarrow> awdl_state \<Rightarrow> (RX_RESULT \<times> buf list \<times> awdl_state \<times> rx_event list) option" where
  "awdl_rx rt env cap now frame state =
     (case radiotap_parse rt frame (env_rssi env) (env_flags env) of
        (result, rssi, flags) \<Rightarrow>
          if rx_code result < 0 then Some (RX_UNEXPECTED_FORMAT, [], state, [])
          else
            checked (buf_strip frame (int (unat (rt_it_len rt (buf_data frame))))) (Some (RX_TOO_SHORT, [], state, [])) (\<lambda>frame.
            (case check_fcs rt frame flags of
               (bad, frame) \<Rightarrow>
                 if bad \<noteq> 0 then Some (RX_IGNORE_FAILED_CRC, [], state, [])
                 else rx_ieee80211 env cap now rssi frame state)))"

section \<open>The handlers are defined and keep the peer's invariant\<close>

lemma reads_defined:
  assumes "buf_wf b" and "0 \<le> i" and "i \<le> 1000"
  shows "read_u8 b i \<noteq> UB" "read_le16 b i \<noteq> UB" "read_be16 b i \<noteq> UB" "read_le32 b i \<noteq> UB" "read_be32 b i \<noteq> UB"
    "read_ether_addr b i \<noteq> UB" "0 \<le> n \<Longrightarrow> n \<le> 6 \<Longrightarrow> read_bytes_copy b i n \<noteq> UB"
  using assms
  by (simp_all add: field_u8.read_wf field_le16.read_wf field_be16.read_wf field_le32.read_wf field_be32.read_wf
      field_ether.read_wf read_bytes_copy_wf INT_MAX_def)

text \<open>What a TLV handler may change of a peer.\<close>

definition same_peer :: "awdl_peer \<Rightarrow> awdl_peer \<Rightarrow> bool" where
  "same_peer p q \<longleftrightarrow> p_addr q = p_addr p \<and> p_last_update q = p_last_update p \<and> p_sent_mif q = p_sent_mif p \<and>
     p_is_valid q = p_is_valid p \<and> (peer_ok p \<longrightarrow> peer_ok q)"

lemma same_peer_refl [simp]: "same_peer p p"
  by (simp add: same_peer_def)

lemma same_peer_trans: "same_peer p q \<Longrightarrow> same_peer q r \<Longrightarrow> same_peer p r"
  by (simp add: same_peer_def)

lemma same_peer_updates [simp]:
  "el_self_addr e = el_self_addr (p_election q) \<Longrightarrow> same_peer p (q\<lparr>p_election := e\<rparr>) = same_peer p q"
  "same_peer p (q\<lparr>p_supports_v2 := v2\<rparr>) = same_peer p q"
  "same_peer p (q\<lparr>p_version := v, p_devclass := d\<rparr>) = same_peer p q"
  "same_peer p (q\<lparr>p_infra_addr := a\<rparr>) = same_peer p q"
  by (auto simp: same_peer_def peer_ok_def)

definition handled :: "awdl_peer \<Rightarrow> (RX_RESULT \<times> awdl_peer) option \<Rightarrow> bool" where
  "handled src r \<longleftrightarrow> (\<exists>result src'. r = Some (result, src') \<and> same_peer src src')"

lemma handled_Some [simp]: "handled src (Some (result, src')) = same_peer src src'"
  by (simp add: handled_def)

lemma handled_checked:
  assumes "r \<noteq> UB" and "handled p err" and "\<And>v. handled p (continue v)"
  shows "handled p (checked r err continue)"
  using assms by (cases r) (auto simp: checked_def)

lemma handle_version_handled: "buf_wf val \<Longrightarrow> handled src (awdl_handle_version_tlv src val state)"
  unfolding awdl_handle_version_tlv_def by (intro handled_checked) (simp_all add: reads_defined)

lemma handle_election_handled: "buf_wf val \<Longrightarrow> handled src (awdl_handle_election_params_tlv src val state)"
  unfolding awdl_handle_election_params_tlv_def Let_def
  by (cases "p_supports_v2 src") (simp, simp only: if_False, intro handled_checked, simp_all add: reads_defined)

lemma handle_election_v2_handled: "buf_wf val \<Longrightarrow> handled src (awdl_handle_election_params_v2_tlv src val state)"
  unfolding awdl_handle_election_params_v2_tlv_def Let_def by (intro handled_checked) (simp_all add: reads_defined)

lemma optional_field_handled:
  assumes "rd offset \<noteq> UB" and "same_peer p src" and "\<And>v. same_peer p (store v src)"
    and "\<And>o' s. o' = offset \<or> o' = offset + sz \<Longrightarrow> same_peer p s \<Longrightarrow> handled p (continue o' s)"
  shows "handled p (optional_field present rd sz offset src store continue)"
  unfolding optional_field_def using assms by (auto intro!: handled_checked)

lemma handle_arpa_handled:
  assumes "buf_wf val" and "peer_ok src"
  shows "handled src (awdl_handle_arpa_tlv src val state)"
proof -
  have len: "length (p_name src) = 65" using assms(2) by (simp add: peer_ok_def HOST_NAME_LENGTH_MAX_def)
  have r: "read_int_string val 1 (p_name src) (int HOST_NAME_LENGTH_MAX) =
    (let n = min (unat (buf_bytes val ! 1)) 64 in
     if 1 < length (buf_bytes val) \<and> 2 + n \<le> length (buf_bytes val)
     then Ret (int n + 1) (take n (drop 2 (buf_bytes val)) @ 0 # drop (n + 1) (p_name src))
     else Err OUT_OF_BOUNDS)"
    using read_int_string_wf [OF assms(1), of 1 64 "p_name src"] len
    by (simp add: HOST_NAME_LENGTH_MAX_def INT_MAX_def Let_def numeral_2_eq_2)
  have "same_peer src (src\<lparr>p_name := take n (drop 2 (buf_bytes val)) @ 0 # drop (n + 1) (p_name src)\<rparr>)"
    if "n = min (unat (buf_bytes val ! 1)) 64" "2 + n \<le> length (buf_bytes val)" for n
  proof -
    from that have "length (take n (drop 2 (buf_bytes val))) = n" "n < 65" by auto
    then show ?thesis using assms(2) len by (simp add: same_peer_def peer_ok_def HOST_NAME_LENGTH_MAX_def)
  qed
  then show ?thesis by (simp add: awdl_handle_arpa_tlv_def r checked_def Let_def)
qed

lemma handle_data_path_handled:
  assumes "buf_wf val" and "peer_ok src"
  shows "handled src (awdl_handle_data_path_state_tlv src val state)"
proof -
  have cc: "same_peer src (s\<lparr>p_country_code := v @ drop 3 (p_country_code s)\<rparr>)"
    if "same_peer src s" "read_bytes_copy val 2 3 = Ret n v" for s n v
  proof -
    from that(2) have "length v = 3"
      using assms(1) by (auto simp: read_bytes_copy_wf INT_MAX_def split: if_splits)
    then show ?thesis using that(1) assms(2) by (auto simp: same_peer_def peer_ok_def)
  qed
  show ?thesis
  proof (cases "read_le16 val 0")
    case (Ret n flags)
    have rest: "handled src
       (optional_field (flags AND AWDL_DATA_PATH_FLAG_SOCIAL_CHANNEL_MAP \<noteq> 0) (read_le16 val) 2 o1 s1 (\<lambda>_ src. src) (\<lambda>offset src.
        optional_field (flags AND AWDL_DATA_PATH_FLAG_INFRA_INFO \<noteq> 0) (read_ether_addr val) 6 offset src (\<lambda>_ src. src) (\<lambda>offset src.
        optional_field (flags AND AWDL_DATA_PATH_FLAG_INFRA_INFO \<noteq> 0) (read_le16 val) 2 offset src (\<lambda>_ src. src) (\<lambda>offset src.
        optional_field (flags AND AWDL_DATA_PATH_FLAG_INFRA_ADDRESS \<noteq> 0) (read_ether_addr val) 6 offset src (\<lambda>a src. src\<lparr>p_infra_addr := a\<rparr>) (\<lambda>offset src.
        optional_field (flags AND AWDL_DATA_PATH_FLAG_AWDL_ADDRESS \<noteq> 0) (read_ether_addr val) 6 offset src (\<lambda>_ src. src) (\<lambda>offset src.
        Some (RX_OK, src)))))))" if "same_peer src s1" "o1 = 2 \<or> o1 = 5" for o1 s1
      using that assms(1)
      by (intro optional_field_handled) (auto simp: reads_defined)
    show ?thesis
    proof (cases "flags AND AWDL_DATA_PATH_FLAG_COUNTRY_CODE \<noteq> 0")
      case True
      with Ret show ?thesis
        using rest [of _ 5] cc [of src] reads_defined(7) [OF assms(1), of 2 3]
        by (cases "read_bytes_copy val 2 3")
          (auto simp: awdl_handle_data_path_state_tlv_def checked_def optional_field_def [of True])
    next
      case False
      with Ret show ?thesis
        using rest [of src 2]
        by (auto simp: awdl_handle_data_path_state_tlv_def checked_def optional_field_def [of False])
    qed
  qed (use reads_defined(2) [OF assms(1), of 0] in \<open>auto simp: awdl_handle_data_path_state_tlv_def checked_def\<close>)
qed

lemma read_chanseq_handled:
  assumes "buf_wf val" and "sz = 1 \<or> sz = 2" and "handled p err" and "6 \<le> offset" and "offset + 2 * int n \<le> 100"
    and "\<And>list. length list = length acc + n \<Longrightarrow> handled p (continue list)"
  shows "handled p (read_chanseq val sz junk n i offset acc err continue)"
  using assms(4-6)
proof (induction n arbitrary: i offset acc)
  case (Suc n)
  show ?case
    unfolding read_chanseq.simps
  proof (rule handled_checked)
    show "read_bytes_copy val offset sz \<noteq> UB"
      using Suc.prems(1,2) assms(2) by (intro reads_defined(7) [OF assms(1)]) auto
    show "handled p err" by (rule assms(3))
    fix v
    show "handled p (read_chanseq val sz junk n (i + 1) (offset + sz)
      (acc @ [\<lparr>chan_val0 = v ! 0, chan_val1 = if sz = 2 then v ! 1 else junk i\<rparr>]) err continue)"
      using Suc.prems assms(2) by (intro Suc.IH) auto
  qed
qed simp

lemma handle_chanseq_handled:
  assumes "buf_wf val"
  shows "handled src (awdl_handle_chanseq_tlv env src val state)"
proof -
  have seq: "handled src (Some (RX_OK, if p_sequence src \<noteq> list then src\<lparr>p_sequence := list\<rparr> else src))"
    if "length list = AWDL_CHANSEQ_LENGTH" for list
    using that by (auto simp: same_peer_def peer_ok_def)
  have known: "sz = 1 \<or> sz = 2" if "\<not> sz < 1" "sz = awdl_chan_encoding_size (awdl_chan_encoding_of e)" for sz e
    using that by (cases "awdl_chan_encoding_of e") (auto simp: awdl_chan_encoding_size_def)
  have loop: "handled src (read_chanseq val (awdl_chan_encoding_size (awdl_chan_encoding_of e)) (env_chan env)
        AWDL_CHANSEQ_LENGTH 0 6 [] (Some (RX_TOO_SHORT, src))
        (\<lambda>list. Some (RX_OK, if p_sequence src \<noteq> list then src\<lparr>p_sequence := list\<rparr> else src)))"
    if "\<not> awdl_chan_encoding_size (awdl_chan_encoding_of e) < 1" for e
    using seq by (intro read_chanseq_handled [OF assms known [OF that refl]]) (simp_all add: AWDL_CHANSEQ_LENGTH_def)
  show ?thesis
    unfolding awdl_handle_chanseq_tlv_def Let_def
    using assms by (intro handled_checked) (simp_all add: reads_defined handled_checked loop)
qed

text \<open>What reception may change of the state besides the peer table.\<close>

definition same_state :: "awdl_state \<Rightarrow> awdl_state \<Rightarrow> bool" where
  "same_state s t \<longleftrightarrow> (\<exists>sync. t = s\<lparr>st_sync := sync\<rparr> \<and> (sync_ok (st_sync s) \<longrightarrow> sync_ok sync))"

lemma same_state_refl [simp]: "same_state s s"
  unfolding same_state_def by (intro exI [of _ "st_sync s"]) simp

lemma same_state_trans: "same_state s t \<Longrightarrow> same_state t u \<Longrightarrow> same_state s u"
  by (auto simp: same_state_def)

lemma sync_ok_meas [simp]:
  "sync_ok (s\<lparr>sy_meas_total := t\<rparr>) = sync_ok s" "sync_ok (s\<lparr>sy_meas_err := e\<rparr>) = sync_ok s"
  "sync_ok (s\<lparr>sy_meas_err := e, sy_meas_total := t\<rparr>) = sync_ok s"
  by (simp_all add: sync_ok_def)

lemma handle_sync_total:
  assumes "buf_wf val"
  shows "\<exists>result state'. awdl_handle_sync_params_tlv src val state now = Some (result, state') \<and> same_state state state'"
proof -
  have upd: "same_state state (state\<lparr>st_sync := awdl_sync_update_last now ttn aw s\<rparr>)"
    if "sync_ok (st_sync state) \<longrightarrow> sync_ok s" for ttn aw s
    unfolding same_state_def by (rule exI, rule conjI, rule refl) (use that sync_update_last_ok in blast)
  show ?thesis
    using assms upd
    by (cases "awdl_election_is_sync_master (st_election state) (p_addr src)")
      (auto simp: awdl_handle_sync_params_tlv_def checked_fields INT_MAX_def Let_def)
qed

lemma handle_tlv_total:
  assumes "buf_wf val" and "peer_ok src"
  shows "\<exists>result src' state'. awdl_handle_tlv env src type val state tsft = Some (result, src', state') \<and>
    same_peer src src' \<and> same_state state state'"
proof -
  have lift: "\<exists>result src' state'. with_state state r = Some (result, src', state') \<and> same_peer src src' \<and> same_state state state'"
    if "handled src r" for r
    using that by (auto simp: handled_def with_state_def)
  note all = handle_chanseq_handled [OF assms(1), THEN lift] handle_election_handled [OF assms(1), THEN lift]
    handle_election_v2_handled [OF assms(1), THEN lift] handle_arpa_handled [OF assms, THEN lift]
    handle_data_path_handled [OF assms, THEN lift] handle_version_handled [OF assms(1), THEN lift]
  have sync: "\<exists>result src' state'. map_option (\<lambda>(result, state). (result, src, state)) (awdl_handle_sync_params_tlv src val state tsft) =
      Some (result, src', state') \<and> same_peer src src' \<and> same_state state state'"
    using handle_sync_total [OF assms(1), of src state tsft] by auto
  show ?thesis
  proof (cases "awdl_tlv_of type")
    case None
    then show ?thesis by (simp add: awdl_handle_tlv_def)
  next
    case (Some t)
    then show ?thesis
      unfolding awdl_handle_tlv_def using all sync by (cases t) simp_all
  qed
qed

lemma buf_new_const_tlv:
  assumes "buf_wf frame" and "read_tlv frame 0 = Ret len (t, l, ptr)"
  shows "0 < len" and "\<exists>b. buf_new_const ptr (int (unat l)) = Some b \<and> buf_wf b"
    and "\<exists>b. buf_strip frame len = Ret len b \<and> buf_wf b"
    and "\<exists>v rest. tlv_view (buf_bytes frame) = Some (t, v, rest)"
proof -
  obtain t' v rest where view: "tlv_view (buf_bytes frame) = Some (t', v, rest)"
    using read_tlv_None [OF assms(1)] assms(2) by (cases "tlv_view (buf_bytes frame)") auto
  note r = read_tlv_Some [OF assms(1) view]
  have eq: "len = int (length v) + 3" "t = t'" "l = of_nat (length v)" "ptr = drop 3 (buf_data frame)"
    using r(1) assms(2) by auto
  have len: "length v < 65536" and fits: "length v + 3 \<le> length (buf_bytes frame)"
    using tlv_view_length [OF view] by simp_all
  show "0 < len" by (simp add: eq)
  have l: "unat l = length v" using len by (simp add: eq unat_of_nat take_bit_eq_mod)
  show "\<exists>b. buf_new_const ptr (int (unat l)) = Some b \<and> buf_wf b"
    unfolding l using buf_new_const_wf [of ptr "int (length v)"] r(3) len
    by (simp add: buf_new_const_def eq INT_MAX_def)
  show "\<exists>b. buf_strip frame len = Ret len b \<and> buf_wf b"
    using buf_strip_ok [OF assms(1) fits] by (auto simp: eq add.commute)
  show "\<exists>v rest. tlv_view (buf_bytes frame) = Some (t, v, rest)" using view eq by blast
qed

lemma rx_tlvs_total:
  assumes "buf_wf frame" and "peer_ok peer"
  shows "\<exists>err frame' peer' state' events'. rx_tlvs env tsft frame peer state events = Some (err, frame', peer', state', events') \<and>
    buf_wf frame' \<and> same_peer peer peer' \<and> same_state state state'"
  using assms
proof (induction env tsft frame peer state events rule: rx_tlvs.induct)
  case (1 env tsft frame peer state events)
  have "read_tlv frame 0 \<noteq> UB"
    using read_tlv_None [OF 1(2)] read_tlv_Some(1) [OF 1(2)] by (cases "tlv_view (buf_bytes frame)") auto
  then show ?case
  proof (cases "read_tlv frame 0")
    case (Err e)
    then show ?thesis using 1(2) by (auto simp: rx_tlvs.simps [of _ _ frame])
  next
    case (Ret len r)
    obtain t l ptr where r: "r = (t, l, ptr)" by (cases r) auto
    note rd = Ret [unfolded r]
    obtain b where b: "buf_new_const ptr (int (unat l)) = Some b" "buf_wf b"
      and pos: "0 < len" using buf_new_const_tlv [OF 1(2) rd] by auto
    obtain frame' where st: "buf_strip frame len = Ret len frame'" "buf_wf frame'"
      using buf_new_const_tlv(3) [OF 1(2) rd] by auto
    obtain result peer' state' where h: "awdl_handle_tlv env peer t b state tsft = Some (result, peer', state')"
      and same: "same_peer peer peer'" "same_state state state'"
      using handle_tlv_total [OF b(2) 1(3)] by metis
    have ok: "peer_ok peer'" using same(1) 1(3) by (simp add: same_peer_def)
    let ?events = "events @ (if st_tlv_cb state' then [Tlv_cb peer' t (buf_bytes b)] else [])"
    show ?thesis
    proof (cases "rx_code result < 0")
      case True
      then show ?thesis using rd b h pos same 1(2) by (auto simp: rx_tlvs.simps [of _ _ frame] Let_def)
    next
      case False
      have "rx_tlvs env tsft frame peer state events = rx_tlvs env tsft frame' peer' state' ?events"
        using rd b h pos st False by (simp add: rx_tlvs.simps [of _ _ frame] Let_def)
      moreover obtain err f p s e where "rx_tlvs env tsft frame' peer' state' ?events = Some (err, f, p, s, e)"
        and "buf_wf f" "same_peer peer' p" "same_state state' s"
        using 1(1) [OF rd refl refl _ b(1) h refl refl refl False st(1) st(2) ok] pos by fastforce
      ultimately show ?thesis using same by (auto intro: same_peer_trans same_state_trans)
    qed
  qed simp
qed

end
