(* ===== verification/Rx_Action.thy ===== *)
theory Rx_Action
  imports Rx
begin

text \<open>
  The correctness of \<^verbatim>\<open>awdl_rx_action\<close> of \<^verbatim>\<open>src/src/rx.c\<close>: for every frame the function is
  defined, it keeps the invariant of the state, and it changes nothing but the record of the
  sender, the synchronisation and the statistics; the filter on the signal strength.
\<close>

section \<open>Parts of the state\<close>

lemma peers_of_simps [simp]:
  "peers_of (set_peers s m) = m" "peers_of (count_rx_action s) = peers_of s" "peers_of (count_rx_data s) = peers_of s"
  "st_peer_cb (count_rx_action s) = st_peer_cb s"
  by (simp_all add: peers_of_def set_peers_def count_rx_action_def count_rx_data_def)

lemma set_peers_ok: "state_ok L s \<Longrightarrow> peers_inv L m \<Longrightarrow> state_ok L (set_peers s m)"
  by (simp add: state_ok_def set_peers_def)

lemma count_rx_ok [simp]:
  "state_ok L (count_rx_action s) = state_ok L s" "state_ok L (count_rx_data s) = state_ok L s"
  by (simp_all add: state_ok_def count_rx_action_def count_rx_data_def)

lemma state_ok_peers: "state_ok L s \<Longrightarrow> peers_inv L (peers_of s)"
  by (simp add: state_ok_def peers_of_def)

lemma same_state_ok: "same_state s t \<Longrightarrow> state_ok L s \<Longrightarrow> state_ok L t"
  by (auto simp: same_state_def state_ok_def)

lemma same_state_peers: "same_state s t \<Longrightarrow> peers_of t = peers_of s"
  by (auto simp: same_state_def peers_of_def)

text \<open>Reception leaves every field outside the synchronisation, the peers and the statistics.\<close>

definition rx_frame_rule :: "awdl_state \<Rightarrow> awdl_state \<Rightarrow> bool" where
  "rx_frame_rule s t \<longleftrightarrow>
     (\<exists>sync m stats. t = s\<lparr>st_sync := sync, st_peers := (st_peers s)\<lparr>ps_peers := m\<rparr>, st_stats := stats\<rparr>)"

lemma rx_frame_rule_refl [simp]: "rx_frame_rule s s"
  unfolding rx_frame_rule_def
  by (intro exI [of _ "st_sync s"] exI [of _ "ps_peers (st_peers s)"] exI [of _ "st_stats s"]) simp

lemma rx_frame_rule_trans:
  assumes "rx_frame_rule s t" and "rx_frame_rule t u"
  shows "rx_frame_rule s u"
proof -
  from assms obtain sync m stats where "u = s\<lparr>st_sync := sync, st_peers := (st_peers s)\<lparr>ps_peers := m\<rparr>, st_stats := stats\<rparr>"
    by (auto simp: rx_frame_rule_def)
  then show ?thesis unfolding rx_frame_rule_def by (intro exI)
qed

lemma rx_frame_rule_step [simp]:
  "rx_frame_rule s (set_peers s m)" "rx_frame_rule s (count_rx_action s)" "rx_frame_rule s (count_rx_data s)"
proof -
  show "rx_frame_rule s (set_peers s m)"
    unfolding rx_frame_rule_def set_peers_def
    by (intro exI [of _ "st_sync s"] exI [of _ m] exI [of _ "st_stats s"]) simp
  show "rx_frame_rule s (count_rx_action s)"
    unfolding rx_frame_rule_def count_rx_action_def
    by (intro exI [of _ "st_sync s"] exI [of _ "ps_peers (st_peers s)"] exI) simp
  show "rx_frame_rule s (count_rx_data s)"
    unfolding rx_frame_rule_def count_rx_data_def
    by (intro exI [of _ "st_sync s"] exI [of _ "ps_peers (st_peers s)"] exI) simp
qed

lemma same_state_frame_rule:
  assumes "same_state s t"
  shows "rx_frame_rule s t"
proof -
  from assms obtain sync where t: "t = s\<lparr>st_sync := sync\<rparr>" by (auto simp: same_state_def)
  show ?thesis
    unfolding rx_frame_rule_def t
    by (intro exI [of _ sync] exI [of _ "ps_peers (st_peers s)"] exI [of _ "st_stats s"]) simp
qed

lemma write_peer_spec:
  assumes "state_ok L s" and "peer_lookup (peers_of s) (p_addr p) = Some q" and "peer_ok p"
  shows "state_ok L (write_peer s p)"
    and "peer_lookup (peers_of (write_peer s p)) = (peer_lookup (peers_of s))(p_addr p \<mapsto> p)"
    and "rx_frame_rule s (write_peer s p)"
  using peer_write [OF state_ok_peers [OF assms(1)] assms(2) refl assms(3)] assms(1)
  by (simp_all add: write_peer_def set_peers_ok fun_eq_iff)

section \<open>Action frames\<close>

lemma parse_action_hdr_total:
  assumes "buf_wf frame"
  shows "\<exists>subtype. awdl_parse_action_hdr frame = Some subtype"
  using assms by (simp add: awdl_parse_action_hdr_def checked_def Let_def read_bytes_wf INT_MAX_def)

lemma strip_ignore_wf: "buf_wf b \<Longrightarrow> 0 \<le> n \<Longrightarrow> buf_wf (strip_ignore b n)"
  by (auto simp: strip_ignore_def buf_strip_def buf_wf_def split: wire_result.split)

text \<open>What the sender's record is after the frame was processed to its end.\<close>

definition peer_after :: "int \<Rightarrow> u64 \<Rightarrow> awdl_peer \<Rightarrow> awdl_peer" where
  "peer_after subtype tsft p = peer_refresh tsft (p\<lparr>p_sent_mif := p_sent_mif p \<or> subtype = 3\<rparr>)"

lemma rx_action_finish_total:
  assumes "alloc_ok L (env_mem env)" and "junk_ok (env_peer env)" and "state_ok L s"
    and "peer_lookup (peers_of s) src = Some q" and "p_addr p = src" and "peer_ok p"
  shows "\<exists>result s' events'. rx_action_finish env subtype tsft src err frame p s events = Some (result, s', events') \<and>
    state_ok L s' \<and> rx_frame_rule s s' \<and> result \<in> {RX_OK, RX_UNEXPECTED_FORMAT} \<and>
    (result = RX_OK \<longleftrightarrow> \<not> err \<and> buf_len frame \<le> 0) \<and>
    peer_lookup (peers_of s') = (peer_lookup (peers_of s))(src \<mapsto> (if result = RX_OK then peer_after subtype tsft p else p))"
proof -
  define p' where "p' = p\<lparr>p_sent_mif := p_sent_mif p \<or> subtype = 3\<rparr>"
  have eq: "(if subtype = uint (awdl_action_code AWDL_ACTION_MIF) then p\<lparr>p_sent_mif := True\<rparr> else p) = p'"
    unfolding p'_def by (cases p) simp
  have ok: "peer_ok p'" "p_addr p' = src" using assms(5,6) by (simp_all add: peer_ok_def p'_def)
  have after_eq: "peer_after subtype tsft p = peer_refresh tsft p'" by (simp add: peer_after_def p'_def)
  note w = write_peer_spec [OF assms(3) _ assms(6), unfolded assms(5), OF assms(4)]
  note w' = write_peer_spec [OF assms(3) _ ok(1), unfolded ok(2), OF assms(4)]
  show ?thesis
  proof (cases "err \<or> buf_len frame > 0")
    case True
    then show ?thesis using w by (auto simp: rx_action_finish_def)
  next
    case False
    show ?thesis
    proof (rule peer_add_total [OF assms(1) state_ok_peers [OF w'(1)] assms(2), of src tsft "st_peer_cb (write_peer s p')"])
      fix m called
      assume add: "awdl_peer_add (env_mem env) (env_peer env) (peers_of (write_peer s p')) src tsft (st_peer_cb (write_peer s p')) =
          Some (if peer_lookup (peers_of (write_peer s p')) src = None then PEERS_OK else PEERS_UPDATE, m, called)"
        and inv: "peers_inv L m"
        and look: "\<And>b. peer_lookup m b = (if b = src
              then Some (peer_refresh tsft (peer_known (env_peer env) (peers_of (write_peer s p')) src))
              else peer_lookup (peers_of (write_peer s p')) b)"
      have "peer_lookup m = (peer_lookup (peers_of s))(src \<mapsto> peer_after subtype tsft p)"
        by (simp add: fun_eq_iff look w'(2) peer_known_def after_eq)
      moreover have "rx_action_finish env subtype tsft src err frame p s events =
          Some (RX_OK, set_peers (write_peer s p') m, events @ map Peer_cb called)"
        using False add unfolding rx_action_finish_def Let_def eq by simp
      ultimately show ?thesis
        using False inv w'(1) rx_frame_rule_trans [OF w'(3)] by (simp add: set_peers_ok)
    qed (use w'(2) in simp)
  qed
qed

lemma rssi_too_low_eq:
  assumes "state_ok L s"
  shows "rssi_too_low s src rssi \<longleftrightarrow> st_filter_rssi s \<and>
    rssi < st_rssi_threshold s + (if peer_lookup (peers_of s) src = None then 0 else st_rssi_grace s)"
  by (cases "peer_lookup (peers_of s) src")
    (simp_all add: rssi_too_low_def awdl_peer_get_lookup [OF state_ok_peers [OF assms]])

lemma rx_action_total:
  assumes "alloc_ok L (env_mem env)" and "junk_ok (env_peer env)" and "state_ok L state" and "buf_wf frame"
    and hdr: "awdl_parse_action_hdr frame = Some subtype" "0 \<le> subtype" and rssi: "\<not> rssi_too_low state src rssi"
  obtains result state' events p err f t s events0 events1 where
      "awdl_rx_action env frame rssi tsft src dst state = Some (result, state', events)"
      and "state_ok L state'" and "rx_frame_rule state state'" and "result \<in> {RX_OK, RX_UNEXPECTED_FORMAT}"
      and "same_peer (peer_refresh tsft (peer_known (env_peer env) (peers_of state) src)) p"
      and "peer_lookup (peers_of state') =
        (peer_lookup (peers_of state))(src \<mapsto> (if result = RX_OK then peer_after subtype tsft p else p))"
      and "rx_tlvs env tsft (strip_ignore frame 16) (peer_refresh tsft (peer_known (env_peer env) (peers_of state) src)) t events0 =
        Some (err, f, p, s, events1)"
      and "st_sync t = st_sync state" and "st_election t = st_election state" and "result = RX_OK \<longleftrightarrow> \<not> err \<and> buf_len f \<le> 0"
      and "st_sync state' = st_sync s"
  | m where "awdl_rx_action env frame rssi tsft src dst state = Some (RX_IGNORE, set_peers (count_rx_action state) m, [])"
      and "peers_inv L m" and "peer_lookup (peers_of state) src = None" and "peer_lookup m \<subseteq>\<^sub>m peer_lookup (peers_of state)"
      and "awdl_peer_add (env_mem env) (env_peer env) (peers_of state) src tsft (st_peer_cb state) = Some (PEERS_INTERNAL, m, [])"
proof -
  let ?s = "count_rx_action state" and ?known = "peer_known (env_peer env) (peers_of state) src"
  note inv = state_ok_peers [OF assms(3)]
  show thesis
  proof (rule peer_add_total [OF assms(1) inv assms(2), of src tsft "st_peer_cb state"])
    fix m called
    assume add: "awdl_peer_add (env_mem env) (env_peer env) (peers_of state) src tsft (st_peer_cb state) =
        Some (if peer_lookup (peers_of state) src = None then PEERS_OK else PEERS_UPDATE, m, called)"
      and m: "peers_inv L m"
      and look: "\<And>b. peer_lookup m b = (if b = src then Some (peer_refresh tsft ?known) else peer_lookup (peers_of state) b)"
    let ?t = "set_peers ?s m"
    have t: "state_ok L ?t" using assms(3) m by (simp add: set_peers_ok)
    have known: "peer_ok (peer_refresh tsft ?known)" "p_addr (peer_refresh tsft ?known) = src"
      using peer_known_ok [OF inv assms(2)] by simp_all
    obtain err frame' p state' events where tlvs:
        "rx_tlvs env tsft (strip_ignore frame 16) (peer_refresh tsft ?known) ?t (map Peer_cb called) =
           Some (err, frame', p, state', events)"
      and same: "same_peer (peer_refresh tsft ?known) p" "same_state ?t state'"
      using rx_tlvs_total [OF strip_ignore_wf [OF assms(4)] known(1), of 16] by (metis zero_le_numeral)
    have p: "peer_ok p" "p_addr p = src" using same(1) known by (simp_all add: same_peer_def)
    have look': "peer_lookup (peers_of state') = (peer_lookup (peers_of state))(src \<mapsto> peer_refresh tsft ?known)"
      by (simp add: fun_eq_iff same_state_peers [OF same(2)] look)
    have run: "awdl_rx_action env frame rssi tsft src dst state = rx_action_finish env subtype tsft src err frame' p state' events"
      using hdr rssi add tlvs by (simp add: awdl_rx_action_def Let_def awdl_peer_get_lookup [OF m] look)
    have src: "peer_lookup (peers_of state') src = Some (peer_refresh tsft ?known)" by (simp add: look')
    have rule: "rx_frame_rule state state'"
      using rx_frame_rule_trans rx_frame_rule_step same_state_frame_rule [OF same(2)] by metis
    have t': "st_sync ?t = st_sync state" "st_election ?t = st_election state" by (simp_all add: set_peers_def count_rx_action_def)
    obtain result s' events' where fin: "rx_action_finish env subtype tsft src err frame' p state' events = Some (result, s', events')"
      "state_ok L s'" "rx_frame_rule state' s'" "result \<in> {RX_OK, RX_UNEXPECTED_FORMAT}" "result = RX_OK \<longleftrightarrow> \<not> err \<and> buf_len frame' \<le> 0"
      "peer_lookup (peers_of s') = (peer_lookup (peers_of state'))(src \<mapsto> (if result = RX_OK then peer_after subtype tsft p else p))"
      using rx_action_finish_total [OF assms(1,2) same_state_ok [OF same(2) t] src p(2,1), of subtype tsft err frame' events] by blast
    have sync: "st_sync s' = st_sync state'"
      using fin(1) by (auto simp: rx_action_finish_def write_peer_def set_peers_def Let_def split: if_splits option.splits prod.splits)
    show thesis
      using that(1) [OF run [unfolded fin(1)] fin(2) rx_frame_rule_trans [OF rule fin(3)] fin(4) same(1) _ tlvs t' fin(5) sync] fin(6) look'
      by simp
  next
    fix m
    assume "awdl_peer_add (env_mem env) (env_peer env) (peers_of state) src tsft (st_peer_cb state) = Some (PEERS_INTERNAL, m, [])"
      and "peers_inv L m" and "peer_lookup (peers_of state) src = None" and "peer_lookup m \<subseteq>\<^sub>m peer_lookup (peers_of state)"
    with that(2) [of m] hdr rssi show thesis by (simp add: awdl_rx_action_def Let_def)
  qed
qed

section \<open>Properties\<close>

text \<open>C13. Given memory for the record of a new peer, whatever bytes an action frame holds, its reception is defined and ends, and it keeps the
  invariant of the node's state. It changes no field of the state but the synchronisation, the
  peer table and the statistics. Of the peer table only the record of the sender can change,
  unless memory runs out, when records can only get lost. A frame that is accepted leaves the sender in
  the table with its address, the time of the frame and, after a MIF, the mark that one was seen.\<close>

theorem awdl_rx_action_safe:
  assumes "alloc_ok L (env_mem env)" and "junk_ok (env_peer env)" and "state_ok L state" and "buf_wf frame"
  shows "\<exists>result state' events. awdl_rx_action env frame rssi tsft src dst state = Some (result, state', events) \<and>
    state_ok L state' \<and>
    state' = state\<lparr>st_sync := st_sync state', st_peers := (st_peers state)\<lparr>ps_peers := peers_of state'\<rparr>, st_stats := st_stats state'\<rparr> \<and>
    (\<forall>a. a \<noteq> src \<longrightarrow> peer_lookup (peers_of state') a = peer_lookup (peers_of state) a \<or>
       result = RX_IGNORE \<and> peer_lookup (peers_of state') a = None) \<and>
    (result = RX_OK \<longrightarrow> (\<exists>p. peer_lookup (peers_of state') src = Some p \<and> p_addr p = src \<and> p_last_update p = tsft \<and>
       (awdl_parse_action_hdr frame = Some (uint (awdl_action_code AWDL_ACTION_MIF)) \<longrightarrow> p_sent_mif p)))"
proof -
  obtain subtype where hdr: "awdl_parse_action_hdr frame = Some subtype" using parse_action_hdr_total [OF assms(4)] by blast
  have rule: "t = state\<lparr>st_sync := st_sync t, st_peers := (st_peers state)\<lparr>ps_peers := peers_of t\<rparr>, st_stats := st_stats t\<rparr>"
    if "rx_frame_rule state t" for t
    using that by (auto simp: rx_frame_rule_def peers_of_def)
  show ?thesis
  proof (cases "0 \<le> subtype \<and> \<not> rssi_too_low state src rssi")
    case False
    then show ?thesis using hdr assms(3) rule [OF rx_frame_rule_refl] by (auto simp: awdl_rx_action_def)
  next
    case True
    then have ok: "0 \<le> subtype" "\<not> rssi_too_low state src rssi" by simp_all
    show ?thesis
    proof (rule rx_action_total [OF assms hdr ok, of tsft dst], goal_cases)
      case (1 result state' events p)
      have p: "p_addr p = src" using 1(5) peer_known_ok [OF state_ok_peers [OF assms(3)] assms(2)] by (simp add: same_peer_def)
      show ?case
        using 1(1,2,4,6) rule [OF 1(3)] hdr p by (auto simp: peer_after_def peer_refresh_def)
    next
      case (2 m)
      have "peer_lookup m a = peer_lookup (peers_of state) a \<or> peer_lookup m a = None" for a
        using 2(4) by (cases "peer_lookup m a") (auto simp: map_le_def dom_def)
      moreover have "state_ok L (set_peers (count_rx_action state) m)" using 2(2) assms(3) by (simp add: set_peers_ok)
      moreover note rule [OF rx_frame_rule_trans [OF rx_frame_rule_step(2) rx_frame_rule_step(1)], of m]
      ultimately show ?case using 2(1) by auto
    qed
  qed
qed

text \<open>The filter on the signal strength: an action frame that has a valid AWDL header is dropped as
  too weak exactly when the filter is on and its signal is below the threshold, lowered by
  the grace value for a sender that is already in the peer table; then nothing is changed.\<close>

theorem awdl_rx_action_rssi_filter:
  assumes "alloc_ok L (env_mem env)" and "junk_ok (env_peer env)" and "state_ok L state" and "buf_wf frame"
    and "awdl_parse_action_hdr frame = Some subtype" and "0 \<le> subtype"
  shows "((\<exists>state' events. awdl_rx_action env frame rssi tsft src dst state = Some (RX_IGNORE_RSSI, state', events)) \<longleftrightarrow>
      st_filter_rssi state \<and>
      rssi < st_rssi_threshold state + (if peer_lookup (peers_of state) src = None then 0 else st_rssi_grace state)) \<and>
    (\<forall>state' events. awdl_rx_action env frame rssi tsft src dst state = Some (RX_IGNORE_RSSI, state', events) \<longrightarrow>
      state' = state \<and> events = [])"
proof (cases "rssi_too_low state src rssi")
  case True
  then show ?thesis using assms(5,6) rssi_too_low_eq [OF assms(3)] by (auto simp: awdl_rx_action_def)
next
  case False
  show ?thesis
    by (rule rx_action_total [OF assms False, of tsft dst])
      (use False rssi_too_low_eq [OF assms(3)] in auto)
qed

text \<open>A master indication frame with a version TLV.\<close>

definition sample_env :: rx_env where
  "sample_env = \<lparr>env_mem = sample_mem, env_peer = Some sample_junk, env_chan = (\<lambda>_. 0), env_frame = (\<lambda>_. 0), env_rssi = 0, env_flags = 0\<rparr>"

definition sample_action :: buf where
  "sample_action = \<lparr>b_orig = [127, 0x00, 0x17, 0xf2, 8, 0x10, 3, 0, 0, 0, 0, 0, 0, 0, 0, 0, 21, 2, 0, 0x34, 1],
     b_data = 0, b_len = 21, b_owned = False\<rparr>"

lemma sample_action_ok:
  "buf_wf sample_action" "awdl_parse_action_hdr sample_action = Some 3"
  "alloc_ok 256 (env_mem sample_env)" "junk_ok (env_peer sample_env)"
  subgoal by (simp add: sample_action_def buf_wf_def INT_MAX_def)
  subgoal by code_simp
  using sample_peers_ok(3,4) by (simp_all add: sample_env_def)

theorem awdl_rx_action_safe_witness:
  "\<exists>result state' events. awdl_rx_action sample_env sample_action (- 40) 7 sample_peer_addr ETHER_BROADCAST sample_state =
     Some (result, state', events) \<and> state_ok 256 state' \<and>
     (result = RX_OK \<longrightarrow> (\<exists>p. peer_lookup (peers_of state') sample_peer_addr = Some p \<and> p_last_update p = 7 \<and> p_sent_mif p))"
  using awdl_rx_action_safe [OF sample_action_ok(3,4) sample_state_ok sample_action_ok(1), of "- 40" 7 sample_peer_addr ETHER_BROADCAST]
  by (auto simp: sample_action_ok(2))

theorem awdl_rx_action_rssi_filter_witness:
  "awdl_rx_action sample_env sample_action (- 66) 7 sample_peer_addr ETHER_BROADCAST sample_state = Some (RX_IGNORE_RSSI, sample_state, []) \<and>
   \<not> (\<exists>state' events. awdl_rx_action sample_env sample_action (- 65) 7 sample_peer_addr ETHER_BROADCAST sample_state =
     Some (RX_IGNORE_RSSI, state', events))"
  using awdl_rx_action_rssi_filter [OF sample_action_ok(3,4) sample_state_ok sample_action_ok(1,2), of "- 66" 7 sample_peer_addr ETHER_BROADCAST]
    awdl_rx_action_rssi_filter [OF sample_action_ok(3,4) sample_state_ok sample_action_ok(1,2), of "- 65" 7 sample_peer_addr ETHER_BROADCAST]
  by (auto simp: sample_state_def peers_of_def sample_peers_ok(2))

end
