(* ===== verification/Rx_Data.thy ===== *)
theory Rx_Data
  imports Rx_Action
begin

text \<open>
  The correctness of the reception of data frames in \<^verbatim>\<open>src/src/rx.c\<close>: what \<^verbatim>\<open>awdl_rx_data\<close> delivers
  for each frame, that an A-MSDU is processed within the bounds of the buffer as long as the
  caller's array has room, and the safety of \<^verbatim>\<open>awdl_rx\<close> as a whole.
\<close>

section \<open>The delivered frame\<close>

lemma write_bytes_guarded:
  assumes "length bs \<le> length ptr" and "take (length bs) ptr = bs"
  shows "write_bytes b offset ptr (int (length bs)) = guarded_write b offset bs"
  using assms by (simp add: write_bytes_def guarded_write_def mem_read_def split: option.split bool.split)

lemma write_add_append:
  assumes "buf_wf b" and "buf_bytes b = pre @ rest" and "length bs \<le> length rest"
    and "wr b (int (length pre)) = guarded_write b (int (length pre)) bs"
  shows "\<exists>b'. write_add wr (b, int (length pre)) = Some (b', int (length (pre @ bs))) \<and> buf_wf b' \<and>
    buf_bytes b' = (pre @ bs) @ drop (length bs) rest"
proof -
  have "int (length pre) + int (length bs) \<le> INT_MAX"
    using length_buf_bytes_le [OF assms(1)] assms(2,3) by simp
  from guarded_write_wf [OF assms(1) _ this] show ?thesis
    using assms(2-4) by (auto simp: write_add_def)
qed

lemma write_add_fails:
  assumes "buf_wf b" and "buf_bytes b = pre @ rest" and "length rest < length bs" and "int (length pre + length bs) \<le> INT_MAX"
    and "wr b (int (length pre)) = guarded_write b (int (length pre)) bs"
  shows "write_add wr (b, int (length pre)) = Some (b, int (length pre) - 1)"
proof -
  have "guarded_write b (int (length pre)) bs \<noteq> Ret n b'" for n b'
    using guarded_write_Ret(3) [OF assms(1), of "int (length pre)" bs n b'] assms(2,3) by auto
  then show ?thesis
    using guarded_write_wf [OF assms(1), of "int (length pre)" bs] assms(4,5) by (auto simp: write_add_def)
qed

text \<open>The fresh memory of an Ethernet frame from the position \<open>i\<close> on.\<close>

definition fresh :: "(nat \<Rightarrow> u8) \<Rightarrow> nat \<Rightarrow> u8 list" where
  "fresh junk i = map junk [i..<1518]"

lemma fresh_simps [simp]: "length (fresh junk i) = 1518 - i" "drop n (fresh junk i) = fresh junk (i + n)"
  by (simp_all add: fresh_def drop_map)

text \<open>Specification: the Ethernet header, the payload if it fits, and the rest of the fresh memory.\<close>

definition delivered :: "(nat \<Rightarrow> u8) \<Rightarrow> ether_addr \<Rightarrow> ether_addr \<Rightarrow> u16 \<Rightarrow> u8 list \<Rightarrow> u8 list" where
  "delivered junk src dst ether_type payload =
     (let frame = ether_bytes dst @ ether_bytes src @ be16_bytes ether_type @ (if length payload \<le> 1504 then payload else []) in
      frame @ fresh junk (length frame))"

lemma length_delivered [simp]: "length (delivered junk src dst t payload) = 1518"
  by (simp add: delivered_def)

lemma rx_build_frame_spec:
  assumes "buf_wf frame" and "int (length (buf_bytes frame)) + 14 \<le> INT_MAX"
  shows "\<exists>b. rx_build_frame junk frame t src dst = Some b \<and> buf_wf b \<and>
    buf_bytes b = delivered junk src dst t (buf_bytes frame)"
proof -
  let ?d = "ether_bytes dst" and ?s = "ether_bytes src" and ?e = "be16_bytes t"
    and ?p = "buf_bytes frame"
  obtain b0 where b0: "buf_new_owned junk ETHER_MAX_LEN = Some b0" "buf_wf b0" "buf_bytes b0 = [] @ fresh junk 0"
    using buf_new_owned_wf [of junk ETHER_MAX_LEN]
    by (simp add: buf_new_owned_def ETHER_MAX_LEN_def INT_MAX_def buf_bytes_def fresh_def del: upt_rec_numeral)
  obtain b1 where b1: "write_add (\<lambda>b offset. write_ether_addr b offset dst) (b0, 0) = Some (b1, 6)"
      "buf_wf b1" "buf_bytes b1 = ?d @ fresh junk 6"
    using write_add_append [OF b0(2,3), of ?d "\<lambda>b offset. write_ether_addr b offset dst"] by (auto simp: write_ether_addr_def)
  obtain b2 where b2: "write_add (\<lambda>b offset. write_ether_addr b offset src) (b1, 6) = Some (b2, 12)"
      "buf_wf b2" "buf_bytes b2 = (?d @ ?s) @ fresh junk 12"
    using write_add_append [OF b1(2,3), of ?s "\<lambda>b offset. write_ether_addr b offset src"] by (auto simp: write_ether_addr_def)
  obtain b3 where b3: "write_add (\<lambda>b offset. write_be16 b offset t) (b2, 12) = Some (b3, 14)"
      "buf_wf b3" "buf_bytes b3 = (?d @ ?s @ ?e) @ fresh junk 14"
    using write_add_append [OF b2(2,3), of ?e "\<lambda>b offset. write_be16 b offset t"] by (auto simp: write_be16_def)
  have payload: "write_bytes b off (buf_data frame) (buf_len frame) = guarded_write b off ?p" for b off
    using write_bytes_guarded [of ?p "buf_data frame" b off] assms(1)
    by (simp add: buf_len_wf take_buf_data) (auto simp: buf_bytes_def buf_data_def)
  let ?wr = "\<lambda>b offset. write_bytes b offset (buf_data frame) (buf_len frame)"
  have "\<exists>b4 off. write_add ?wr (b3, 14) = Some (b4, off) \<and> buf_wf b4 \<and> buf_bytes b4 = delivered junk src dst t ?p"
  proof (cases "length ?p \<le> 1504")
    case True
    then show ?thesis
      using write_add_append [OF b3(2,3), of ?p ?wr] by (auto simp: payload delivered_def Let_def)
  next
    case False
    then show ?thesis
      using write_add_fails [OF b3(2,3), of ?p ?wr] assms(2) b3(2,3) by (auto simp: payload delivered_def Let_def)
  qed
  then show ?thesis using b0(1) b1(1) b2(1) b3(1) by (auto simp: rx_build_frame_def)
qed

section \<open>One data frame\<close>

definition llc_ok :: "u8 list \<Rightarrow> bool" where
  "llc_ok bs \<longleftrightarrow> 8 \<le> length bs \<and> take 3 bs = [0xaa, 0xaa, 0x03] \<and> be16_value (take 2 (drop 6 bs)) = AWDL_LLC_PROTOCOL_ID"

lemma take_3_eq: "3 \<le> length bs \<Longrightarrow> take 3 bs = [a, b, c] \<longleftrightarrow> bs ! 0 = a \<and> bs ! 1 = b \<and> bs ! 2 = c"
  by (cases bs rule: remdups_adj.cases; cases "tl (tl bs)") (auto simp: numeral_3_eq_3 numeral_2_eq_2)

lemma valid_llc_header:
  assumes "buf_wf frame"
  shows "awdl_valid_llc_header frame = Some (llc_ok (buf_bytes frame))"
  using assms
  by (auto simp: awdl_valid_llc_header_def llc_parse_def Let_def checked_fields checked_read_bytes INT_MAX_def llc_ok_def take_3_eq)

lemma strip_ignore_spec:
  assumes "buf_wf b" and "n \<le> length (buf_bytes b)"
  shows "buf_wf (strip_ignore b (int n))" and "buf_bytes (strip_ignore b (int n)) = drop n (buf_bytes b)"
  using buf_strip_ok [OF assms] by (auto simp: strip_ignore_def)

lemma rx_data_total:
  assumes "state_ok L state" and "buf_wf frame"
    and "\<not> (peer_lookup (peers_of state) src \<noteq> None \<and> llc_ok (buf_bytes frame) \<and> 16 \<le> length (buf_bytes frame)) \<or> length out < cap"
  shows "\<exists>result sent. awdl_rx_data env cap frame out src dst state = Some (result, out @ sent, count_rx_data state) \<and>
    (if peer_lookup (peers_of state) src = None then result = RX_IGNORE_PEER \<and> sent = []
     else if \<not> llc_ok (buf_bytes frame) then result = RX_UNEXPECTED_FORMAT \<and> sent = []
     else if length (buf_bytes frame) < 16 then result = RX_TOO_SHORT \<and> sent = []
     else result = RX_OK \<and> (\<exists>b. sent = [b] \<and> buf_wf b \<and> buf_bytes b =
       delivered (env_frame env) src dst (be16_value (take 2 (drop 14 (buf_bytes frame)))) (drop 16 (buf_bytes frame))))"
proof (cases "peer_lookup (peers_of state) src \<noteq> None \<and> llc_ok (buf_bytes frame)")
  case False
  then show ?thesis
    by (auto simp: awdl_rx_data_def Let_def awdl_peer_get_lookup [OF state_ok_peers [OF assms(1)]]
        valid_llc_header [OF assms(2)] split: option.splits)
next
  case True
  then have len: "8 \<le> length (buf_bytes frame)" by (simp add: llc_ok_def)
  note s1 = strip_ignore_spec [OF assms(2) len]
  let ?f1 = "strip_ignore frame 8" and ?f2 = "strip_ignore (strip_ignore frame 8) 8"
  show ?thesis
  proof (cases "length (buf_bytes frame) < 16")
    case short: True
    with True len show ?thesis using s1
      by (auto simp: awdl_rx_data_def Let_def awdl_peer_get_lookup [OF state_ok_peers [OF assms(1)]]
          valid_llc_header [OF assms(2)] buf_len_wf split: option.splits)
  next
    case False
    have s2: "buf_wf ?f2" "buf_bytes ?f2 = drop 16 (buf_bytes frame)"
      using strip_ignore_spec [of ?f1 8] s1 False by simp_all
    have type: "read_be16 ?f1 6 = Ret 2 (be16_value (take 2 (drop 14 (buf_bytes frame))))"
      using s1 False by (simp add: field_be16.read_wf INT_MAX_def)
    have "int (length (buf_bytes ?f2)) + 14 \<le> INT_MAX" using s2(2) length_buf_bytes_le [OF assms(2)] False by simp
    then obtain b where "rx_build_frame (env_frame env) ?f2 (be16_value (take 2 (drop 14 (buf_bytes frame)))) src dst = Some b"
      "buf_wf b" "buf_bytes b = delivered (env_frame env) src dst (be16_value (take 2 (drop 14 (buf_bytes frame)))) (drop 16 (buf_bytes frame))"
      using rx_build_frame_spec [OF s2(1)] s2(2) by metis
    then show ?thesis
      using True False s1 type assms(3)
      by (auto simp: awdl_rx_data_def Let_def awdl_peer_get_lookup [OF state_ok_peers [OF assms(1)]]
          valid_llc_header [OF assms(2)] buf_len_wf split: option.splits)
  qed
qed

lemma rx_data_full:
  assumes "state_ok L state" and "buf_wf frame" and "peer_lookup (peers_of state) src \<noteq> None"
    and "llc_ok (buf_bytes frame)" and "16 \<le> length (buf_bytes frame)" and "cap \<le> length out"
  shows "awdl_rx_data env cap frame out src dst state = None"
proof -
  have len: "8 \<le> length (buf_bytes frame)" using assms(5) by simp
  note s1 = strip_ignore_spec [OF assms(2) len]
  show ?thesis
    using assms s1
    by (auto simp: awdl_rx_data_def Let_def awdl_peer_get_lookup [OF state_ok_peers [OF assms(1)]]
        valid_llc_header [OF assms(2)] buf_len_wf split: option.splits wire_result.split)
qed

text \<open>What a frame holds does not depend on the size of the caller's array, only whether its reception is defined.\<close>

lemma rx_data_sized:
  assumes "state_ok L state" and "buf_wf frame"
  shows "\<exists>result sent. (sent = [] \<or> 16 \<le> length (buf_bytes frame) \<and> (\<exists>b. sent = [b] \<and> buf_wf b \<and> length (buf_bytes b) = 1518)) \<and>
    (\<forall>cap \<ge> length out. awdl_rx_data env cap frame out src dst state =
       (if length out + length sent \<le> cap then Some (result, out @ sent, count_rx_data state) else None))"
proof (cases "peer_lookup (peers_of state) src \<noteq> None \<and> llc_ok (buf_bytes frame) \<and> 16 \<le> length (buf_bytes frame)")
  case False
  let ?result = "if peer_lookup (peers_of state) src = None then RX_IGNORE_PEER
    else if \<not> llc_ok (buf_bytes frame) then RX_UNEXPECTED_FORMAT else RX_TOO_SHORT"
  have "awdl_rx_data env cap frame out src dst state = Some (?result, out, count_rx_data state)" for cap
    using rx_data_total [OF assms disjI1, where src = src and dst = dst and out = out and cap = cap and env = env] False by (auto split: if_splits)
  then show ?thesis by (intro exI [of _ ?result] exI [of _ "[]"]) simp
next
  case True
  obtain b where b: "awdl_rx_data env (Suc (length out)) frame out src dst state = Some (RX_OK, out @ [b], count_rx_data state)"
    "buf_wf b" "length (buf_bytes b) = 1518"
    using rx_data_total [OF assms disjI2, where src = src and dst = dst and out = out and cap = "Suc (length out)" and env = env] True by auto
  have "awdl_rx_data env cap frame out src dst state = awdl_rx_data env (Suc (length out)) frame out src dst state" if "length out < cap" for cap
  proof -
    have "(cap \<le> length out) = False" "(Suc (length out) \<le> length out) = False" using that by simp_all
    then show ?thesis by (simp only: awdl_rx_data_def)
  qed
  moreover have "awdl_rx_data env (length out) frame out src dst state = None"
    using rx_data_full [OF assms] True by simp
  ultimately have "\<forall>cap \<ge> length out. awdl_rx_data env cap frame out src dst state =
      (if length out + length [b] \<le> cap then Some (RX_OK, out @ [b], count_rx_data state) else None)"
    using b(1) by (auto simp: not_le Suc_le_eq le_less)
  with True b(2,3) show ?thesis by (intro exI [of _ RX_OK] exI [of _ "[b]"]) simp
qed

section \<open>Aggregated data frames\<close>

definition amsdu_pad :: "nat \<Rightarrow> nat" where
  "amsdu_pad n = (4 - (14 + n) mod 4) mod 4"

lemma amsdu_pad_int:
  "(4 - (14 + int n) mod 4) mod 4 = int (amsdu_pad n)" "- ((14 + int n) mod 4) mod 4 = int (amsdu_pad n)"
proof -
  have "(14 + n) mod 4 \<le> 4" using mod_less_divisor [of 4 "14 + n"] by linarith
  then show pad: "(4 - (14 + int n) mod 4) mod 4 = int (amsdu_pad n)" by (simp add: amsdu_pad_def zmod_int of_nat_diff)
  have "(4 - (14 + int n) mod 4) mod 4 = - ((14 + int n) mod 4) mod 4" by simp
  with pad show "- ((14 + int n) mod 4) mod 4 = int (amsdu_pad n)" by simp
qed

lemma buf_new_const_sub:
  assumes "buf_wf b" and "n \<le> length (buf_bytes b)"
  shows "\<exists>sub. buf_new_const (buf_data b) (int n) = Some sub \<and> buf_wf sub \<and> buf_bytes sub = take n (buf_bytes b)"
proof -
  obtain sub where sub: "buf_new_const (buf_data b) (int n) = Some sub" by (simp add: buf_new_const_def)
  have "length (buf_bytes b) \<le> length (buf_data b)" by (simp add: buf_bytes_def buf_data_def)
  then show ?thesis
    using sub buf_new_const_wf [OF sub] assms length_buf_bytes_le [OF assms(1)] take_buf_data [OF assms] by simp
qed

lemma amsdu_end:
  assumes "buf_wf frame"
  shows "buf_bytes frame = [] \<Longrightarrow> awdl_rx_data_amsdu env cap frame out state = Some (RX_OK, out, state)"
    and "0 < length (buf_bytes frame) \<Longrightarrow> length (buf_bytes frame) < 14 \<Longrightarrow>
      awdl_rx_data_amsdu env cap frame out state = Some (RX_TOO_SHORT, out, state)"
  using assms by (auto simp: awdl_rx_data_amsdu.simps [of env cap frame] buf_len_wf checked_fields INT_MAX_def Let_def)

lemma amsdu_cut:
  assumes "buf_wf frame" and "14 \<le> length (buf_bytes frame)" and "length (buf_bytes frame) < 14 + n"
    and "n = unat (be16_value (take 2 (drop 12 (buf_bytes frame))))"
  shows "awdl_rx_data_amsdu env cap frame out state = Some (RX_TOO_SHORT, out, state)"
proof -
  obtain frame1 where f1: "buf_strip frame 14 = Ret 14 frame1" "buf_wf frame1" "buf_bytes frame1 = drop 14 (buf_bytes frame)"
    using buf_strip_ok [OF assms(1,2)] by auto
  have u: "uint (be16_value (take 2 (drop 12 (buf_bytes frame)))) = int n" using assms(4) by simp
  have "length (buf_bytes frame) \<noteq> 0" using assms(2) by linarith
  then show ?thesis
    using assms(1-3) f1
    by (auto simp: awdl_rx_data_amsdu.simps [of env cap frame] buf_len_wf checked_fields INT_MAX_def Let_def u)
qed

lemma amsdu_step:
  assumes "buf_wf frame" and "14 + n \<le> length (buf_bytes frame)" and "n = unat (be16_value (take 2 (drop 12 (buf_bytes frame))))"
  obtains sub frame2 where "buf_wf sub" and "buf_bytes sub = take n (drop 14 (buf_bytes frame))"
    and "buf_wf frame2" and "buf_bytes frame2 = drop (14 + n + (if drop (14 + n) (buf_bytes frame) = [] then 0 else amsdu_pad n)) (buf_bytes frame)"
    and "\<And>env cap out state. awdl_rx_data_amsdu env cap frame out state =
      (case awdl_rx_data env cap sub out (ether_of_bytes (take 6 (drop 6 (buf_bytes frame)))) (ether_of_bytes (take 6 (buf_bytes frame))) state of
         None \<Rightarrow> None
       | Some (err, out, state) \<Rightarrow>
           if rx_code err < 0 then Some (err, out, state)
           else if drop (14 + n) (buf_bytes frame) \<noteq> [] \<and> length (buf_bytes frame) < 14 + n + amsdu_pad n then Some (RX_TOO_SHORT, out, state)
           else awdl_rx_data_amsdu env cap frame2 out state)"
proof -
  let ?bs = "buf_bytes frame"
  have len: "14 \<le> length ?bs" "length ?bs \<noteq> 0" using assms(2) by linarith+
  have u: "uint (be16_value (take 2 (drop 12 ?bs))) = int n" using assms(3) by simp
  obtain f1 where f1: "buf_strip frame 14 = Ret 14 f1" "buf_wf f1" "buf_bytes f1 = drop 14 ?bs"
    using buf_strip_ok [OF assms(1) len(1)] by auto
  have n: "n \<le> length (buf_bytes f1)" using f1(3) assms(2) by simp
  obtain sub where sub: "buf_new_const (buf_data f1) (int n) = Some sub" "buf_wf sub" "buf_bytes sub = take n (drop 14 ?bs)"
    using buf_new_const_sub [OF f1(2) n] f1(3) by auto
  obtain f2 where f2: "buf_strip f1 (int n) = Ret (int n) f2" "buf_wf f2" "buf_bytes f2 = drop (14 + n) ?bs"
    using buf_strip_ok [OF f1(2) n] f1(3) by (auto simp: add.commute)
  have lt: "14 + int n < int m \<longleftrightarrow> 14 + n < m" for m by linarith
  have run: "awdl_rx_data_amsdu env cap frame out state =
      (case awdl_rx_data env cap sub out (ether_of_bytes (take 6 (drop 6 ?bs))) (ether_of_bytes (take 6 ?bs)) state of
         None \<Rightarrow> None
       | Some (err, out, state) \<Rightarrow>
           if rx_code err < 0 then Some (err, out, state)
           else if 0 < length (buf_bytes f2)
           then (case buf_strip f2 (int (amsdu_pad n)) of
                   Ret _ f3 \<Rightarrow> awdl_rx_data_amsdu env cap f3 out state | _ \<Rightarrow> Some (RX_TOO_SHORT, out, state))
           else awdl_rx_data_amsdu env cap f2 out state)" for env cap out state
    using assms(1,2) f1 sub(1) f2 len
    by (cases "awdl_rx_data env cap sub out (ether_of_bytes (take 6 (drop 6 ?bs))) (ether_of_bytes (take 6 ?bs)) state")
      (auto simp: awdl_rx_data_amsdu.simps [of env cap frame] buf_len_wf checked_fields INT_MAX_def Let_def u amsdu_pad_int lt
        cong: if_cong split del: if_split)
  show thesis
  proof (cases "drop (14 + n) ?bs = [] \<or> amsdu_pad n \<le> length (buf_bytes f2)")
    case True
    then obtain f3 where "buf_wf f3"
      "buf_bytes f3 = drop (14 + n + (if drop (14 + n) ?bs = [] then 0 else amsdu_pad n)) ?bs"
      "0 < length (buf_bytes f2) \<Longrightarrow> buf_strip f2 (int (amsdu_pad n)) = Ret (int (amsdu_pad n)) f3"
      "buf_bytes f2 = [] \<Longrightarrow> f3 = f2"
      using f2(2,3) buf_strip_ok [OF f2(2), of "amsdu_pad n"]
      by (cases "buf_bytes f2 = []") (auto simp: add.commute add.left_commute)
    moreover have "drop (14 + n) ?bs \<noteq> [] \<Longrightarrow> \<not> length ?bs < 14 + n + amsdu_pad n"
      using True f2(3) assms(2) by auto
    ultimately show thesis
      using that [OF sub(2,3), of f3] run f2(3) by (cases "buf_bytes f2 = []") (auto simp: not_less cong: option.case_cong if_cong)
  next
    case False
    then have "buf_strip f2 (int (amsdu_pad n)) = Err OUT_OF_BOUNDS"
      using f2(2) by (simp add: buf_strip_def b_len_eq)
    moreover obtain f3 where "buf_wf f3" "buf_bytes f3 = []" using buf_strip_ok [OF f2(2) order_refl] by auto
    moreover have "length ?bs < 14 + n + amsdu_pad n" "drop (14 + n) ?bs \<noteq> []" using False f2(3) by auto
    ultimately show thesis
      using that [OF sub(2,3), of f3] run f2(3) by (simp cong: option.case_cong if_cong)
  qed
qed

lemma amsdu_room:
  assumes "m + 14 + n \<le> (l :: nat)" and "s = 0 \<or> 16 \<le> n \<and> s = 1" and "t \<le> m div 30"
  shows "s + t \<le> l div 30"
proof -
  have "m + s * 30 \<le> l" using assms(1,2) by auto
  from div_le_mono [OF this, of 30] show ?thesis using assms(3) by simp
qed

text \<open>The frames an aggregate holds: the array must have room for all of them.\<close>

lemma amsdu_sized:
  assumes "state_ok L state" and "buf_wf frame"
  shows "\<exists>result sent state'. (\<forall>cap \<ge> length out. awdl_rx_data_amsdu env cap frame out state =
      (if length out + length sent \<le> cap then Some (result, out @ sent, state') else None)) \<and>
    length sent \<le> length (buf_bytes frame) div 30 \<and> state_ok L state' \<and> rx_frame_rule state state' \<and>
    (\<forall>b\<in>set sent. buf_wf b \<and> length (buf_bytes b) = 1518)"
  using assms
proof (induction "length (buf_bytes frame)" arbitrary: frame out state rule: less_induct)
  case less
  let ?bs = "buf_bytes frame"
  define n where "n = unat (be16_value (take 2 (drop 12 (buf_bytes frame))))"
  have stop: ?case if "\<And>cap. awdl_rx_data_amsdu env cap frame out state = Some (r, out, state)" for r
    by (intro exI [of _ r] exI [of _ "[]"] exI [of _ state]) (simp add: that less.prems(1))
  show ?case
  proof (cases "14 + n \<le> length ?bs")
    case False
    then show ?thesis
      using stop amsdu_end [OF less.prems(2)] amsdu_cut [OF less.prems(2) _ _ n_def]
      by (cases "?bs = []"; cases "length ?bs < 14") auto
  next
    case True
    let ?src = "ether_of_bytes (take 6 (drop 6 ?bs))" and ?dst = "ether_of_bytes (take 6 ?bs)"
    obtain sub f2 where sub: "buf_wf sub" "buf_bytes sub = take n (drop 14 ?bs)" and f2: "buf_wf f2"
      "buf_bytes f2 = drop (14 + n + (if drop (14 + n) ?bs = [] then 0 else amsdu_pad n)) ?bs"
      and run: "\<And>env cap out state. awdl_rx_data_amsdu env cap frame out state =
        (case awdl_rx_data env cap sub out ?src ?dst state of
           None \<Rightarrow> None
         | Some (err, out, state) \<Rightarrow>
             if rx_code err < 0 then Some (err, out, state)
             else if drop (14 + n) ?bs \<noteq> [] \<and> length ?bs < 14 + n + amsdu_pad n then Some (RX_TOO_SHORT, out, state)
             else awdl_rx_data_amsdu env cap f2 out state)"
      by (rule amsdu_step [OF less.prems(2) True n_def]) (rule that; assumption)
    have "length (buf_bytes sub) = n" using True by (simp add: sub(2))
    then obtain err sent where sent: "sent = [] \<or> 16 \<le> n \<and> (\<exists>b. sent = [b] \<and> buf_wf b \<and> length (buf_bytes b) = 1518)"
      and d: "\<And>cap. length out \<le> cap \<Longrightarrow> awdl_rx_data env cap sub out ?src ?dst state =
        (if length out + length sent \<le> cap then Some (err, out @ sent, count_rx_data state) else None)"
      using rx_data_sized [OF less.prems(1) sub(1), of out env ?src ?dst] by blast
    have f2_len: "length (buf_bytes f2) + 14 + n \<le> length ?bs" using f2(2) True by simp
    obtain r sent' state' where rec: "\<And>cap. length (out @ sent) \<le> cap \<Longrightarrow> awdl_rx_data_amsdu env cap f2 (out @ sent) (count_rx_data state) =
          (if length (out @ sent) + length sent' \<le> cap then Some (r, (out @ sent) @ sent', state') else None)"
        "length sent' \<le> length (buf_bytes f2) div 30" "state_ok L state'" "rx_frame_rule (count_rx_data state) state'"
        "\<forall>b\<in>set sent'. buf_wf b \<and> length (buf_bytes b) = 1518"
      using less.hyps [OF _ _ f2(1), of "count_rx_data state" "out @ sent"] f2_len less.prems(1) by auto
    have len: "length sent + k \<le> length ?bs div 30" if "k \<le> length (buf_bytes f2) div 30" for k
      using amsdu_room [OF f2_len _ that, of "length sent"] sent by auto
    show ?thesis
    proof (cases "rx_code err < 0 \<or> drop (14 + n) ?bs \<noteq> [] \<and> length ?bs < 14 + n + amsdu_pad n")
      case True
      have "\<forall>cap \<ge> length out. awdl_rx_data_amsdu env cap frame out state =
          (if length out + length sent \<le> cap
           then Some (if rx_code err < 0 then err else RX_TOO_SHORT, out @ sent, count_rx_data state) else None)"
        using True by (auto simp: run d)
      with sent len [of 0] less.prems(1) rx_frame_rule_step(3) [of state] show ?thesis by (intro exI conjI) (assumption | auto)+
    next
      case False
      have "\<forall>cap \<ge> length out. awdl_rx_data_amsdu env cap frame out state =
          (if length out + length (sent @ sent') \<le> cap then Some (r, out @ sent @ sent', state') else None)"
        using False rec(1) by (auto simp: run d)
      with sent len [OF rec(2)] rec(3,5) rx_frame_rule_trans [OF rx_frame_rule_step(3) rec(4)] show ?thesis
        by (intro exI [of _ r] exI [of _ "sent @ sent'"] exI [of _ state']) auto
    qed
  qed
qed

section \<open>Properties\<close>

text \<open>A state that knows one peer, for the witnesses here and in the theories that follow.\<close>

definition sample_known :: awdl_state where
  "sample_known = set_peers sample_state sample_table"

lemma sample_known_ok:
  "state_ok 256 sample_known" "peer_lookup (peers_of sample_known) sample_peer_addr \<noteq> None"
  using sample_state_ok sample_table_ok by (simp_all add: sample_known_def set_peers_ok)

text \<open>C20. The reception of a data frame, case by case: a frame of an unknown sender is ignored, one
  without the LLC header of AWDL or shorter than its headers is an error, and otherwise exactly one
  Ethernet frame is delivered. It always has 1518 bytes: destination, source and type, then the
  payload if it has at most 1504 bytes and nothing of it otherwise, then the content the fresh memory had.\<close>

theorem awdl_rx_data_delivers:
  assumes "state_ok L state" and "buf_wf frame" and "length out < cap"
  shows "let bs = buf_bytes frame in
    (peer_lookup (peers_of state) src = None \<longrightarrow>
       awdl_rx_data env cap frame out src dst state = Some (RX_IGNORE_PEER, out, count_rx_data state)) \<and>
    (peer_lookup (peers_of state) src \<noteq> None \<and> \<not> llc_ok bs \<longrightarrow>
       awdl_rx_data env cap frame out src dst state = Some (RX_UNEXPECTED_FORMAT, out, count_rx_data state)) \<and>
    (peer_lookup (peers_of state) src \<noteq> None \<and> llc_ok bs \<and> length bs < 16 \<longrightarrow>
       awdl_rx_data env cap frame out src dst state = Some (RX_TOO_SHORT, out, count_rx_data state)) \<and>
    (peer_lookup (peers_of state) src \<noteq> None \<and> llc_ok bs \<and> 16 \<le> length bs \<longrightarrow>
       (\<exists>b. awdl_rx_data env cap frame out src dst state = Some (RX_OK, out @ [b], count_rx_data state) \<and>
          buf_bytes b = delivered (env_frame env) src dst (be16_value (take 2 (drop 14 bs))) (drop 16 bs) \<and>
          length (buf_bytes b) = 1518))"
  using rx_data_total [OF assms(1,2) disjI2 [OF assms(3)], where src = src and dst = dst and env = env] by (auto simp: Let_def)

definition sample_data :: buf where
  "sample_data = \<lparr>b_orig = [0xaa, 0xaa, 3, 0, 0x17, 0xf2, 8, 0, 3, 4, 0, 0, 0, 0, 0x86, 0xdd, 0x60, 1, 2],
     b_data = 0, b_len = 19, b_owned = False\<rparr>"

lemma sample_data_ok: "buf_wf sample_data" "llc_ok (buf_bytes sample_data)" "length (buf_bytes sample_data) = 19"
  subgoal by (simp add: sample_data_def buf_wf_def INT_MAX_def)
  subgoal by code_simp
  subgoal by code_simp
  done

theorem awdl_rx_data_delivers_witness:
  "\<exists>b. awdl_rx_data sample_env 16 sample_data [] sample_peer_addr sample_addr sample_known =
      Some (RX_OK, [b], count_rx_data sample_known) \<and>
     take 17 (buf_bytes b) = ether_bytes sample_addr @ ether_bytes sample_peer_addr @ [0x86, 0xdd, 0x60, 1, 2]"
proof -
  have "be16_value (take 2 (drop 14 (buf_bytes sample_data))) = 0x86dd" "drop 16 (buf_bytes sample_data) = [0x60, 1, 2]"
    by code_simp+
  then show ?thesis
    using awdl_rx_data_delivers [OF sample_known_ok(1) sample_data_ok(1), of "[]" 16 sample_peer_addr sample_env sample_addr]
      sample_known_ok(2) sample_data_ok(2,3)
    by (auto simp: Let_def delivered_def be16_bytes_def)
qed

end
