(* ===== verification/Rx_Amsdu.thy ===== *)
theory Rx_Amsdu
  imports Rx_Data
begin

text \<open>
  Aggregated data frames: the layout of an A-MSDU as a specification, what
  \<^verbatim>\<open>awdl_rx_data_amsdu\<close> of \<^verbatim>\<open>src/src/rx.c\<close> makes of it, and what happens when it holds more
  frames than the caller's array.
\<close>

section \<open>Layout\<close>

text \<open>One frame of the aggregate: addresses, the six bytes of the AWDL data header before the
  Ethernet type, the type and the payload.\<close>

record msdu =
  ms_dst :: ether_addr
  ms_src :: ether_addr
  ms_head :: "u8 list"
  ms_type :: u16
  ms_payload :: "u8 list"

definition msdu_body :: "msdu \<Rightarrow> u8 list" where
  "msdu_body m = llc_init_awdl_hdr @ ms_head m @ be16_bytes (ms_type m) @ ms_payload m"

definition msdu_bytes :: "msdu \<Rightarrow> u8 list" where
  "msdu_bytes m = ether_bytes (ms_dst m) @ ether_bytes (ms_src m) @ be16_bytes (of_nat (length (msdu_body m))) @ msdu_body m"

text \<open>Every frame but the last is padded to a multiple of four bytes.\<close>

fun amsdu_bytes :: "msdu list \<Rightarrow> u8 list" where
  "amsdu_bytes [] = []"
| "amsdu_bytes [m] = msdu_bytes m"
| "amsdu_bytes (m # m' # ms) = msdu_bytes m @ replicate (amsdu_pad (length (msdu_body m))) 0 @ amsdu_bytes (m' # ms)"

definition msdu_ok :: "awdl_state \<Rightarrow> msdu \<Rightarrow> bool" where
  "msdu_ok state m \<longleftrightarrow> peer_lookup (peers_of state) (ms_src m) \<noteq> None \<and> length (ms_head m) = 6 \<and> length (ms_payload m) < 65520"

lemma length_llc [simp]: "length llc_init_awdl_hdr = 8"
  by (simp add: llc_init_awdl_hdr_def llc_hdr_bytes_def AWDL_OUI_def)

lemma length_msdu_body: "length (msdu_body m) = 10 + length (ms_head m) + length (ms_payload m)"
  by (simp add: msdu_body_def)

lemma length_msdu_bytes [simp]: "length (msdu_bytes m) = 14 + length (msdu_body m)"
  by (simp add: msdu_bytes_def)

lemma amsdu_bytes_Nil [simp]: "amsdu_bytes ms = [] \<longleftrightarrow> ms = []"
proof -
  have "msdu_bytes m \<noteq> []" for m using length_msdu_bytes [of m] by force
  then show ?thesis by (cases ms rule: amsdu_bytes.cases) auto
qed

lemma msdu_body_fields:
  assumes "length (ms_head m) = 6"
  shows "llc_ok (msdu_body m)" and "drop 14 (msdu_body m) = be16_bytes (ms_type m) @ ms_payload m"
    and "drop 16 (msdu_body m) = ms_payload m"
  using assms
  by (simp_all add: msdu_body_def llc_ok_def llc_init_awdl_hdr_def llc_hdr_bytes_def AWDL_OUI_def numeral_3_eq_3)

lemma msdu_bytes_fields:
  assumes "length (msdu_body m) < 65536"
  shows "take 6 (msdu_bytes m @ rest) = ether_bytes (ms_dst m)" and "take 6 (drop 6 (msdu_bytes m @ rest)) = ether_bytes (ms_src m)"
    and "unat (be16_value (take 2 (drop 12 (msdu_bytes m @ rest)))) = length (msdu_body m)"
    and "drop 14 (msdu_bytes m @ rest) = msdu_body m @ rest"
proof -
  have "take 2 (drop 12 (msdu_bytes m @ rest)) = be16_bytes (of_nat (length (msdu_body m)))"
    by (simp add: msdu_bytes_def)
  then show "unat (be16_value (take 2 (drop 12 (msdu_bytes m @ rest)))) = length (msdu_body m)"
    using assms by (simp add: unat_of_nat take_bit_eq_mod)
qed (simp_all add: msdu_bytes_def)

section \<open>Reception\<close>

definition msdu_delivered :: "rx_env \<Rightarrow> msdu \<Rightarrow> u8 list" where
  "msdu_delivered env m = delivered (env_frame env) (ms_src m) (ms_dst m) (ms_type m) (ms_payload m)"

lemma msdu_received:
  assumes "state_ok L state" and "msdu_ok state m" and "buf_wf sub" and "buf_bytes sub = msdu_body m"
  shows "length out < cap \<Longrightarrow> \<exists>b. awdl_rx_data env cap sub out (ms_src m) (ms_dst m) state = Some (RX_OK, out @ [b], count_rx_data state) \<and>
      buf_bytes b = msdu_delivered env m"
    and "cap \<le> length out \<Longrightarrow> awdl_rx_data env cap sub out (ms_src m) (ms_dst m) state = None"
proof -
  have m: "peer_lookup (peers_of state) (ms_src m) \<noteq> None" "length (ms_head m) = 6" using assms(2) by (simp_all add: msdu_ok_def)
  note fields = msdu_body_fields [OF m(2)]
  have len: "16 \<le> length (msdu_body m)" using m(2) by (simp add: length_msdu_body)
  show "awdl_rx_data env cap sub out (ms_src m) (ms_dst m) state = None" if "cap \<le> length out"
    using rx_data_full [OF assms(1,3) m(1)] fields(1) len that by (simp add: assms(4))
  show "\<exists>b. awdl_rx_data env cap sub out (ms_src m) (ms_dst m) state = Some (RX_OK, out @ [b], count_rx_data state) \<and>
      buf_bytes b = msdu_delivered env m" if "length out < cap"
    using rx_data_total [OF assms(1,3) disjI2 [OF that], where src = "ms_src m" and dst = "ms_dst m" and env = env] m(1) fields len
    by (auto simp: assms(4) msdu_delivered_def)
qed

lemma amsdu_one:
  assumes "state_ok L state" and "msdu_ok state m" and "buf_wf frame" and "buf_bytes frame = msdu_bytes m @ rest"
    and "rest = [] \<or> rest = replicate (amsdu_pad (length (msdu_body m))) 0 @ rest' \<and> rest' \<noteq> []"
  obtains b frame2 where "buf_wf frame2" and "buf_bytes frame2 = (if rest = [] then [] else rest')"
    and "length out < cap \<Longrightarrow> buf_bytes b = msdu_delivered env m"
    and "awdl_rx_data_amsdu env cap frame out state =
      (if length out < cap then awdl_rx_data_amsdu env cap frame2 (out @ [b]) (count_rx_data state) else None)"
proof -
  have len: "length (msdu_body m) < 65536" using assms(2) by (simp add: msdu_ok_def length_msdu_body)
  note fields = msdu_bytes_fields [OF len, of rest, folded assms(4)]
  have fits: "14 + length (msdu_body m) \<le> length (buf_bytes frame)" by (simp add: assms(4))
  have rest: "drop (14 + length (msdu_body m)) (buf_bytes frame) = rest" by (simp add: assms(4))
  obtain sub frame2 where sub: "buf_wf sub" "buf_bytes sub = msdu_body m" and f2: "buf_wf frame2"
      "buf_bytes frame2 = (if rest = [] then [] else rest')"
    and run: "awdl_rx_data_amsdu env cap frame out state =
      (case awdl_rx_data env cap sub out (ms_src m) (ms_dst m) state of
         None \<Rightarrow> None
       | Some (err, out, state) \<Rightarrow>
           if rx_code err < 0 then Some (err, out, state) else awdl_rx_data_amsdu env cap frame2 out state)"
  proof (rule amsdu_step [OF assms(3) fits fields(3) [symmetric]], goal_cases)
    case (1 sub frame2)
    have "buf_bytes frame2 = (if rest = [] then [] else rest')"
      using 1(5) assms(4,5) by auto
    moreover have "\<not> (rest \<noteq> [] \<and> length (buf_bytes frame) < 14 + length (msdu_body m) + amsdu_pad (length (msdu_body m)))"
      using assms(4,5) by auto
    then have "awdl_rx_data_amsdu env cap frame out state =
      (case awdl_rx_data env cap sub out (ms_src m) (ms_dst m) state of
         None \<Rightarrow> None
       | Some (err, out, state) \<Rightarrow>
           if rx_code err < 0 then Some (err, out, state) else awdl_rx_data_amsdu env cap frame2 out state)"
      using 1(6) [of env cap out state] fields(1,2) by (cases "awdl_rx_data env cap sub out (ms_src m) (ms_dst m) state") (auto simp: rest)
    ultimately show ?case using 1(1) [of sub frame2] 1(2-4) fields(4) by simp
  qed
  show thesis
  proof (cases "length out < cap")
    case True
    then show ?thesis using msdu_received(1) [OF assms(1,2) sub True, of env] that f2 run by auto
  next
    case False
    then show ?thesis using msdu_received(2) [OF assms(1,2) sub, of cap out env] that f2 run by auto
  qed
qed

lemma amsdu_list:
  assumes "state_ok L state" and "buf_wf frame" and "buf_bytes frame = amsdu_bytes ms"
    and "\<forall>m\<in>set ms. msdu_ok state m" and "length out \<le> cap"
  shows "if length out + length ms \<le> cap
     then \<exists>sent state'. awdl_rx_data_amsdu env cap frame out state = Some (RX_OK, out @ sent, state') \<and>
       map buf_bytes sent = map (msdu_delivered env) ms
     else awdl_rx_data_amsdu env cap frame out state = None"
  using assms
proof (induction ms arbitrary: frame out state rule: amsdu_bytes.induct)
  case 1
  then show ?case using amsdu_end(1) [of frame env cap out state] by auto
next
  case (2 m)
  then have m: "msdu_ok state m" "buf_bytes frame = msdu_bytes m @ []" by simp_all
  show ?case
  proof (rule amsdu_one [OF 2(1) m(1) 2(2) m(2), where env = env and cap = cap and out = out and rest' = "[]"], goal_cases)
    case (2 b frame2)
    then show ?case using amsdu_end(1) [of frame2 env cap "out @ [b]" "count_rx_data state"] by auto
  qed simp
next
  case (3 m m' ms)
  let ?rest = "replicate (amsdu_pad (length (msdu_body m))) 0 @ amsdu_bytes (m' # ms)"
  have m: "msdu_ok state m" "buf_bytes frame = msdu_bytes m @ ?rest" using 3(4,5) by simp_all
  show ?case
  proof (rule amsdu_one [OF 3(2) m(1) 3(3) m(2), where env = env and cap = cap and out = out and rest' = "amsdu_bytes (m' # ms)"], goal_cases)
    case (2 b frame2)
    have "\<forall>x\<in>set (m' # ms). msdu_ok (count_rx_data state) x" using 3(5) by (auto simp: msdu_ok_def)
    with 3(1) [of "count_rx_data state" frame2 "out @ [b]"] 2 3(2) show ?case
      by (cases "length out < cap") (auto split: if_splits)
  qed simp
qed

section \<open>Properties\<close>

text \<open>C21. An A-MSDU with well-formed frames of known senders, padded as the standard demands, is
  delivered completely and in order when the caller's array has room for all of them. With one
  frame more than the array holds, which the sender of the A-MSDU decides, the function writes
  behind the end of the array: its behaviour is undefined.\<close>

theorem awdl_rx_data_amsdu_delivers:
  assumes "state_ok L state" and "buf_wf frame" and "buf_bytes frame = amsdu_bytes ms"
    and "\<forall>m\<in>set ms. peer_lookup (peers_of state) (ms_src m) \<noteq> None \<and> length (ms_head m) = 6 \<and> length (ms_payload m) < 65520"
  shows "if length ms \<le> cap
     then \<exists>sent state'. awdl_rx_data_amsdu env cap frame [] state = Some (RX_OK, sent, state') \<and>
       map buf_bytes sent = map (\<lambda>m. delivered (env_frame env) (ms_src m) (ms_dst m) (ms_type m) (ms_payload m)) ms
     else awdl_rx_data_amsdu env cap frame [] state = None"
proof -
  have "\<forall>m\<in>set ms. msdu_ok state m" using assms(4) by (simp add: msdu_ok_def)
  from amsdu_list [OF assms(1-3) this, of "[]" cap env] show ?thesis
    by (auto simp: msdu_delivered_def [abs_def] split: if_splits)
qed

text \<open>Seventeen empty frames in one A-MSDU for the array of sixteen the daemon uses.\<close>

definition sample_msdu :: msdu where
  "sample_msdu = \<lparr>ms_dst = sample_addr, ms_src = sample_peer_addr, ms_head = [3, 4, 0, 0, 0, 0], ms_type = 0x86dd, ms_payload = []\<rparr>"

definition sample_amsdu :: "nat \<Rightarrow> buf" where
  "sample_amsdu n = (let bs = amsdu_bytes (replicate n sample_msdu) in
     \<lparr>b_orig = bs, b_data = 0, b_len = int (length bs), b_owned = False\<rparr>)"

lemma sample_amsdu_ok:
  "buf_bytes (sample_amsdu n) = amsdu_bytes (replicate n sample_msdu)"
  "int (length (amsdu_bytes (replicate n sample_msdu))) \<le> INT_MAX \<Longrightarrow> buf_wf (sample_amsdu n)"
  by (simp_all add: sample_amsdu_def buf_bytes_def buf_wf_def Let_def)

theorem awdl_rx_data_amsdu_delivers_witness:
  "(\<exists>sent state'. awdl_rx_data_amsdu sample_env 16 (sample_amsdu 16) [] sample_known = Some (RX_OK, sent, state') \<and> length sent = 16) \<and>
   awdl_rx_data_amsdu sample_env 16 (sample_amsdu 17) [] sample_known = None"
proof -
  have len: "length (amsdu_bytes (replicate 16 sample_msdu)) = 510" "length (amsdu_bytes (replicate 17 sample_msdu)) = 542"
    by code_simp+
  have known: "\<forall>m\<in>set (replicate n sample_msdu). peer_lookup (peers_of sample_known) (ms_src m) \<noteq> None \<and>
      length (ms_head m) = 6 \<and> length (ms_payload m) < 65520" for n
    using sample_known_ok(2) by (simp add: sample_msdu_def)
  have wf: "buf_wf (sample_amsdu 16)" "buf_wf (sample_amsdu 17)" using sample_amsdu_ok(2) by (simp_all add: len INT_MAX_def)
  show ?thesis
    using awdl_rx_data_amsdu_delivers [OF sample_known_ok(1) wf(1) sample_amsdu_ok(1) known, of 16 sample_env]
      awdl_rx_data_amsdu_delivers [OF sample_known_ok(1) wf(2) sample_amsdu_ok(1) known, of 16 sample_env]
    by (auto dest: arg_cong [where f = length])
qed

end
