(* ===== verification/Rx_Safe.thy ===== *)
theory Rx_Safe
  imports Rx_Amsdu
begin

text \<open>
  The safety of \<^verbatim>\<open>awdl_rx\<close> of \<^verbatim>\<open>src/src/rx.c\<close>, the entry of all reception: every frame, whatever its bytes and whatever
  the radiotap library reports, holds a certain number of frames for the host; reception is defined exactly when the caller's array
  has room for them, and then ends and keeps the invariant of the node's state.
\<close>

text \<open>The outcome of a reception, as a function of the size of the caller's array: the same for all sizes that are large
  enough, undefined for the others.\<close>

definition rx_sized :: "nat \<Rightarrow> awdl_state \<Rightarrow> nat \<Rightarrow> (nat \<Rightarrow> (RX_RESULT \<times> buf list \<times> awdl_state \<times> rx_event list) option) \<Rightarrow> bool" where
  "rx_sized L state bound r \<longleftrightarrow>
     (\<exists>result out state' events. (\<forall>cap. r cap = (if length out \<le> cap then Some (result, out, state', events) else None)) \<and>
        length out \<le> bound \<and> state_ok L state' \<and> rx_frame_rule state state' \<and>
        (\<forall>b\<in>set out. buf_wf b \<and> length (buf_bytes b) = 1518))"

lemma rx_sizedI:
  assumes "\<And>cap. r cap = (if length out \<le> cap then Some (result, out, state', events) else None)" and "length out \<le> bound"
    and "state_ok L state'" and "rx_frame_rule state state'" and "\<And>b. b \<in> set out \<Longrightarrow> buf_wf b \<and> length (buf_bytes b) = 1518"
  shows "rx_sized L state bound r"
  unfolding rx_sized_def using assms by blast

lemma rx_sized_end: "state_ok L state' \<Longrightarrow> rx_frame_rule state state' \<Longrightarrow> rx_sized L state bound (\<lambda>_. Some (result, [], state', events))"
  by (rule rx_sizedI [of _ "[]"]) simp_all

lemma rx_sized_stop: "state_ok L state \<Longrightarrow> rx_sized L state bound (\<lambda>_. Some (result, [], state, []))"
  by (rule rx_sized_end) simp_all

lemma rx_sized_if:
  "(c \<Longrightarrow> rx_sized L state bound r) \<Longrightarrow> (\<not> c \<Longrightarrow> rx_sized L state bound r') \<Longrightarrow>
   rx_sized L state bound (\<lambda>cap. if c then r cap else r' cap)"
  by (cases c) simp_all

lemma rx_sized_checked:
  assumes "r \<noteq> UB" and "rx_sized L state bound (\<lambda>_. err)" and "\<And>n v. r = Ret n v \<Longrightarrow> rx_sized L state bound (continue v)"
  shows "rx_sized L state bound (\<lambda>cap. checked r err (\<lambda>v. continue v cap))"
proof (cases r)
  case (Ret n v)
  then show ?thesis using assms(2) assms(3) [OF Ret] by (cases "n < 0") (simp_all add: checked_def)
qed (use assms in \<open>simp_all add: checked_def\<close>)

lemma rx_sized_strip:
  assumes "buf_wf frame" and "rx_sized L state bound (\<lambda>_. err)"
    and "\<And>frame'. buf_wf frame' \<Longrightarrow> length (buf_bytes frame') \<le> length (buf_bytes frame) \<Longrightarrow> rx_sized L state bound (continue frame')"
  shows "rx_sized L state bound (\<lambda>cap. checked (buf_strip frame n) err (\<lambda>f. continue f cap))"
proof (rule rx_sized_checked)
  show "buf_strip frame n \<noteq> UB" by (simp add: buf_strip_def)
  fix m v
  assume "buf_strip frame n = Ret m v"
  from buf_strip_wf [OF assms(1) this] show "rx_sized L state bound (continue v)" by (intro assms(3)) auto
qed (rule assms(2))

lemma check_fcs_wf:
  assumes "buf_wf frame" and "check_fcs rt frame flags = (bad, frame')"
  shows "buf_wf frame' \<and> length (buf_bytes frame') \<le> length (buf_bytes frame)"
  using assms buf_take_wf [OF assms(1), of 4]
  by (auto simp: check_fcs_def split: if_splits wire_result.splits)

lemma rx_sized_action:
  assumes "alloc_ok L (env_mem env)" and "junk_ok (env_peer env)" and "state_ok L state" and "buf_wf frame"
  shows "rx_sized L state bound (\<lambda>_. rx_result_of (awdl_rx_action env frame rssi now src dst state))"
proof -
  obtain subtype where hdr: "awdl_parse_action_hdr frame = Some subtype" using parse_action_hdr_total [OF assms(4)] by blast
  show ?thesis
  proof (cases "0 \<le> subtype \<and> \<not> rssi_too_low state src rssi")
    case False
    then show ?thesis
      using hdr rx_sized_stop [OF assms(3)] by (cases "subtype < 0") (auto simp: awdl_rx_action_def rx_result_of_def)
  next
    case True
    then have ok: "0 \<le> subtype" "\<not> rssi_too_low state src rssi" by simp_all
    show ?thesis
    proof (rule rx_action_total [OF assms hdr ok, of now dst], goal_cases)
      case (2 m)
      then show ?case
        using assms(3) rx_frame_rule_trans [OF rx_frame_rule_step(2) rx_frame_rule_step(1)]
        by (simp add: rx_sized_end rx_result_of_def set_peers_ok)
    qed (simp add: rx_sized_end rx_result_of_def)
  qed
qed

lemma rx_sized_data:
  assumes "state_ok L state" and "buf_wf frame" and "1 \<le> bound"
  shows "rx_sized L state bound (\<lambda>cap. rx_result_data (awdl_rx_data env cap frame [] src dst state))"
proof -
  obtain result sent where sent: "sent = [] \<or> (\<exists>b. sent = [b] \<and> buf_wf b \<and> length (buf_bytes b) = 1518)"
    and run: "\<And>cap. awdl_rx_data env cap frame [] src dst state =
      (if length sent \<le> cap then Some (result, sent, count_rx_data state) else None)"
    using rx_data_sized [OF assms(1,2), of "[]" env src dst] by (simp only: list.size add_0 le0 append_Nil simp_thms) blast
  show ?thesis
    by (rule rx_sizedI [of _ sent result "count_rx_data state" "[]"]) (use sent run assms in \<open>auto simp: rx_result_data_def\<close>)
qed

lemma rx_sized_amsdu:
  assumes "state_ok L state" and "buf_wf frame" and "length (buf_bytes frame) div 30 \<le> bound"
  shows "rx_sized L state bound (\<lambda>cap. rx_result_data (awdl_rx_data_amsdu env cap frame [] state))"
proof -
  obtain result sent state' where sent: "length sent \<le> length (buf_bytes frame) div 30" "state_ok L state'" "rx_frame_rule state state'"
      "\<forall>b\<in>set sent. buf_wf b \<and> length (buf_bytes b) = 1518"
    and run: "\<And>cap. awdl_rx_data_amsdu env cap frame [] state = (if length sent \<le> cap then Some (result, sent, state') else None)"
    using amsdu_sized [OF assms(1,2), of "[]" env] by (simp only: list.size add_0 le0 append_Nil simp_thms) blast
  show ?thesis
    by (rule rx_sizedI [of _ sent result state' "[]"]) (use sent run assms(3) in \<open>auto simp: rx_result_data_def\<close>)
qed

text \<open>The number of frames that a frame of some length can hold.\<close>

definition rx_bound :: "buf \<Rightarrow> nat" where
  "rx_bound frame = max 1 (length (buf_bytes frame) div 30)"

lemma rx_sized_mono: "rx_sized L state bound r \<Longrightarrow> bound \<le> bound' \<Longrightarrow> rx_sized L state bound' r"
  by (fastforce simp: rx_sized_def)

lemma rx_bound_mono: "length (buf_bytes f) \<le> length (buf_bytes frame) \<Longrightarrow> rx_bound f \<le> rx_bound frame"
  using div_le_mono [of "length (buf_bytes f)" "length (buf_bytes frame)" 30] by (auto simp: rx_bound_def)

lemma rx_sized_dispatch:
  assumes "alloc_ok L (env_mem env)" and "junk_ok (env_peer env)" and "state_ok L state" and "buf_wf frame"
  shows "rx_sized L state (rx_bound frame) (\<lambda>cap. rx_dispatch env cap now rssi fc src dst frame state)"
proof -
  let ?err = "Some (RX_TOO_SHORT, [], state, [])"
  let ?body = "\<lambda>v f cap. if v AND IEEE80211_QOS_CTL_A_MSDU_PRESENT \<noteq> 0
    then rx_result_data (awdl_rx_data_amsdu env cap f [] state)
    else rx_result_data (awdl_rx_data env cap f [] src dst state)"
  have data: "rx_sized L state (rx_bound frame) (\<lambda>cap. rx_result_data (awdl_rx_data env cap f [] src dst state))" if "buf_wf f" for f
    by (rule rx_sized_data [OF assms(3) that]) (simp add: rx_bound_def)
  have "rx_sized L state (rx_bound frame) (?body v f)" if f: "buf_wf f" "length (buf_bytes f) \<le> length (buf_bytes frame)" for f and v :: u16
  proof -
    have "length (buf_bytes f) div 30 \<le> rx_bound frame" using div_le_mono [OF f(2), of 30] by (simp add: rx_bound_def)
    then show ?thesis
      using data [OF f(1)] rx_sized_amsdu [OF assms(3) f(1)] by (cases "v AND IEEE80211_QOS_CTL_A_MSDU_PRESENT = 0") simp_all
  qed
  then have "rx_sized L state (rx_bound frame) (\<lambda>cap. checked (buf_strip frame n) ?err (\<lambda>f. ?body v f cap))" for n and v :: u16
    by (rule rx_sized_strip [OF assms(4) rx_sized_stop [OF assms(3)]])
  then have qos: "rx_sized L state (rx_bound frame)
      (\<lambda>cap. checked (read_le16 frame 0) ?err (\<lambda>v. checked (buf_strip frame n) ?err (\<lambda>f. ?body v f cap)))" for n
    using reads_defined(2) [OF assms(4), of 0] by - (rule rx_sized_checked [OF _ rx_sized_stop [OF assms(3)]], simp_all)
  show ?thesis
    unfolding rx_dispatch_def Let_def
    by (intro rx_sized_if) (rule qos rx_sized_action [OF assms] data [OF assms(4)] rx_sized_stop [OF assms(3)])+
qed

lemma rx_sized_ieee80211:
  assumes "alloc_ok L (env_mem env)" and "junk_ok (env_peer env)" and "state_ok L state" and "buf_wf frame"
  shows "rx_sized L state (rx_bound frame) (\<lambda>cap. rx_ieee80211 env cap now rssi frame state)"
proof -
  have "rx_sized L state (rx_bound frame) (\<lambda>cap. rx_dispatch env cap now rssi fc src dst f state)"
    if f: "buf_wf f" "length (buf_bytes f) \<le> length (buf_bytes frame)" for f fc src dst
    by (rule rx_sized_mono [OF rx_sized_dispatch [OF assms(1-3) f(1)] rx_bound_mono [OF f(2)]])
  then have strip: "rx_sized L state (rx_bound frame) (\<lambda>cap. checked (buf_strip frame 24) (Some (RX_TOO_SHORT, [], state, []))
      (\<lambda>f. rx_dispatch env cap now rssi fc src dst f state))" for fc src dst
    by (intro rx_sized_strip [OF assms(4) rx_sized_stop [OF assms(3)]])
  show ?thesis
    using strip rx_sized_stop [OF assms(3)] assms(4)
    by (cases "24 \<le> length (buf_bytes frame)")
      (auto simp: rx_ieee80211_def Let_def checked_read_bytes INT_MAX_def intro!: rx_sized_if)
qed

lemma rx_sized_rx:
  assumes "alloc_ok L (env_mem env)" and "junk_ok (env_peer env)" and "state_ok L state" and "buf_wf frame"
  shows "rx_sized L state (rx_bound frame) (\<lambda>cap. awdl_rx rt env cap now frame state)"
proof -
  obtain result rssi flags where p: "radiotap_parse rt frame (env_rssi env) (env_flags env) = (result, rssi, flags)"
    using prod_cases3 by blast
  have rest: "rx_sized L state (rx_bound frame)
      (\<lambda>cap. case check_fcs rt f flags of (bad, f) \<Rightarrow>
         if bad \<noteq> 0 then Some (RX_IGNORE_FAILED_CRC, [], state, []) else rx_ieee80211 env cap now rssi f state)"
    if f: "buf_wf f" "length (buf_bytes f) \<le> length (buf_bytes frame)" for f
  proof -
    obtain bad f' where c: "check_fcs rt f flags = (bad, f')" by (cases "check_fcs rt f flags")
    note w = check_fcs_wf [OF f(1) c]
    have "rx_sized L state (rx_bound frame) (\<lambda>cap. rx_ieee80211 env cap now rssi f' state)"
      by (rule rx_sized_mono [OF rx_sized_ieee80211 [OF assms(1-3)] rx_bound_mono]) (use w f(2) in auto)
    then show ?thesis using rx_sized_stop [OF assms(3)] by (cases "bad = 0") (simp_all add: c)
  qed
  have "rx_sized L state (rx_bound frame) (\<lambda>cap. checked (buf_strip frame n) (Some (RX_TOO_SHORT, [], state, [])) (\<lambda>f.
      case check_fcs rt f flags of (bad, f) \<Rightarrow>
         if bad \<noteq> 0 then Some (RX_IGNORE_FAILED_CRC, [], state, []) else rx_ieee80211 env cap now rssi f state))" for n
    by (rule rx_sized_strip [OF assms(4) rx_sized_stop [OF assms(3)]]) (rule rest)
  then show ?thesis using p rx_sized_stop [OF assms(3)] by (cases "rx_code result < 0") (simp_all add: awdl_rx_def)
qed

text \<open>The number of frames a received frame holds for the host, computed with an array that is always large enough.\<close>

definition rx_frames :: "radiotap \<Rightarrow> rx_env \<Rightarrow> u64 \<Rightarrow> buf \<Rightarrow> awdl_state \<Rightarrow> nat" where
  "rx_frames rt env now frame state =
     (case awdl_rx rt env (Suc (length (buf_bytes frame))) now frame state of
        None \<Rightarrow> 0
      | Some (result, out, state', events) \<Rightarrow> length out)"

lemma rx_frames_sized:
  assumes "alloc_ok L (env_mem env)" and "junk_ok (env_peer env)" and "state_ok L state" and "buf_wf frame"
  obtains result out state' events where "length out = rx_frames rt env now frame state" and "length out \<le> rx_bound frame"
    and "\<And>cap. awdl_rx rt env cap now frame state = (if length out \<le> cap then Some (result, out, state', events) else None)"
    and "state_ok L state'" and "rx_frame_rule state state'" and "\<And>b. b \<in> set out \<Longrightarrow> buf_wf b \<and> length (buf_bytes b) = 1518"
proof -
  obtain result out state' events where r: "\<forall>cap. awdl_rx rt env cap now frame state = (if length out \<le> cap then Some (result, out, state', events) else None)"
    "length out \<le> rx_bound frame" "state_ok L state'" "rx_frame_rule state state'" "\<forall>b\<in>set out. buf_wf b \<and> length (buf_bytes b) = 1518"
    using rx_sized_rx [OF assms, of rt now] unfolding rx_sized_def by blast
  have "rx_bound frame \<le> Suc (length (buf_bytes frame))"
    using div_le_dividend [of "length (buf_bytes frame)" 30] by (simp add: rx_bound_def)
  then have "length out = rx_frames rt env now frame state" using r(1,2) by (simp add: rx_frames_def)
  with that [of out result state' events] r show thesis by blast
qed

section \<open>Properties\<close>

text \<open>C7. Given memory for the record of a new peer, whatever bytes arrive, however many, and whatever the radiotap library reports about them, the outcome of reception
  is determined up to the size of the caller's array: the frame holds a number of frames for the host, at most one or one per thirty bytes
  received, and reception is defined exactly when the array has room for all of them. Then it ends, with a result that does not
  depend on the array, keeps the invariant of the node's state, changes only the synchronisation, the
  peer table and the statistics, and every frame it hands over has 1518 bytes.\<close>

theorem awdl_rx_safe:
  assumes "alloc_ok L (env_mem env)" and "junk_ok (env_peer env)" and "state_ok L state" and "buf_wf frame"
  shows "\<exists>result out state' events.
    (\<forall>cap. awdl_rx rt env cap now frame state = (if length out \<le> cap then Some (result, out, state', events) else None)) \<and>
    length out \<le> max 1 (length (buf_bytes frame) div 30) \<and> state_ok L state' \<and>
    state' = state\<lparr>st_sync := st_sync state', st_peers := (st_peers state)\<lparr>ps_peers := peers_of state'\<rparr>, st_stats := st_stats state'\<rparr> \<and>
    (\<forall>b\<in>set out. buf_wf b \<and> length (buf_bytes b) = 1518)"
proof -
  obtain result out state' events where r: "\<forall>cap. awdl_rx rt env cap now frame state = (if length out \<le> cap then Some (result, out, state', events) else None)"
    "length out \<le> rx_bound frame" "state_ok L state'" "rx_frame_rule state state'" "\<forall>b\<in>set out. buf_wf b \<and> length (buf_bytes b) = 1518"
    using rx_sized_rx [OF assms, of rt now] unfolding rx_sized_def by blast
  have "state' = state\<lparr>st_sync := st_sync state', st_peers := (st_peers state)\<lparr>ps_peers := peers_of state'\<rparr>, st_stats := st_stats state'\<rparr>"
    using r(4) by (auto simp: rx_frame_rule_def peers_of_def)
  with r(1,2,3,5) show ?thesis unfolding rx_bound_def by blast
qed

theorem awdl_rx_safe_witness:
  "\<exists>result out state' events. awdl_rx sample_radiotap sample_env 16 7 sample_action sample_state = Some (result, out, state', events) \<and>
     state_ok 256 state'"
proof -
  have "length (buf_bytes sample_action) div 30 \<le> 16" by (simp add: sample_action_def buf_bytes_def)
  with awdl_rx_safe [OF sample_action_ok(3,4) sample_state_ok sample_action_ok(1), of sample_radiotap 7] show ?thesis by fastforce
qed

end
