(* ===== verification/Schedule.thy ===== *)
theory Schedule
  imports Complex_Main State
begin

text \<open>
  Model of \<^verbatim>\<open>src/src/schedule.c\<close> and \<^verbatim>\<open>src/src/schedule.h\<close>: when data may be sent. A delay in
  seconds, a \<^verbatim>\<open>double\<close> in the code, is the exact rational number here; the rounding of doubles
  is not modelled (a delay below one period is exact to far below a microsecond).
\<close>

section \<open>The code\<close>

definition AWDL_UNICAST_GUARD_TU :: int where
  "AWDL_UNICAST_GUARD_TU = 3"

definition AWDL_MULTICAST_GUARD_TU :: int where
  "AWDL_MULTICAST_GUARD_TU = 16"

definition usec_to_sec :: "u64 \<Rightarrow> rat" where
  "usec_to_sec usec = of_nat (unat usec) / 1000000"

text \<open>The conversion to an unsigned integer truncates; it is undefined for a negative delay and for
  one that does not fit.\<close>

definition sec_to_usec :: "rat \<Rightarrow> u64 option" where
  "sec_to_usec sec =
     (if 0 \<le> sec * 1000000 \<and> sec * 1000000 < 18446744073709551616 then Some (word_of_int \<lfloor>sec * 1000000\<rfloor>) else None)"

definition awdl_same_channel_as_peer :: "awdl_state \<Rightarrow> u64 \<Rightarrow> awdl_peer \<Rightarrow> bool" where
  "awdl_same_channel_as_peer state now peer =
     (let own_slot = unat (awdl_sync_current_eaw now (st_sync state)) mod AWDL_CHANSEQ_LENGTH;
          peer_slot = unat (awdl_sync_current_eaw (now + p_sync_offset peer) (st_sync state)) mod AWDL_CHANSEQ_LENGTH;
          own_chan = awdl_chan_num (ch_sequence (st_channel state) ! own_slot) (ch_enc (st_channel state));
          peer_chan = awdl_chan_num (p_sequence peer ! peer_slot) (ch_enc (st_channel state)) in
      own_chan \<noteq> 0 \<and> own_chan = peer_chan)"

definition awdl_is_multicast_eaw :: "awdl_state \<Rightarrow> u64 \<Rightarrow> bool" where
  "awdl_is_multicast_eaw state now =
     (let slot = unat (awdl_sync_current_eaw now (st_sync state)) mod AWDL_CHANSEQ_LENGTH in
      slot = 0 \<or> slot = 10)"

definition awdl_can_send_in :: "awdl_state \<Rightarrow> u64 \<Rightarrow> int \<Rightarrow> rat" where
  "awdl_can_send_in state now guard =
     (let next_aw = awdl_sync_next_aw_us now (st_sync state);
          guard' = ieee80211_tu_to_usec (word_of_int guard);
          eaw = ieee80211_tu_to_usec 64 in
      if next_aw < guard' then - usec_to_sec (guard' - next_aw)
      else if eaw - next_aw < guard' then usec_to_sec (guard' - (eaw - next_aw))
      else 0)"

definition awdl_can_send_unicast_in :: "awdl_state \<Rightarrow> awdl_peer \<Rightarrow> u64 \<Rightarrow> int \<Rightarrow> rat" where
  "awdl_can_send_unicast_in state peer now guard =
     (let next_aw = awdl_sync_next_aw_us now (st_sync state);
          guard' = ieee80211_tu_to_usec (word_of_int guard);
          eaw = ieee80211_tu_to_usec 64 in
      if \<not> awdl_same_channel_as_peer state now peer then usec_to_sec next_aw
      else if next_aw < guard'
        then (if awdl_same_channel_as_peer state (now + eaw) peer then 0 else - usec_to_sec (guard' - next_aw))
      else if eaw - next_aw < guard'
        then (if awdl_same_channel_as_peer state (now - eaw) peer then 0 else usec_to_sec (guard' - (eaw - next_aw)))
      else 0)"

section \<open>The position inside an extended window\<close>

definition eaw_offset :: "u64 \<Rightarrow> awdl_state \<Rightarrow> nat" where
  "eaw_offset now state = since now (st_sync state) mod 65536"

lemma eaw_offset_less: "eaw_offset now state < 65536"
  by (simp add: eaw_offset_def)

lemma next_aw_offset: "sync_ok (st_sync state) \<Longrightarrow> unat (awdl_sync_next_aw_us now (st_sync state)) = 65536 - eaw_offset now state"
  by (simp add: next_aw_us_since eaw_offset_def)

lemma eaw_offset_later: "eaw_offset (now + d) state = (eaw_offset now state + unat d) mod 65536"
proof -
  have "x mod 18446744073709551616 mod 65536 = x mod 65536" for x :: nat by (rule mod_mod_cancel) simp
  then show ?thesis by (simp add: eaw_offset_def since_later mod_simps)
qed

lemma guard_usec:
  assumes "0 \<le> guard" and "guard \<le> 32"
  shows "unat (ieee80211_tu_to_usec (word_of_int guard)) = 1024 * nat guard"
proof -
  have "unat (word_of_int guard :: u64) = nat guard"
    using assms by (simp add: unat_eq_nat_uint uint_word_of_int)
  with assms show ?thesis by (simp only: ieee80211_tu_to_usec_def unat_word_ariths(2)) simp
qed

text \<open>A small number of microseconds as a machine word.\<close>

definition usec :: "nat \<Rightarrow> u64" where
  "usec k = word_of_nat k"

lemma unat_usec: "k \<le> 65536 \<Longrightarrow> unat (usec k) = k"
  by (simp add: usec_def unat_of_nat take_bit_eq_mod)

lemma usec_unat: "usec (unat w) = w"
  by (simp add: usec_def)

lemma usec_eq_0: "k \<le> 65536 \<Longrightarrow> usec k = 0 \<longleftrightarrow> k = 0"
  using unat_usec [of k] by (metis unat_0 unat_eq_zero)

lemma usec_to_sec_inverse: "sec_to_usec (usec_to_sec u) = Some u"
proof -
  have "usec_to_sec u * 1000000 = of_nat (unat u)" by (simp add: usec_to_sec_def)
  moreover have "(of_nat (unat u) :: rat) < 18446744073709551616"
  proof -
    have "(of_nat (unat u) :: rat) < of_nat 18446744073709551616"
      using unat_u64_less [of u] by (simp only: of_nat_less_iff)
    then show ?thesis by simp
  qed
  ultimately show ?thesis using usec_unat [of u] by (simp add: sec_to_usec_def usec_def del: of_nat_unat)
qed

lemma usec_to_sec_pos: "0 < u \<Longrightarrow> 0 < usec_to_sec u" "usec_to_sec u = 0 \<longleftrightarrow> u = 0" "0 \<le> usec_to_sec u"
  by (simp_all add: usec_to_sec_def unat_eq_zero unat_gt_0 word_greater_zero_iff del: of_nat_unat)

lemma usec_to_sec_add: "unat a + unat b < 18446744073709551616 \<Longrightarrow> usec_to_sec a + usec_to_sec b = usec_to_sec (a + b)"
  by (simp add: usec_to_sec_def unat_word_ariths add_divide_distrib del: of_nat_unat)

lemma can_send_in_cases:
  fixes now :: u64
  assumes "sync_ok (st_sync state)" and "0 \<le> guard" and "guard \<le> 32"
  defines "x \<equiv> eaw_offset now state" and "g \<equiv> 1024 * nat guard"
  shows "awdl_can_send_in state now guard =
    (if 65536 - x < g then - usec_to_sec (usec (g - (65536 - x)))
     else if x < g then usec_to_sec (usec (g - x)) else 0)"
proof -
  define n where "n = awdl_sync_next_aw_us now (st_sync state)"
  define g' where "g' = ieee80211_tu_to_usec (word_of_int guard)"
  have n: "unat n = 65536 - x" using next_aw_offset [OF assms(1)] by (simp add: n_def x_def)
  have g': "unat g' = g" using guard_usec [OF assms(2,3)] by (simp add: g'_def g_def)
  have x: "x < 65536" by (simp add: x_def eaw_offset_less)
  have g: "g \<le> 32768" using assms(2,3) by (simp add: g_def)
  have e: "ieee80211_tu_to_usec 64 = (65536 :: u64)" by (simp add: ieee80211_tu_to_usec_def)
  have en: "unat (65536 - n) = x" using n x by (simp add: unat_sub word_le_nat_alt)
  have d1: "g' - n = usec (g - (65536 - x))" if "65536 - x < g"
  proof -
    have "unat (g' - n) = g - (65536 - x)" using that n g' by (simp add: unat_sub word_le_nat_alt)
    then show ?thesis using usec_unat [of "g' - n"] by simp
  qed
  have d2: "g' - (65536 - n) = usec (g - x)" if "x < g"
  proof -
    have "unat (g' - (65536 - n)) = g - x" using that en g' by (simp only: unat_sub word_le_nat_alt)
    then show ?thesis using usec_unat [of "g' - (65536 - n)"] by simp
  qed
  show ?thesis
    unfolding awdl_can_send_in_def Let_def n_def [symmetric] g'_def [symmetric] e
    using d1 d2 by (simp add: word_less_nat_alt n g' en)
qed

lemma can_send_in_value:
  assumes "sync_ok (st_sync state)" and "0 \<le> guard" and "guard \<le> 32"
  shows "awdl_can_send_in state now guard =
    (if 65536 - eaw_offset now state < 1024 * nat guard
     then - (of_nat (1024 * nat guard - (65536 - eaw_offset now state)) / 1000000)
     else if eaw_offset now state < 1024 * nat guard then of_nat (1024 * nat guard - eaw_offset now state) / 1000000 else 0)"
proof -
  have "1024 * nat guard \<le> 65536" using assms(2,3) by simp
  then have "usec_to_sec (usec (1024 * nat guard - k)) = of_nat (1024 * nat guard - k) / 1000000" for k
    by (simp add: usec_to_sec_def unat_usec del: of_nat_unat of_nat_diff)
  then show ?thesis unfolding can_send_in_cases [OF assms] by presburger
qed

lemma can_send_in_zero:
  assumes "sync_ok (st_sync state)" and "0 \<le> guard" and "guard \<le> 32"
  shows "awdl_can_send_in state t guard = 0 \<longleftrightarrow> 1024 * nat guard \<le> eaw_offset t state \<and> eaw_offset t state \<le> 65536 - 1024 * nat guard"
  using eaw_offset_less [of t state] assms(2,3)
  by (auto simp: can_send_in_cases [OF assms] usec_to_sec_pos usec_eq_0)

lemma can_send_in_positive:
  assumes "sync_ok (st_sync state)" and "0 \<le> guard" and "guard \<le> 32" and "0 < awdl_can_send_in state now guard"
  shows "\<exists>u. sec_to_usec (awdl_can_send_in state now guard) = Some u \<and> awdl_can_send_in state (now + u) guard = 0 \<and>
    (\<forall>v < u. awdl_can_send_in state (now + v) guard \<noteq> 0)"
proof -
  define x g where "x = eaw_offset now state" and "g = 1024 * nat guard"
  define u where "u = usec (g - x)"
  have g: "g \<le> 32768" using assms(2,3) by (simp add: g_def)
  note zero = can_send_in_zero [OF assms(1-3), folded g_def]
  have d_eq: "awdl_can_send_in state now guard = usec_to_sec u" and xg: "x < g"
    using assms(4) usec_to_sec_pos(3) unfolding can_send_in_cases [OF assms(1-3)] g_def [symmetric] x_def [symmetric] u_def
    by (auto split: if_splits simp: not_less [symmetric])
  have u: "unat u = g - x" using unat_usec [of "g - x"] g by (simp add: u_def)
  have "eaw_offset (now + u) state = g" using u xg g by (simp add: eaw_offset_later x_def [symmetric])
  moreover have "\<not> g \<le> eaw_offset (now + v) state" if "v < u" for v
    using that u xg g by (simp add: eaw_offset_later x_def [symmetric] word_less_nat_alt)
  ultimately show ?thesis
    using g by (intro exI [of _ u]) (auto simp: d_eq usec_to_sec_inverse zero)
qed

lemma can_send_in_negative:
  assumes "sync_ok (st_sync state)" and "0 \<le> guard" and "guard \<le> 32" and "awdl_can_send_in state now guard < 0"
  shows "\<exists>u. sec_to_usec (- awdl_can_send_in state now guard + usec_to_sec (ieee80211_tu_to_usec (word_of_int guard))) = Some u \<and>
    unat (awdl_sync_current_eaw (now + u) (st_sync state)) = (unat (awdl_sync_current_eaw now (st_sync state)) + 1) mod 16384"
proof -
  define x g where "x = eaw_offset now state" and "g = 1024 * nat guard"
  define k where "k = usec (g - (65536 - x))"
  define u where "u = k + ieee80211_tu_to_usec (word_of_int guard)"
  have x: "x < 65536" and g: "g \<le> 32768" using assms(2,3) by (simp_all add: x_def g_def eaw_offset_less)
  have d_eq: "awdl_can_send_in state now guard = - usec_to_sec k" and xg: "65536 - x < g"
    using assms(4) usec_to_sec_pos(3) unfolding can_send_in_cases [OF assms(1-3)] g_def [symmetric] x_def [symmetric] k_def
    by (auto split: if_splits simp: not_less [symmetric])
  have k: "unat k = g - (65536 - x)" using unat_usec [of "g - (65536 - x)"] g by (simp add: k_def)
  have gu: "unat (ieee80211_tu_to_usec (word_of_int guard)) = g" using guard_usec [OF assms(2,3)] by (simp add: g_def)
  have sum: "usec_to_sec k + usec_to_sec (ieee80211_tu_to_usec (word_of_int guard)) = usec_to_sec u"
    using k gu g by (simp add: u_def usec_to_sec_add)
  have u: "unat u = g - (65536 - x) + g" using k gu g by (simp add: u_def unat_word_ariths(1))
  let ?t = "since now (st_sync state)"
  define q where "q = ?t div 65536"
  have t: "?t = 65536 * q + x" by (simp add: x_def eaw_offset_def q_def)
  have "?t + unat u = 2 * (g - (65536 - x)) + 65536 * (q + 1)"
    unfolding t u using xg x g by (simp add: algebra_simps)
  moreover have "2 * (g - (65536 - x)) < 65536" using g x xg by linarith
  ultimately have "(?t + unat u) div 65536 = ?t div 65536 + 1"
    by (simp only: q_def) (subst div_mult_self2, simp_all)
  then have "unat (awdl_sync_current_eaw (now + u) (st_sync state)) = (unat (awdl_sync_current_eaw now (st_sync state)) + 1) mod 16384"
    by (simp add: current_eaw_later [OF assms(1)] current_eaw_since [OF assms(1), of now] mod_Suc_eq)
  then show ?thesis by (intro exI [of _ u]) (simp add: d_eq sum usec_to_sec_inverse)
qed

section \<open>Properties\<close>

text \<open>C26. Multicast scheduling is exact. For a guard of at most half a window the delay is determined by the position in the
  extended window: closer than the guard to its end, minus the number of microseconds by which the rest of the window falls short of
  the guard; otherwise, closer than the guard to its start, the number of microseconds up to the guard; and zero elsewhere. So
  sending is allowed (the delay is zero) exactly when the position is at least the guard from both ends; a
  positive delay leads exactly to the first moment at which sending is allowed; and a negative one, converted as the
  sender converts it, leads into the next window.\<close>

theorem awdl_can_send_in_exact:
  assumes "sync_ok (st_sync state)" and "0 \<le> guard" and "guard \<le> 32"
  shows "let g = 1024 * nat guard; x = eaw_offset now state; d = awdl_can_send_in state now guard in
    d = (if 65536 - x < g then - (of_nat (g - (65536 - x)) / 1000000) else if x < g then of_nat (g - x) / 1000000 else 0) \<and>
    (d = 0 \<longleftrightarrow> g \<le> x \<and> x \<le> 65536 - g) \<and>
    (0 < d \<longrightarrow> (\<exists>u. sec_to_usec d = Some u \<and> awdl_can_send_in state (now + u) guard = 0 \<and>
       (\<forall>v < u. awdl_can_send_in state (now + v) guard \<noteq> 0))) \<and>
    (d < 0 \<longrightarrow> (\<exists>u. sec_to_usec (- d + usec_to_sec (ieee80211_tu_to_usec (word_of_int guard))) = Some u \<and>
       unat (awdl_sync_current_eaw (now + u) (st_sync state)) =
         (unat (awdl_sync_current_eaw now (st_sync state)) + 1) mod 16384))"
  unfolding Let_def
  using can_send_in_value [OF assms, of now] can_send_in_zero [OF assms, of now] can_send_in_positive [OF assms]
    can_send_in_negative [OF assms] by blast

theorem awdl_can_send_in_exact_witness:
  "awdl_can_send_in sample_state 40000 16 = 0 \<and> awdl_can_send_in sample_state 5000 16 = 12384 / 1000000 \<and>
   awdl_can_send_in sample_state 60000 16 = - (9848 / 1000000) \<and>
   (\<exists>u. sec_to_usec (awdl_can_send_in sample_state 5000 16) = Some u \<and> awdl_can_send_in sample_state (5000 + u) 16 = 0)"
proof -
  have ok: "sync_ok (st_sync sample_state)" using sample_state_ok by (simp add: state_ok_def)
  have off: "eaw_offset 40000 sample_state = 39000" "eaw_offset 5000 sample_state = 4000" "eaw_offset 60000 sample_state = 59000"
    by (simp_all add: eaw_offset_def since_def sample_state_def sample_sync_def)
  have "awdl_can_send_in sample_state 40000 16 = 0" "awdl_can_send_in sample_state 60000 16 = - (9848 / 1000000)"
    using awdl_can_send_in_exact [OF ok, of 16 40000] awdl_can_send_in_exact [OF ok, of 16 60000] by (simp_all add: off Let_def)
  moreover have "awdl_can_send_in sample_state 5000 16 = 12384 / 1000000 \<and>
      (\<exists>u. sec_to_usec (awdl_can_send_in sample_state 5000 16) = Some u \<and> awdl_can_send_in sample_state (5000 + u) 16 = 0)"
    using awdl_can_send_in_exact [OF ok, of 16 5000] by (auto simp: off Let_def)
  ultimately show ?thesis by blast
qed

text \<open>Unicast frames are only sent on a common channel: when no delay is required, the node and the
  peer are on the same non-zero channel now, and unless the moment is at least the guard away from
  both ends of the window they are also on the same channel in the window that is close.\<close>

theorem awdl_can_send_unicast_in_same_channel:
  assumes "sync_ok (st_sync state)" and "0 \<le> guard" and "guard \<le> 32"
    and "awdl_can_send_unicast_in state peer now guard = 0"
  shows "awdl_same_channel_as_peer state now peer \<and>
    (65536 - eaw_offset now state < 1024 * nat guard \<longrightarrow> awdl_same_channel_as_peer state (now + 65536) peer) \<and>
    (eaw_offset now state < 1024 * nat guard \<longrightarrow> 1024 * nat guard \<le> 65536 - eaw_offset now state \<longrightarrow>
       awdl_same_channel_as_peer state (now - 65536) peer)"
proof -
  define n where "n = awdl_sync_next_aw_us now (st_sync state)"
  define g' where "g' = ieee80211_tu_to_usec (word_of_int guard)"
  have n: "unat n = 65536 - eaw_offset now state" by (simp add: n_def next_aw_offset [OF assms(1)])
  have g': "unat g' = 1024 * nat guard" using guard_usec [OF assms(2,3)] by (simp add: g'_def)
  have e: "ieee80211_tu_to_usec 64 = (65536 :: u64)" by (simp add: ieee80211_tu_to_usec_def)
  have en: "unat (65536 - n) = eaw_offset now state"
    using n eaw_offset_less [of now state] by (simp add: unat_sub word_le_nat_alt)
  have pos: "n \<noteq> 0" using n eaw_offset_less [of now state] by (auto simp: unat_eq_zero [symmetric])
  note def = assms(4) [unfolded awdl_can_send_unicast_in_def Let_def n_def [symmetric] g'_def [symmetric] e]
  have same: "awdl_same_channel_as_peer state now peer"
    using def pos by (auto simp: usec_to_sec_pos split: if_splits)
  have late: "awdl_same_channel_as_peer state (now + 65536) peer" if "n < g'"
    using def same that by (auto simp: usec_to_sec_pos split: if_splits)
  have early: "awdl_same_channel_as_peer state (now - 65536) peer" if "\<not> n < g'" "65536 - n < g'"
    using def same that by (auto simp: usec_to_sec_pos split: if_splits)
  from same late early show ?thesis by (simp add: word_less_nat_alt n g' en)
qed

theorem awdl_can_send_unicast_in_same_channel_witness:
  "awdl_same_channel_as_peer sample_state 40000 (sample_junk\<lparr>p_sequence := awdl_chanseq_init_static CHAN_OPCLASS_6\<rparr>)"
proof -
  let ?p = "sample_junk\<lparr>p_sequence := awdl_chanseq_init_static CHAN_OPCLASS_6\<rparr>"
  have ok: "sync_ok (st_sync sample_state)" using sample_state_ok by (simp add: state_ok_def)
  have "awdl_can_send_unicast_in sample_state ?p 40000 3 = 0"
  proof -
    have m: "x mod AWDL_CHANSEQ_LENGTH < AWDL_CHANSEQ_LENGTH" for x by (simp add: AWDL_CHANSEQ_LENGTH_def)
    have "awdl_same_channel_as_peer sample_state t ?p" for t
      by (simp add: awdl_same_channel_as_peer_def sample_state_def m awdl_chan_num_def CHAN_OPCLASS_6_def)
    moreover have "awdl_sync_next_aw_us 40000 (st_sync sample_state) = 26536"
      by (simp add: sample_state_def sample_sync_def awdl_sync_next_aw_us_def eaw_period_def ieee80211_tu_to_usec_def)
    ultimately show ?thesis by (simp add: awdl_can_send_unicast_in_def ieee80211_tu_to_usec_def)
  qed
  from awdl_can_send_unicast_in_same_channel [OF ok _ _ this] show ?thesis by simp
qed

end
