(* ===== verification/Circular_Buffer.thy ===== *)
theory Circular_Buffer
  imports Prelude
begin

text \<open>
  Model of \<^verbatim>\<open>src/src/circular_buffer.c\<close>: the ring buffer that holds the multicast transmit
  queue. The contents of the ring are a list (oldest element first); the locale \<open>bounded_fifo\<close>
  is what the daemon relies on, and every operation is shown to implement it.
\<close>

section \<open>The ring\<close>

record 'a circular_buf =
  cb_buffer :: "'a list"
  cb_head :: nat
  cb_tail :: nat
  cb_max :: nat
  cb_full :: bool

definition advance_pointer :: "'a circular_buf \<Rightarrow> 'a circular_buf" where
  "advance_pointer cb =
     (let cb = (if cb_full cb then cb\<lparr>cb_tail := (cb_tail cb + 1) mod cb_max cb\<rparr> else cb);
          cb = cb\<lparr>cb_head := (cb_head cb + 1) mod cb_max cb\<rparr>
      in cb\<lparr>cb_full := (cb_head cb = cb_tail cb)\<rparr>)"

definition retreat_pointer :: "'a circular_buf \<Rightarrow> 'a circular_buf" where
  "retreat_pointer cb =
     (let cb = cb\<lparr>cb_full := False\<rparr> in cb\<lparr>cb_tail := (cb_tail cb + 1) mod cb_max cb\<rparr>)"

definition circular_buf_reset :: "'a circular_buf \<Rightarrow> 'a circular_buf" where
  "circular_buf_reset cb = cb\<lparr>cb_head := 0, cb_tail := 0, cb_full := False\<rparr>"

definition circular_buf_empty :: "'a circular_buf \<Rightarrow> bool" where
  "circular_buf_empty cb \<longleftrightarrow> \<not> cb_full cb \<and> cb_head cb = cb_tail cb"

definition circular_buf_is_full :: "'a circular_buf \<Rightarrow> bool" where
  "circular_buf_is_full cb = cb_full cb"

text \<open>The slots of a new ring hold whatever the allocation held (\<open>junk\<close>); a failed assertion
  is \<^term>\<open>None\<close>.\<close>

definition circular_buf_init :: "(nat \<Rightarrow> 'a) \<Rightarrow> nat \<Rightarrow> 'a circular_buf option" where
  "circular_buf_init junk n =
     (if n = 0 then None
      else let cb = circular_buf_reset
             \<lparr>cb_buffer = map junk [0..<n], cb_head = 0, cb_tail = 0, cb_max = n, cb_full = False\<rparr>
        in if circular_buf_empty cb then Some cb else None)"

definition circular_buf_size :: "'a circular_buf \<Rightarrow> nat" where
  "circular_buf_size cb =
     (if \<not> cb_full cb then
        (if cb_head cb \<ge> cb_tail cb then cb_head cb - cb_tail cb
         else cb_max cb + cb_head cb - cb_tail cb)
      else cb_max cb)"

definition circular_buf_capacity :: "'a circular_buf \<Rightarrow> nat" where
  "circular_buf_capacity cb = cb_max cb"

definition circular_buf_put :: "'a circular_buf \<Rightarrow> 'a \<Rightarrow> 'a circular_buf" where
  "circular_buf_put cb x = advance_pointer (cb\<lparr>cb_buffer := (cb_buffer cb)[cb_head cb := x]\<rparr>)"

definition circular_buf_put2 :: "'a circular_buf \<Rightarrow> 'a \<Rightarrow> int \<times> 'a circular_buf" where
  "circular_buf_put2 cb x =
     (if \<not> circular_buf_is_full cb
      then (0, advance_pointer (cb\<lparr>cb_buffer := (cb_buffer cb)[cb_head cb := x]\<rparr>))
      else (- 1, cb))"

definition circular_buf_get :: "'a circular_buf \<Rightarrow> bool \<Rightarrow> int \<times> 'a option \<times> 'a circular_buf" where
  "circular_buf_get cb peek =
     (if \<not> circular_buf_empty cb
      then (0, Some (cb_buffer cb ! cb_tail cb), if \<not> peek then retreat_pointer cb else cb)
      else (- 1, None, cb))"

section \<open>Invariant and contents\<close>

definition cb_inv :: "'a circular_buf \<Rightarrow> bool" where
  "cb_inv cb \<longleftrightarrow> 0 < cb_max cb \<and> length (cb_buffer cb) = cb_max cb \<and> cb_head cb < cb_max cb \<and>
     cb_tail cb < cb_max cb \<and> (cb_full cb \<longrightarrow> cb_head cb = cb_tail cb)"

definition cb_items :: "'a circular_buf \<Rightarrow> 'a list" where
  "cb_items cb = map (\<lambda>i. cb_buffer cb ! ((cb_tail cb + i) mod cb_max cb)) [0..<circular_buf_size cb]"

lemma length_cb_items [simp]: "length (cb_items cb) = circular_buf_size cb"
  by (simp add: cb_items_def)

lemma cb_size_le: "cb_inv cb \<Longrightarrow> circular_buf_size cb \<le> cb_max cb"
  by (auto simp: cb_inv_def circular_buf_size_def)

lemma cb_full_size: "cb_inv cb \<Longrightarrow> cb_full cb \<longleftrightarrow> circular_buf_size cb = cb_max cb"
  by (auto simp: cb_inv_def circular_buf_size_def)

lemma cb_empty_size: "cb_inv cb \<Longrightarrow> circular_buf_empty cb \<longleftrightarrow> circular_buf_size cb = 0"
  by (auto simp: cb_inv_def circular_buf_size_def circular_buf_empty_def)

lemma cb_head_eq: "cb_inv cb \<Longrightarrow> cb_head cb = (cb_tail cb + circular_buf_size cb) mod cb_max cb"
  by (auto simp: cb_inv_def circular_buf_size_def)

text \<open>A step of an index around the ring.\<close>

lemma ring_step: "i < m \<Longrightarrow> Suc i mod m = (if Suc i = m then 0 else Suc i)" for i m :: nat
  by auto

lemma cb_inv_put: "cb_inv cb \<Longrightarrow> cb_inv (circular_buf_put cb x)"
  by (auto simp: cb_inv_def circular_buf_put_def advance_pointer_def Let_def)

lemma cb_inv_retreat: "cb_inv cb \<Longrightarrow> cb_inv (retreat_pointer cb)"
  by (auto simp: cb_inv_def retreat_pointer_def Let_def)

lemma cb_size_put:
  "cb_inv cb \<Longrightarrow> circular_buf_size (circular_buf_put cb x) =
     (if cb_full cb then cb_max cb else circular_buf_size cb + 1)"
  by (auto simp: cb_inv_def circular_buf_put_def advance_pointer_def Let_def circular_buf_size_def ring_step)

lemma cb_size_retreat:
  "cb_inv cb \<Longrightarrow> \<not> circular_buf_empty cb \<Longrightarrow>
   circular_buf_size (retreat_pointer cb) = circular_buf_size cb - 1"
  by (auto simp: cb_inv_def retreat_pointer_def Let_def circular_buf_size_def circular_buf_empty_def ring_step)

lemma cb_items_put_free:
  assumes inv: "cb_inv cb" and "\<not> cb_full cb"
  shows "cb_items (circular_buf_put cb x) = cb_items cb @ [x]"
proof -
  let ?m = "cb_max cb" and ?t = "cb_tail cb" and ?n = "circular_buf_size cb"
  let ?buf = "(cb_buffer cb)[cb_head cb := x]"
  have len: "length (cb_buffer cb) = ?m" and head: "cb_head cb < ?m" using inv by (auto simp: cb_inv_def)
  have head_eq: "cb_head cb = (?t + ?n) mod ?m" by (rule cb_head_eq [OF inv])
  have n: "?n < ?m" using cb_full_size [OF inv] cb_size_le [OF inv] assms(2) by simp
  have same: "?buf ! ((?t + i) mod ?m) = cb_buffer cb ! ((?t + i) mod ?m)" if "i < ?n" for i
    using that n ring_offset_inject [of i ?m ?n ?t] by (simp add: head_eq)
  have new: "?buf ! ((?t + ?n) mod ?m) = x" using head len by (simp add: head_eq [symmetric])
  have "cb_items (circular_buf_put cb x) = map (\<lambda>i. ?buf ! ((?t + i) mod ?m)) [0..<?n + 1]"
    using assms(2) by (simp add: cb_items_def cb_size_put [OF inv]) (simp add: circular_buf_put_def advance_pointer_def Let_def)
  with same new show ?thesis by (simp add: cb_items_def)
qed

lemma cb_items_put_full:
  assumes inv: "cb_inv cb" and "cb_full cb"
  shows "cb_items (circular_buf_put cb x) = tl (cb_items cb) @ [x]"
proof -
  let ?m = "cb_max cb" and ?t = "cb_tail cb"
  let ?buf = "(cb_buffer cb)[cb_head cb := x]"
  have len: "length (cb_buffer cb) = ?m" and head: "cb_head cb < ?m" and pos: "0 < ?m" using inv by (auto simp: cb_inv_def)
  have n: "circular_buf_size cb = ?m" and ht: "cb_head cb = ?t" using cb_full_size [OF inv] inv assms(2) by (auto simp: cb_inv_def)
  have idx: "((?t + 1) mod ?m + i) mod ?m = (?t + Suc i) mod ?m" for i
    by (metis mod_add_left_eq add.assoc plus_1_eq_Suc)
  have same: "?buf ! ((?t + Suc i) mod ?m) = cb_buffer cb ! ((?t + Suc i) mod ?m)" if "i < ?m - 1" for i
    using that ring_offset_inject [of 0 ?m "Suc i" ?t] head by (simp add: ht)
  have new: "?buf ! ((?t + Suc (?m - 1)) mod ?m) = x" using head len pos by (simp add: ht)
  have "cb_items (circular_buf_put cb x) = map (\<lambda>i. ?buf ! ((?t + Suc i) mod ?m)) [0..<?m]"
    using assms(2) idx by (simp add: cb_items_def cb_size_put [OF inv]) (simp add: circular_buf_put_def advance_pointer_def Let_def)
  also have "[0..<?m] = [0..<?m - 1] @ [?m - 1]" using pos by (metis Suc_diff_1 upt_Suc zero_le)
  finally have "cb_items (circular_buf_put cb x) = map (\<lambda>i. cb_buffer cb ! ((?t + Suc i) mod ?m)) [0..<?m - 1] @ [x]"
    using same new by simp
  moreover have "[0..<?m] = 0 # map Suc [0..<?m - 1]" using pos by (simp add: map_Suc_upt upt_conv_Cons)
  then have "tl (cb_items cb) = map (\<lambda>i. cb_buffer cb ! ((?t + Suc i) mod ?m)) [0..<?m - 1]"
    by (simp add: cb_items_def n comp_def)
  ultimately show ?thesis by simp
qed

lemma cb_items_put:
  "cb_inv cb \<Longrightarrow> cb_items (circular_buf_put cb x) = (if cb_full cb then tl (cb_items cb) @ [x] else cb_items cb @ [x])"
  by (simp add: cb_items_put_free cb_items_put_full)

lemma cb_items_retreat:
  assumes inv: "cb_inv cb" and "\<not> circular_buf_empty cb"
  shows "cb_items cb = cb_buffer cb ! cb_tail cb # cb_items (retreat_pointer cb)"
proof -
  let ?m = "cb_max cb" and ?t = "cb_tail cb" and ?n = "circular_buf_size cb"
  have n: "0 < ?n" using assms by (simp add: cb_empty_size)
  have tail: "?t < ?m" using inv by (simp add: cb_inv_def)
  have idx: "((?t + 1) mod ?m + i) mod ?m = (?t + Suc i) mod ?m" for i
    by (metis mod_add_left_eq add.assoc plus_1_eq_Suc)
  have "cb_items (retreat_pointer cb) = map (\<lambda>i. cb_buffer cb ! ((?t + Suc i) mod ?m)) [0..<?n - 1]"
    using cb_size_retreat [OF assms] idx by (simp add: cb_items_def)
      (simp add: retreat_pointer_def Let_def)
  moreover have "[0..<?n] = 0 # map Suc [0..<?n - 1]"
    using n by (simp add: map_Suc_upt upt_conv_Cons)
  ultimately show ?thesis using tail by (simp add: cb_items_def comp_def)
qed


lemma cb_max_ops [simp]:
  "cb_max (circular_buf_put cb x) = cb_max cb" "cb_max (retreat_pointer cb) = cb_max cb"
  "cb_max (circular_buf_reset cb) = cb_max cb"
  by (simp_all add: circular_buf_put_def advance_pointer_def retreat_pointer_def circular_buf_reset_def Let_def)

lemma cb_reset:
  "cb_inv cb \<Longrightarrow> cb_inv (circular_buf_reset cb) \<and> cb_items (circular_buf_reset cb) = []"
  by (simp add: cb_inv_def circular_buf_reset_def cb_items_def circular_buf_size_def)

lemma cb_init:
  "0 < n \<Longrightarrow> \<exists>cb. circular_buf_init junk n = Some cb \<and> cb_inv cb \<and> cb_items cb = [] \<and> cb_max cb = n"
  by (simp add: circular_buf_init_def circular_buf_reset_def circular_buf_empty_def cb_inv_def
      cb_items_def circular_buf_size_def Let_def)

lemma cb_put2_put: "\<not> cb_full cb \<Longrightarrow> circular_buf_put2 cb x = (0, circular_buf_put cb x)"
  by (simp add: circular_buf_put2_def circular_buf_put_def circular_buf_is_full_def)

lemma cb_put2_full: "cb_full cb \<Longrightarrow> circular_buf_put2 cb x = (- 1, cb)"
  by (simp add: circular_buf_put2_def circular_buf_is_full_def)

section \<open>The contract of the transmit queue\<close>

locale bounded_fifo =
  fixes invar :: "'q \<Rightarrow> bool"
    and items :: "'q \<Rightarrow> 'a list"
    and capacity :: "'q \<Rightarrow> nat"
    and put :: "'q \<Rightarrow> 'a \<Rightarrow> 'q"
    and get :: "'q \<Rightarrow> bool \<Rightarrow> int \<times> 'a option \<times> 'q"
    and is_full :: "'q \<Rightarrow> bool"
    and is_empty :: "'q \<Rightarrow> bool"
  assumes bounded: "invar q \<Longrightarrow> length (items q) \<le> capacity q \<and> 0 < capacity q"
    and put_invar: "invar q \<Longrightarrow> invar (put q x) \<and> capacity (put q x) = capacity q"
    and put_items: "invar q \<Longrightarrow> items (put q x) = (if is_full q then tl (items q) @ [x] else items q @ [x])"
    and full_iff: "invar q \<Longrightarrow> is_full q \<longleftrightarrow> length (items q) = capacity q"
    and empty_iff: "invar q \<Longrightarrow> is_empty q \<longleftrightarrow> items q = []"
    and get_empty: "invar q \<Longrightarrow> items q = [] \<Longrightarrow> get q peek = (- 1, None, q)"
    and get_peek: "invar q \<Longrightarrow> items q = x # xs \<Longrightarrow> get q True = (0, Some x, q)"
    and get_pop: "invar q \<Longrightarrow> items q = x # xs \<Longrightarrow>
      \<exists>q'. get q False = (0, Some x, q') \<and> invar q' \<and> items q' = xs \<and> capacity q' = capacity q"
begin

text \<open>A sequence of insertions keeps the newest elements.\<close>

lemma put_all:
  "invar q \<Longrightarrow> invar (foldl put q xs) \<and> capacity (foldl put q xs) = capacity q \<and>
   items (foldl put q xs) = drop (length (items q) + length xs - capacity q) (items q @ xs)"
proof (induction xs rule: rev_induct)
  case Nil
  then show ?case using bounded [of q] by simp
next
  case (snoc x xs)
  let ?q = "foldl put q xs" and ?l = "length (items q) + length xs" and ?c = "capacity q"
  from snoc have inv: "invar ?q" and cap: "capacity ?q = ?c"
    and it: "items ?q = drop (?l - ?c) (items q @ xs)" by auto
  have len: "length (items ?q) = min ?l ?c" by (simp add: it)
  have pos: "0 < ?c" using bounded [OF snoc.prems] by simp
  have "items (put ?q x) = drop (?l + 1 - ?c) (items q @ xs @ [x])"
  proof (cases "?c \<le> ?l")
    case True
    then have "is_full ?q" using full_iff [OF inv] len cap by simp
    then have "items (put ?q x) = tl (drop (?l - ?c) (items q @ xs)) @ [x]"
      using put_items [OF inv] it by simp
    also have "tl (drop (?l - ?c) (items q @ xs)) = drop (?l + 1 - ?c) (items q @ xs)"
      using True by (simp add: tl_drop [symmetric] drop_Suc Suc_diff_le drop_tl del: drop_append)
    finally show ?thesis using True pos by simp
  next
    case False
    then have "\<not> is_full ?q" using full_iff [OF inv] len cap by simp
    with False show ?thesis using put_items [OF inv] it by simp
  qed
  then show ?case using put_invar [OF inv] cap by simp
qed

lemma not_full_room: "invar q \<Longrightarrow> \<not> is_full q \<Longrightarrow> length (items q) < capacity q"
  using bounded [of q] full_iff [of q] by simp

lemma not_empty_head: "invar q \<Longrightarrow> \<not> is_empty q \<Longrightarrow> \<exists>x xs. items q = x # xs"
  using empty_iff [of q] by (cases "items q") simp_all

end

interpretation ring: bounded_fifo cb_inv cb_items circular_buf_capacity circular_buf_put
  circular_buf_get circular_buf_is_full circular_buf_empty
proof unfold_locales
  fix q :: "'a circular_buf" and x xs peek
  assume inv: "cb_inv q"
  show "length (cb_items q) \<le> circular_buf_capacity q \<and> 0 < circular_buf_capacity q"
    using inv cb_size_le [OF inv] by (simp add: circular_buf_capacity_def cb_inv_def)
  show "cb_inv (circular_buf_put q x) \<and> circular_buf_capacity (circular_buf_put q x) = circular_buf_capacity q"
    using cb_inv_put [OF inv] by (simp add: circular_buf_capacity_def)
  show "cb_items (circular_buf_put q x) =
      (if circular_buf_is_full q then tl (cb_items q) @ [x] else cb_items q @ [x])"
    by (simp add: cb_items_put [OF inv] circular_buf_is_full_def)
  show "circular_buf_is_full q \<longleftrightarrow> length (cb_items q) = circular_buf_capacity q"
    by (simp add: cb_full_size [OF inv] circular_buf_is_full_def circular_buf_capacity_def)
  show empty: "circular_buf_empty q \<longleftrightarrow> cb_items q = []"
    using length_cb_items [of q] cb_empty_size [OF inv] by (metis length_0_conv)
  show "cb_items q = [] \<Longrightarrow> circular_buf_get q peek = (- 1, None, q)"
    using empty by (simp add: circular_buf_get_def)
  show "cb_items q = x # xs \<Longrightarrow> circular_buf_get q True = (0, Some x, q)"
    using empty cb_items_retreat [OF inv] by (simp add: circular_buf_get_def)
  show "cb_items q = x # xs \<Longrightarrow> \<exists>q'. circular_buf_get q False = (0, Some x, q') \<and> cb_inv q' \<and>
      cb_items q' = xs \<and> circular_buf_capacity q' = circular_buf_capacity q"
    using empty cb_items_retreat [OF inv] cb_inv_retreat [OF inv]
    by (simp add: circular_buf_get_def circular_buf_capacity_def)
qed

section \<open>Properties\<close>

text \<open>An operation of the interface, its effect on the ring, and its specification on a list
  bounded by \<open>cap\<close>: result code, value delivered, new contents.\<close>

datatype 'a cb_op = Put 'a | Put2 'a | Get bool | Reset

fun cb_step :: "'a circular_buf \<Rightarrow> 'a cb_op \<Rightarrow> (int \<times> 'a option) \<times> 'a circular_buf" where
  "cb_step cb (Put x) = ((0, None), circular_buf_put cb x)"
| "cb_step cb (Put2 x) = (case circular_buf_put2 cb x of (r, cb') \<Rightarrow> ((r, None), cb'))"
| "cb_step cb (Get peek) = (case circular_buf_get cb peek of (r, v, cb') \<Rightarrow> ((r, v), cb'))"
| "cb_step cb Reset = ((0, None), circular_buf_reset cb)"

fun fifo_step :: "nat \<Rightarrow> 'a list \<Rightarrow> 'a cb_op \<Rightarrow> (int \<times> 'a option) \<times> 'a list" where
  "fifo_step cap xs (Put x) = ((0, None), (if length xs < cap then xs else tl xs) @ [x])"
| "fifo_step cap xs (Put2 x) = (if length xs < cap then ((0, None), xs @ [x]) else ((- 1, None), xs))"
| "fifo_step cap [] (Get peek) = ((- 1, None), [])"
| "fifo_step cap (x # xs) (Get peek) = ((0, Some x), if peek then x # xs else xs)"
| "fifo_step cap xs Reset = ((0, None), [])"

fun run :: "('s \<Rightarrow> 'op \<Rightarrow> 'r \<times> 's) \<Rightarrow> 's \<Rightarrow> 'op list \<Rightarrow> 'r list \<times> 's" where
  "run step s [] = ([], s)"
| "run step s (op # ops) =
     (case step s op of (r, s') \<Rightarrow> case run step s' ops of (rs, s'') \<Rightarrow> (r # rs, s''))"

lemma cb_step_simulates:
  assumes inv: "cb_inv cb" and step: "cb_step cb op = (r, cb')"
  shows "cb_inv cb' \<and> cb_max cb' = cb_max cb \<and> fifo_step (cb_max cb) (cb_items cb) op = (r, cb_items cb')"
proof -
  have full: "\<not> cb_full cb \<longleftrightarrow> circular_buf_size cb < cb_max cb"
    using cb_full_size [OF inv] cb_size_le [OF inv] by auto
  show ?thesis
  proof (cases op)
    case (Put x)
    then show ?thesis using step inv full by (auto simp: cb_inv_put cb_items_put)
  next
    case (Put2 x)
    then show ?thesis using step inv full
      by (cases "cb_full cb") (auto simp: cb_put2_put cb_put2_full cb_inv_put cb_items_put)
  next
    case (Get peek)
    show ?thesis
    proof (cases "cb_items cb")
      case Nil
      then show ?thesis using step Get inv ring.get_empty [OF inv Nil] by auto
    next
      case (Cons x xs)
      show ?thesis
      proof (cases peek)
        case True
        then show ?thesis using step Get Cons inv ring.get_peek [OF inv Cons] by auto
      next
        case False
        then show ?thesis using step Get Cons ring.get_pop [OF inv Cons]
          by (auto simp: circular_buf_capacity_def)
      qed
    qed
  next
    case Reset
    then show ?thesis using step inv cb_reset [OF inv] by auto
  qed
qed

text \<open>C17. The ring buffer implements a bounded first-in first-out queue: over every sequence of
  insertions (overwriting and rejecting), removals, peeks and resets it returns the same result
  codes and values as a list bounded by the capacity, and ends with the same contents.\<close>

theorem circular_buf_refines_fifo:
  assumes "cb_inv cb"
  shows "\<exists>cb'. run cb_step cb ops = (fst (run (fifo_step (cb_max cb)) (cb_items cb) ops), cb') \<and>
    cb_inv cb' \<and> cb_items cb' = snd (run (fifo_step (cb_max cb)) (cb_items cb) ops)"
  using assms
proof (induction ops arbitrary: cb)
  case Nil
  then show ?case by simp
next
  case (Cons op ops)
  obtain r cb1 where step: "cb_step cb op = (r, cb1)" by fastforce
  note sim = cb_step_simulates [OF Cons.prems step]
  from Cons.IH [of cb1] sim obtain cb' where
    "run cb_step cb1 ops = (fst (run (fifo_step (cb_max cb)) (cb_items cb1) ops), cb')" "cb_inv cb'"
    "cb_items cb' = snd (run (fifo_step (cb_max cb)) (cb_items cb1) ops)"
    by auto
  with step sim show ?case by (auto split: prod.splits)
qed

theorem circular_buf_refines_fifo_witness:
  "\<exists>cb. circular_buf_init (\<lambda>_. 0 :: nat) 2 = Some cb \<and> cb_inv cb \<and>
    fst (run cb_step cb [Put 7, Put 8, Put2 5, Put 9, Get True, Get False, Get False, Get False]) =
      [(0, None), (0, None), (- 1, None), (0, None), (0, Some 8), (0, Some 8), (0, Some 9), (- 1, None)]"
proof -
  obtain cb where cb: "circular_buf_init (\<lambda>_. 0 :: nat) 2 = Some cb" "cb_inv cb" "cb_items cb = []" "cb_max cb = 2"
    using cb_init [of 2 "\<lambda>_. 0 :: nat"] by auto
  from circular_buf_refines_fifo [OF cb(2),
      of "[Put 7, Put 8, Put2 5, Put 9, Get True, Get False, Get False, Get False]"]
  show ?thesis using cb by auto
qed

text \<open>Inserting a burst of elements never fails and keeps exactly the newest ones that fit:
  the queue holds the last \<open>capacity\<close> elements of the old contents followed by the burst, in
  order.\<close>

theorem circular_buf_put_burst:
  assumes "cb_inv cb"
  shows "cb_inv (foldl circular_buf_put cb xs) \<and>
    cb_items (foldl circular_buf_put cb xs) =
      drop (circular_buf_size cb + length xs - circular_buf_capacity cb) (cb_items cb @ xs)"
  using ring.put_all [OF assms, of xs] by simp

theorem circular_buf_put_burst_witness:
  "\<exists>cb. circular_buf_init (\<lambda>_. 0 :: nat) 3 = Some cb \<and>
    cb_items (foldl circular_buf_put cb [1, 2, 3, 4, 5]) = [3, 4, 5]"
proof -
  obtain cb where cb: "circular_buf_init (\<lambda>_. 0 :: nat) 3 = Some cb" "cb_inv cb" "cb_items cb = []" "cb_max cb = 3"
    using cb_init [of 3 "\<lambda>_. 0 :: nat"] by auto
  moreover have "circular_buf_size cb = 0" using cb(3) length_cb_items [of cb] by simp
  ultimately show ?thesis
    using circular_buf_put_burst [OF cb(2), of "[1, 2, 3, 4, 5]"] by (simp add: circular_buf_capacity_def)
qed

end
