(* ===== verification/Io.thy ===== *)
theory Io
  imports Peers
begin

text \<open>
  Model of \<^verbatim>\<open>src/daemon/io.c\<close> on Linux: opening the WLAN and the host device, sending and
  receiving. The pcap library, the kernel and the functions of \<^verbatim>\<open>netutils.c\<close> are parameters: a
  record holds what each call returns in one run of the function that makes it. The model keeps track of
  the descriptors and handles that stay open.
\<close>

section \<open>Data\<close>

text \<open>The pcap handle is modelled by whether it is set.\<close>

record io_state =
  io_wlan_handle :: bool
  io_wlan_ifname :: string
  io_wlan_ifindex :: int
  io_host_ifname :: string
  io_host_ifindex :: int
  io_if_ether_addr :: ether_addr
  io_wlan_fd :: int
  io_host_fd :: int
  io_wlan_no_monitor_mode :: bool
  io_wlan_is_file :: bool

definition ENOENT :: int where
  "ENOENT = 2"

definition EINVAL :: int where
  "EINVAL = 22"

text \<open>What the calls of \<^verbatim>\<open>open_nonblocking_device\<close> return.\<close>

record pcap_calls =
  pc_create :: bool
  pc_activate :: int
  pc_setnonblock :: int
  pc_setdirection :: int
  pc_is_radiotap :: bool
  pc_compile :: int
  pc_setfilter :: int
  pc_fd :: int

text \<open>What the calls of \<^verbatim>\<open>open_savefile\<close> return: whether the file can be opened, and its descriptor.\<close>

record savefile_calls =
  sf_open :: bool
  sf_fd :: int

text \<open>What the calls of \<^verbatim>\<open>open_tun\<close> return, and the name the kernel chose.\<close>

record tun_calls =
  tun_open :: int
  tun_setiff :: int
  tun_name :: string
  tun_fionbio :: int
  tun_sethwaddr :: int
  tun_setflags :: int
  tun_setmtu :: int

text \<open>What the calls of \<^verbatim>\<open>io_state_init_wlan\<close> and \<^verbatim>\<open>io_state_init_host\<close> return.\<close>

record link_calls =
  lk_ifindex :: "string \<Rightarrow> int"
  lk_down :: int
  lk_monitor :: int
  lk_up :: int
  lk_addr_get :: int
  lk_addr :: ether_addr

section \<open>Opening devices\<close>

text \<open>The descriptor or an error, whether the caller's handle is set, and whether a handle stays open.\<close>

definition open_nonblocking_device :: "pcap_calls \<Rightarrow> int \<times> bool \<times> bool" where
  "open_nonblocking_device pc =
     (if \<not> pc_create pc then (- 1, False, False)
      else if pc_activate pc < 0 then (- 1, False, False)
      else if pc_setnonblock pc \<noteq> 0 then (- 1, False, False)
      else if \<not> pc_is_radiotap pc then (- 1, False, False)
      else if pc_compile pc = - 1 then (- 1, False, True)
      else if pc_setfilter pc = - 1 then (- 1, False, True)
      else if pc_fd pc = - 1 then (- 1, False, True)
      else (pc_fd pc, True, True))"

definition open_savefile :: "savefile_calls \<Rightarrow> int \<times> bool \<times> bool" where
  "open_savefile sf =
     (if \<not> sf_open sf then (- 1, False, False)
      else if sf_fd sf = - 1 then (- 1, False, True)
      else (sf_fd sf, True, True))"

text \<open>The descriptor or an error, the device name, and whether the device and the auxiliary socket
  stay open.\<close>

definition open_tun :: "tun_calls \<Rightarrow> string \<Rightarrow> int \<times> string \<times> bool \<times> bool" where
  "open_tun tun dev =
     (if tun_open tun < 0 then (tun_open tun, dev, False, False)
      else if tun_setiff tun < 0 then (tun_setiff tun, dev, False, False)
      else if tun_fionbio tun < 0 then (tun_fionbio tun, tun_name tun, False, False)
      else if tun_sethwaddr tun < 0 then (tun_sethwaddr tun, tun_name tun, False, True)
      else if tun_setflags tun < 0 then (tun_setflags tun, tun_name tun, False, True)
      else if tun_setmtu tun < 0 then (tun_setmtu tun, tun_name tun, False, True)
      else (tun_open tun, tun_name tun, True, False))"

definition io_state_init_wlan_try_savefile :: "savefile_calls \<Rightarrow> io_state \<Rightarrow> int \<times> io_state" where
  "io_state_init_wlan_try_savefile sf state =
     (case open_savefile sf of
        (fd, handle, _) \<Rightarrow>
          (let state = state\<lparr>io_wlan_fd := fd, io_wlan_handle := handle \<or> io_wlan_handle state\<rparr> in
           if fd < 0 then (fd, state)
           else (0, state\<lparr>io_wlan_is_file := True, io_wlan_ifindex := 0\<rparr>)))"

definition io_state_init_wlan ::
  "savefile_calls \<Rightarrow> link_calls \<Rightarrow> pcap_calls \<Rightarrow> io_state \<Rightarrow> string \<Rightarrow> int \<times> io_state" where
  "io_state_init_wlan sf lk pc state wlan =
     (let state = state\<lparr>io_wlan_ifname := wlan, io_wlan_is_file := False\<rparr> in
      case io_state_init_wlan_try_savefile sf state of
        (err, state) \<Rightarrow>
          if err = 0 then (0, state)
          else
            (let state = state\<lparr>io_wlan_ifindex := lk_ifindex lk (io_wlan_ifname state)\<rparr> in
             if io_wlan_ifindex state = 0 then (- ENOENT, state)
             else if lk_down lk < 0 then (lk_down lk, state)
             else
               (let err = (if \<not> io_wlan_no_monitor_mode state then lk_monitor lk else lk_down lk) in
                if err < 0 then (err, state)
                else if lk_up lk < 0 then (lk_up lk, state)
                else
                  (case open_nonblocking_device pc of
                     (fd, handle, _) \<Rightarrow>
                       (let state = state\<lparr>io_wlan_fd := fd, io_wlan_handle := handle \<or> io_wlan_handle state\<rparr> in
                        if fd < 0 then (lk_up lk, state)
                        else if lk_addr_get lk < 0 then (lk_addr_get lk, state)
                        else (0, state\<lparr>io_if_ether_addr := lk_addr lk\<rparr>))))))"

definition io_state_init_host :: "link_calls \<Rightarrow> tun_calls \<Rightarrow> io_state \<Rightarrow> string \<Rightarrow> int \<times> io_state" where
  "io_state_init_host lk tun state host =
     (if length host > 0
      then
        (case open_tun tun host of
           (fd, name, _) \<Rightarrow>
             (let state = state\<lparr>io_host_ifname := name, io_host_fd := fd\<rparr> in
              if fd < 0 then (fd, state)
              else
                (let state = state\<lparr>io_host_ifindex := lk_ifindex lk (io_host_ifname state)\<rparr> in
                 if io_host_ifindex state = 0 then (- ENOENT, state) else (0, state))))
      else (0, state))"

definition io_state_init ::
  "savefile_calls \<Rightarrow> link_calls \<Rightarrow> pcap_calls \<Rightarrow> tun_calls \<Rightarrow> io_state \<Rightarrow> string \<Rightarrow> string \<Rightarrow> int \<times> io_state" where
  "io_state_init sf lk pc tun state wlan host =
     (case io_state_init_wlan sf lk pc state wlan of
        (err, state) \<Rightarrow>
          if err \<noteq> 0 then (err, state) else io_state_init_host lk tun state host)"

text \<open>The pcap handle is one that was opened: the functions above set it together with a descriptor that is not negative. Otherwise it is
  null, or whatever the memory held.\<close>

definition wlan_opened :: "io_state \<Rightarrow> bool" where
  "wlan_opened state \<longleftrightarrow> io_wlan_handle state \<and> 0 \<le> io_wlan_fd state"

section \<open>Sending and receiving\<close>

text \<open>What is passed to the pcap library or to the host device. \<open>inject\<close>, \<open>write\<close> and \<open>read\<close> are
  what the library and the kernel return; \<open>read\<close> gives the error number or the bytes.\<close>

definition wlan_send :: "(u8 list \<Rightarrow> int) \<Rightarrow> io_state \<Rightarrow> u8 list \<Rightarrow> int \<times> u8 list list" where
  "wlan_send inject state buf =
     (if \<not> io_wlan_handle state then (- EINVAL, [])
      else if inject buf < 0 then (inject buf, [buf]) else (0, [buf]))"

definition host_send :: "(u8 list \<Rightarrow> int) \<Rightarrow> io_state \<Rightarrow> u8 list \<Rightarrow> int \<times> u8 list list" where
  "host_send write state buf =
     (if io_host_fd state = 0 then (- EINVAL, [])
      else if write buf < 0 then (write buf, [buf]) else (0, [buf]))"

definition host_recv :: "int + u8 list \<Rightarrow> io_state \<Rightarrow> nat \<Rightarrow> int + u8 list" where
  "host_recv read state len =
     (if io_host_fd state = 0 then Inl (- EINVAL)
      else (case read of Inl errno \<Rightarrow> Inl (- errno) | Inr bs \<Rightarrow> Inr (take len bs)))"

section \<open>Properties\<close>

lemma savefile_init:
  "io_state_init_wlan_try_savefile sf state =
     (if sf_open sf \<and> 0 \<le> sf_fd sf
      then (0, state\<lparr>io_wlan_fd := sf_fd sf, io_wlan_handle := True, io_wlan_is_file := True, io_wlan_ifindex := 0\<rparr>)
      else (if sf_open sf then sf_fd sf else - 1,
            state\<lparr>io_wlan_fd := if sf_open sf then sf_fd sf else - 1,
                  io_wlan_handle := (sf_open sf \<and> sf_fd sf \<noteq> - 1) \<or> io_wlan_handle state\<rparr>))"
  by (simp add: io_state_init_wlan_try_savefile_def open_savefile_def Let_def)

text \<open>C40. Initialisation reports success although the WLAN device could not be opened: when the
  name is no savefile, the interface exists and the link operations succeed (netlink calls return zero), a
  failure of \<^verbatim>\<open>open_nonblocking_device\<close> makes \<^verbatim>\<open>io_state_init_wlan\<close> return the old zero of the last
  link operation, and the descriptor in the state is negative. With every other failure of a
  call the result is not zero.\<close>

theorem io_state_init_wlan_result:
  assumes "\<not> sf_open sf" and "lk_down lk = 0" and "lk_monitor lk \<le> 0" and "lk_up lk \<le> 0" and "lk_addr_get lk \<le> 0"
    and "io_state_init_wlan sf lk pc state wlan = (err, state')"
  shows "(err = 0 \<longleftrightarrow> lk_ifindex lk wlan \<noteq> 0 \<and> (io_wlan_no_monitor_mode state \<or> lk_monitor lk = 0) \<and> lk_up lk = 0 \<and>
      (fst (open_nonblocking_device pc) < 0 \<or> lk_addr_get lk = 0)) \<and>
    (err = 0 \<longrightarrow> io_wlan_fd state' = fst (open_nonblocking_device pc))"
  using assms
  by (auto simp: io_state_init_wlan_def savefile_init Let_def ENOENT_def split: prod.splits if_splits)

definition sample_io :: io_state where
  "sample_io = \<lparr>io_wlan_handle = False, io_wlan_ifname = [], io_wlan_ifindex = 0, io_host_ifname = [], io_host_ifindex = 0,
     io_if_ether_addr = EtherAddr 0 0 0 0 0 0, io_wlan_fd = 0, io_host_fd = 0, io_wlan_no_monitor_mode = False,
     io_wlan_is_file = False\<rparr>"

definition sample_link :: link_calls where
  "sample_link = \<lparr>lk_ifindex = (\<lambda>_. 3), lk_down = 0, lk_monitor = 0, lk_up = 0, lk_addr_get = 0, lk_addr = EtherAddr 2 0 0 0 0 1\<rparr>"

text \<open>A device without radiotap headers.\<close>

definition sample_pcap :: pcap_calls where
  "sample_pcap = \<lparr>pc_create = True, pc_activate = 0, pc_setnonblock = 0, pc_setdirection = 0, pc_is_radiotap = False,
     pc_compile = 0, pc_setfilter = 0, pc_fd = 5\<rparr>"

theorem io_state_init_wlan_result_witness:
  "\<exists>state'. io_state_init_wlan \<lparr>sf_open = False, sf_fd = 0\<rparr> sample_link sample_pcap sample_io ''wlan0'' = (0, state') \<and>
     io_wlan_fd state' = - 1"
proof -
  obtain err state' where r: "io_state_init_wlan \<lparr>sf_open = False, sf_fd = 0\<rparr> sample_link sample_pcap sample_io ''wlan0'' = (err, state')"
    by fastforce
  from io_state_init_wlan_result [OF _ _ _ _ _ r] r show ?thesis
    by (simp add: sample_link_def sample_pcap_def sample_io_def open_nonblocking_device_def)
qed

text \<open>Which resources an opening leaves behind: when \<^verbatim>\<open>open_nonblocking_device\<close> fails, its pcap
  handle stays open exactly when the failure is one of the last three steps (compiling or setting
  the filter, getting the descriptor), and when \<^verbatim>\<open>open_tun\<close> fails the auxiliary socket stays open
  exactly when one of the three requests on it failed; the tun device itself is always closed.\<close>

theorem open_leaks:
  "(fst (open_nonblocking_device pc) < 0 \<and> snd (snd (open_nonblocking_device pc)) \<longleftrightarrow>
      pc_create pc \<and> 0 \<le> pc_activate pc \<and> pc_setnonblock pc = 0 \<and> pc_is_radiotap pc \<and>
      (pc_compile pc = - 1 \<or> pc_setfilter pc = - 1 \<or> pc_fd pc < 0)) \<and>
   (fst (open_tun tun dev) < 0 \<longleftrightarrow>
      tun_open tun < 0 \<or> tun_setiff tun < 0 \<or> tun_fionbio tun < 0 \<or> tun_sethwaddr tun < 0 \<or> tun_setflags tun < 0 \<or> tun_setmtu tun < 0) \<and>
   (case open_tun tun dev of (fd, _, dev_open, socket_open) \<Rightarrow>
      (dev_open \<longleftrightarrow> 0 \<le> fd) \<and>
      (socket_open \<longleftrightarrow> 0 \<le> tun_open tun \<and> 0 \<le> tun_setiff tun \<and> 0 \<le> tun_fionbio tun \<and> fd < 0))"
  by (auto simp: open_nonblocking_device_def open_tun_def)

end
