(* ===== verification/Core.thy ===== *)
theory Core
  imports Rx_Safe Schedule Circular_Buffer Io
begin

text \<open>
  Model of \<^verbatim>\<open>src/daemon/core.c\<close>: the event handlers of the daemon. A handler takes the daemon's
  state and returns the new state with the list of its effects in the order in which it has
  them; \<^term>\<open>None\<close> is undefined behaviour. What a handler finds outside (the readings of the clock, what
  the devices deliver, the result of an injection) are its arguments. Descriptors of timers and watchers
  stand for the libev objects of \<^verbatim>\<open>struct ev_state\<close>.
\<close>

section \<open>State and effects\<close>

datatype timer = Mif_timer | Psf_timer | Tx_timer | Tx_mcast_timer | Chan_timer | Peer_timer

datatype watcher = Read_wlan | Read_host | Stats_signal

datatype effect =
  Wlan_frame "u8 list"
| Host_frame "u8 list"
| Timer_init timer rat rat
| Timer_stop timer
| Timer_set timer rat rat
| Timer_start timer
| Timer_again timer
| Watch watcher
| Feed_event watcher
| Is_channel_available int int
| Set_channel int int
| Neighbor_add int ether_addr
| Neighbor_remove int ether_addr
| Dump_frame "u8 list"

record daemon_state =
  ds_io :: io_state
  ds_awdl :: awdl_state
  ds_ieee80211 :: ieee80211_state
  ds_next :: "buf option"
  ds_queue :: "buf circular_buf"
  ds_dump :: bool

datatype TX_RESULT = TX_OK | TX_FAIL

primrec tx_code :: "TX_RESULT \<Rightarrow> int" where
  "tx_code TX_OK = 0"
| "tx_code TX_FAIL = - 1"

definition ETHER_LENGTH :: nat where
  "ETHER_LENGTH = 14"

definition ETHER_DST_OFFSET :: int where
  "ETHER_DST_OFFSET = 0"

definition ETHER_SRC_OFFSET :: int where
  "ETHER_SRC_OFFSET = 6"

definition ETHER_ETHERTYPE_OFFSET :: int where
  "ETHER_ETHERTYPE_OFFSET = 12"

definition POLL_NEW_UNICAST :: nat where
  "POLL_NEW_UNICAST = 1"

definition POLL_NEW_MULTICAST :: nat where
  "POLL_NEW_MULTICAST = 2"

definition MAX_NUM_AMPDU :: nat where
  "MAX_NUM_AMPDU = 16"

text \<open>The two buffers for a frame under construction have this size.\<close>

definition TX_BUFFER_SIZE :: nat where
  "TX_BUFFER_SIZE = 65535"

text \<open>What the daemon finds around it: the radiotap library and the result of an injection.\<close>

record core_env =
  ce_radiotap :: radiotap
  ce_inject :: "u8 list \<Rightarrow> int"

definition ev_timer_rearm :: "timer \<Rightarrow> rat \<Rightarrow> effect list" where
  "ev_timer_rearm timer delay = [Timer_stop timer, Timer_set timer delay 0, Timer_start timer]"

section \<open>Transmission of data\<close>

text \<open>A frame that does not fit the local buffer is written behind its end.\<close>

definition awdl_send_data ::
  "core_env \<Rightarrow> io_state \<Rightarrow> buf \<Rightarrow> awdl_state \<Rightarrow> ieee80211_state \<Rightarrow>
   (TX_RESULT \<times> awdl_state \<times> ieee80211_state \<times> effect list) option" where
  "awdl_send_data env io buf awdl_state ieee80211_state =
     (let wire_error = Some (TX_FAIL, awdl_state, ieee80211_state, []) in
      checked (read_be16 buf ETHER_ETHERTYPE_OFFSET) wire_error (\<lambda>ethertype.
      checked (read_ether_addr buf ETHER_DST_OFFSET) wire_error (\<lambda>dst.
      checked (read_ether_addr buf ETHER_SRC_OFFSET) wire_error (\<lambda>src.
      (let buf = strip_ignore buf (int ETHER_LENGTH) in
       case awdl_init_full_data_frame (ce_radiotap env) src dst (buf_bytes buf) awdl_state ieee80211_state of
         (awdl_data, awdl_state, ieee80211_state) \<Rightarrow>
           if length awdl_data > TX_BUFFER_SIZE then None
           else
             (let awdl_state = awdl_state\<lparr>st_stats := (st_stats awdl_state)\<lparr>stats_tx_data := stats_tx_data (st_stats awdl_state) + 1\<rparr>\<rparr> in
              case wlan_send (ce_inject env) io awdl_data of
                (err, sent) \<Rightarrow>
                  Some (if err < 0 then TX_FAIL else TX_OK, awdl_state, ieee80211_state, map Wlan_frame sent)))))))"

definition awdl_send_action ::
  "core_env \<Rightarrow> u64 \<Rightarrow> u64 \<Rightarrow> daemon_state \<Rightarrow> awdl_action_type \<Rightarrow> (daemon_state \<times> effect list) option" where
  "awdl_send_action env now1 now2 state type =
     (case awdl_init_full_action_frame (ce_radiotap env) now1 now2 (ds_awdl state) (ds_ieee80211 state) type of
        None \<Rightarrow> None
      | Some (buf, ieee80211_state) \<Rightarrow>
          if length buf > TX_BUFFER_SIZE then None
          else
            (let sent = snd (wlan_send (ce_inject env) (ds_io state) buf);
                 stats = st_stats (ds_awdl state) in
             Some (state\<lparr>ds_ieee80211 := ieee80211_state,
                         ds_awdl := (ds_awdl state)\<lparr>st_stats := stats\<lparr>stats_tx_action := stats_tx_action stats + 1\<rparr>\<rparr>\<rparr>,
                   map Wlan_frame sent)))"

definition awdl_send_psf :: "core_env \<Rightarrow> u64 \<Rightarrow> u64 \<Rightarrow> daemon_state \<Rightarrow> (daemon_state \<times> effect list) option" where
  "awdl_send_psf env now1 now2 state = awdl_send_action env now1 now2 state AWDL_ACTION_PSF"

definition awdl_send_mif :: "core_env \<Rightarrow> u64 \<Rightarrow> u64 \<Rightarrow> u64 \<Rightarrow> daemon_state \<Rightarrow> (daemon_state \<times> effect list) option" where
  "awdl_send_mif env now now1 now2 state =
     (let sync = st_sync (ds_awdl state);
          channel = st_channel (ds_awdl state);
          next_aw = awdl_sync_next_aw_us now sync;
          eaw_len = ucast (sy_presence_mode sync) * ucast (sy_aw_period sync) :: u64;
          rearm = ev_timer_rearm Mif_timer (usec_to_sec (next_aw + ieee80211_tu_to_usec (eaw_len div 2))) in
      if awdl_chan_num (ch_current channel) (ch_enc channel) > 0
      then map_option (\<lambda>(state, effects). (state, effects @ rearm)) (awdl_send_action env now1 now2 state AWDL_ACTION_MIF)
      else Some (state, rearm))"

text \<open>The end of both senders: retry later or ask for more frames. The log message of the retry
  converts the delay to microseconds, which is undefined for a negative one.\<close>

definition tx_rearm :: "bool \<Rightarrow> timer \<Rightarrow> rat \<Rightarrow> effect list option" where
  "tx_rearm pending timer delay =
     (if pending then (case sec_to_usec delay of None \<Rightarrow> None | Some _ \<Rightarrow> Some (ev_timer_rearm timer delay))
      else Some [Feed_event Read_host])"

definition awdl_send_unicast :: "core_env \<Rightarrow> (u8 list \<Rightarrow> int) \<Rightarrow> u64 \<Rightarrow> daemon_state \<Rightarrow> (daemon_state \<times> effect list) option" where
  "awdl_send_unicast env write now state =
     (case ds_next state of
        None \<Rightarrow> map_option (Pair state) (tx_rearm False Tx_timer 0)
      | Some buf \<Rightarrow>
          (case read_ether_addr buf ETHER_DST_OFFSET of
             Ret _ dst \<Rightarrow>
               if compare_ether_addr dst (st_self_address (ds_awdl state)) = 0
               then map_option (\<lambda>effects.
                      (state\<lparr>ds_next := None\<rparr>, map Host_frame (snd (host_send write (ds_io state) (buf_bytes buf))) @ effects))
                      (tx_rearm False Tx_timer 0)
               else
                 (case awdl_peer_get (peers_of (ds_awdl state)) dst of
                    (status, found) \<Rightarrow>
                      if peers_status_code status < 0
                      then map_option (Pair (state\<lparr>ds_next := None\<rparr>)) (tx_rearm False Tx_timer 0)
                      else
                        (case found of
                           None \<Rightarrow> None
                         | Some peer \<Rightarrow>
                             (let delay = awdl_can_send_unicast_in (ds_awdl state) peer now AWDL_UNICAST_GUARD_TU in
                              if delay = 0
                              then
                                (case awdl_send_data env (ds_io state) buf (ds_awdl state) (ds_ieee80211 state) of
                                   None \<Rightarrow> None
                                 | Some (_, awdl_state, ieee80211_state, sent) \<Rightarrow>
                                     (let stats = st_stats awdl_state in
                                      map_option (\<lambda>effects.
                                        (state\<lparr>ds_next := None, ds_ieee80211 := ieee80211_state,
                                           ds_awdl := awdl_state\<lparr>st_stats :=
                                             stats\<lparr>stats_tx_data_unicast := stats_tx_data_unicast stats + 1\<rparr>\<rparr>\<rparr>,
                                         sent @ effects)) (tx_rearm False Tx_timer delay)))
                              else
                                map_option (Pair state)
                                  (tx_rearm True Tx_timer
                                    (if delay < 0
                                     then - delay + usec_to_sec (ieee80211_tu_to_usec (word_of_int AWDL_UNICAST_GUARD_TU))
                                     else delay)))))
           | _ \<Rightarrow> None))"

definition awdl_send_multicast :: "core_env \<Rightarrow> u64 \<Rightarrow> daemon_state \<Rightarrow> (daemon_state \<times> effect list) option" where
  "awdl_send_multicast env now state =
     (if circular_buf_empty (ds_queue state)
      then map_option (Pair state) (tx_rearm False Tx_mcast_timer 0)
      else
        (let delay = awdl_can_send_in (ds_awdl state) now AWDL_MULTICAST_GUARD_TU in
         if awdl_is_multicast_eaw (ds_awdl state) now \<and> delay = 0
         then
           (case circular_buf_get (ds_queue state) False of
              (_, next_buf, queue) \<Rightarrow>
                (case next_buf of
                   None \<Rightarrow> None
                 | Some buf \<Rightarrow>
                     (case awdl_send_data env (ds_io state) buf (ds_awdl state) (ds_ieee80211 state) of
                        None \<Rightarrow> None
                      | Some (_, awdl_state, ieee80211_state, sent) \<Rightarrow>
                          (let stats = st_stats awdl_state in
                           map_option (\<lambda>effects.
                             (state\<lparr>ds_queue := queue, ds_ieee80211 := ieee80211_state,
                                ds_awdl := awdl_state\<lparr>st_stats :=
                                  stats\<lparr>stats_tx_data_multicast := stats_tx_data_multicast stats + 1\<rparr>\<rparr>\<rparr>,
                              sent @ effects)) (tx_rearm (\<not> circular_buf_empty queue) Tx_mcast_timer delay)))))
         else
           map_option (Pair state)
             (tx_rearm True Tx_mcast_timer
               (if delay = 0 then usec_to_sec (ieee80211_tu_to_usec 64)
                else if delay < 0
                then - delay + usec_to_sec (ieee80211_tu_to_usec (word_of_int AWDL_MULTICAST_GUARD_TU))
                else delay))))"

section \<open>Frames of the host\<close>

text \<open>The buffer after the bytes that were read, cut to their number.\<close>

definition host_fill :: "buf \<Rightarrow> u8 list \<Rightarrow> buf" where
  "host_fill buf bs =
     (let buf = buf\<lparr>b_orig := bs @ drop (length bs) (b_orig buf)\<rparr> in
      case buf_take buf (buf_len buf - int (length bs)) of Ret _ buf' \<Rightarrow> buf' | _ \<Rightarrow> buf)"

text \<open>One round of the loop of \<^verbatim>\<open>poll_host_device\<close> for each read; \<open>reads\<close> is what successive reads of
  the device return, an exhausted list is a device without data (EWOULDBLOCK, error number 11).\<close>

fun poll_host_device ::
  "(nat \<Rightarrow> u8) \<Rightarrow> (int + u8 list) list \<Rightarrow> daemon_state \<Rightarrow> nat \<Rightarrow> (nat \<times> daemon_state) option" where
  "poll_host_device junk reads state result =
     (if ds_next state = None \<and> \<not> circular_buf_is_full (ds_queue state)
      then
        (case buf_new_owned junk ETHER_MAX_LEN of
           None \<Rightarrow> None
         | Some buf \<Rightarrow>
             (case reads of
                [] \<Rightarrow> Some (result, state)
              | read # reads \<Rightarrow>
                  (case host_recv read (ds_io state) (nat (buf_len buf)) of
                     Inl _ \<Rightarrow> Some (result, state)
                   | Inr bs \<Rightarrow>
                       (let buf = host_fill buf bs in
                        checked (read_ether_addr buf ETHER_DST_OFFSET) (Some (result, state)) (\<lambda>dst.
                          if hd (ether_bytes dst) AND 1 \<noteq> 0
                          then poll_host_device junk reads (state\<lparr>ds_queue := circular_buf_put (ds_queue state) buf\<rparr>)
                                 (or result POLL_NEW_MULTICAST)
                          else poll_host_device junk reads (state\<lparr>ds_next := Some buf\<rparr>) (or result POLL_NEW_UNICAST))))))
      else Some (result, state))"

declare poll_host_device.simps [simp del]

text \<open>\<open>now1\<close> and \<open>now2\<close> are the clock readings of the two senders.\<close>

definition host_device_ready ::
  "core_env \<Rightarrow> (u8 list \<Rightarrow> int) \<Rightarrow> (nat \<Rightarrow> u8) \<Rightarrow> (int + u8 list) list \<Rightarrow> u64 \<Rightarrow> u64 \<Rightarrow> daemon_state \<Rightarrow>
   (daemon_state \<times> effect list) option" where
  "host_device_ready env write junk reads now1 now2 state =
     (case poll_host_device junk reads state 0 of
        None \<Rightarrow> None
      | Some (poll_result, state) \<Rightarrow>
          (case (if and poll_result POLL_NEW_MULTICAST \<noteq> 0 then awdl_send_multicast env now1 state else Some (state, [])) of
             None \<Rightarrow> None
           | Some (state, effects1) \<Rightarrow>
               (case (if and poll_result POLL_NEW_UNICAST \<noteq> 0 then awdl_send_unicast env write now2 state else Some (state, [])) of
                  None \<Rightarrow> None
                | Some (state, effects2) \<Rightarrow> Some (state, effects1 @ effects2))))"

section \<open>Frames of the WLAN\<close>

text \<open>The hooks the daemon installs. They ignore the results of the functions they call; the calls behind an effect are run in theory \<open>Run\<close>,
  where one that is undefined makes the step undefined.\<close>

definition awdl_neighbor_add :: "io_state \<Rightarrow> awdl_peer \<Rightarrow> effect" where
  "awdl_neighbor_add io p = Neighbor_add (io_host_ifindex io) (p_addr p)"

definition awdl_neighbor_remove :: "io_state \<Rightarrow> awdl_peer \<Rightarrow> effect" where
  "awdl_neighbor_remove io p = Neighbor_remove (io_host_ifindex io) (p_addr p)"

fun rx_effects :: "io_state \<Rightarrow> rx_event list \<Rightarrow> effect list" where
  "rx_effects io [] = []"
| "rx_effects io (Peer_cb p # events) = awdl_neighbor_add io p # rx_effects io events"
| "rx_effects io (Tlv_cb p t v # events) = rx_effects io events"

text \<open>That a frame is dumped; whether the calls of \<^verbatim>\<open>dump_frame\<close> are defined is decided in theory \<open>Run\<close>.\<close>

definition dump_frame :: "bool \<Rightarrow> u8 list \<Rightarrow> effect list" where
  "dump_frame dump_file buf = (if dump_file then [Dump_frame buf] else [])"

definition awdl_receive_frame ::
  "core_env \<Rightarrow> rx_env \<Rightarrow> (u8 list \<Rightarrow> int) \<Rightarrow> u64 \<Rightarrow> u8 list \<Rightarrow> daemon_state \<Rightarrow> (daemon_state \<times> effect list) option" where
  "awdl_receive_frame env rx write now packet state =
     (case buf_new_const packet (int (length packet)) of
        None \<Rightarrow> None
      | Some frame \<Rightarrow>
          (case awdl_rx (ce_radiotap env) rx MAX_NUM_AMPDU now frame (ds_awdl state) of
             None \<Rightarrow> None
           | Some (result, data, awdl_state, events) \<Rightarrow>
               (let effects = rx_effects (ds_io state) events; state = state\<lparr>ds_awdl := awdl_state\<rparr> in
                if result = RX_OK
                then Some (state, effects @ concat (map (\<lambda>b. map Host_frame (snd (host_send write (ds_io state) (buf_bytes b)))) data))
                else if rx_code result < rx_code RX_OK
                then (let stats = st_stats awdl_state in
                      Some (state\<lparr>ds_awdl := awdl_state\<lparr>st_stats := stats\<lparr>stats_rx_unknown := stats_rx_unknown stats + 1\<rparr>\<rparr>\<rparr>,
                            effects @ dump_frame (ds_dump state) packet))
                else Some (state, effects))))"

text \<open>\<open>packet\<close> is what the library dispatches, if anything.\<close>

definition wlan_device_ready ::
  "core_env \<Rightarrow> rx_env \<Rightarrow> (u8 list \<Rightarrow> int) \<Rightarrow> u64 \<Rightarrow> u8 list option \<Rightarrow> daemon_state \<Rightarrow> (daemon_state \<times> effect list) option" where
  "wlan_device_ready env rx write now packet state =
     (case packet of
        None \<Rightarrow> Some (state, [])
      | Some bytes \<Rightarrow>
          map_option (\<lambda>(state, effects). (state, effects @ [Feed_event Read_wlan])) (awdl_receive_frame env rx write now bytes state))"

section \<open>Timers\<close>

text \<open>The results of \<^verbatim>\<open>is_channel_available\<close> and \<^verbatim>\<open>set_channel\<close> are ignored; the calls are run in theory \<open>Run\<close>.\<close>

definition awdl_switch_channel :: "u64 \<Rightarrow> daemon_state \<Rightarrow> daemon_state \<times> effect list" where
  "awdl_switch_channel now state =
     (let awdl_state = ds_awdl state;
          channel = st_channel awdl_state;
          chan_num_old = awdl_chan_num (ch_current channel) (ch_enc channel);
          slot = unat (awdl_sync_current_eaw now (st_sync awdl_state)) mod AWDL_CHANSEQ_LENGTH;
          chan_new = ch_sequence channel ! slot;
          chan_num_new = awdl_chan_num (ch_sequence channel ! slot) (ch_enc channel);
          next_aw = awdl_sync_next_aw_us now (st_sync awdl_state);
          rearm = ev_timer_rearm Chan_timer (usec_to_sec next_aw) in
      if chan_num_new \<noteq> 0 \<and> chan_num_new \<noteq> chan_num_old
      then (state\<lparr>ds_awdl := awdl_state\<lparr>st_channel := channel\<lparr>ch_current := chan_new\<rparr>\<rparr>\<rparr>,
            (if \<not> io_wlan_is_file (ds_io state)
             then [Is_channel_available (io_wlan_ifindex (ds_io state)) (uint chan_num_new),
                   Set_channel (io_wlan_ifindex (ds_io state)) (uint chan_num_new)]
             else []) @ rearm)
      else (state, rearm))"

definition awdl_clean_peers :: "u64 \<Rightarrow> daemon_state \<Rightarrow> daemon_state \<times> effect list" where
  "awdl_clean_peers now state =
     (let awdl_state = ds_awdl state;
          cutoff_time = now - ps_timeout (st_peers awdl_state) in
      case awdl_peers_remove (peers_of awdl_state) cutoff_time (st_peer_remove_cb awdl_state) of
        (peers, called) \<Rightarrow>
          (let awdl_state = set_peers awdl_state peers;
               election = awdl_election_run (st_election awdl_state) (peers_of awdl_state) in
           (state\<lparr>ds_awdl := awdl_state\<lparr>st_election := election\<rparr>\<rparr>,
            map (awdl_neighbor_remove (ds_io state)) called @ [Timer_again Peer_timer])))"

section \<open>Start\<close>

text \<open>What the start of the daemon finds: the results of \<^verbatim>\<open>netutils_init\<close>, of the calls of \<^verbatim>\<open>io_state_init\<close> and of
  \<^verbatim>\<open>get_hostname\<close>, and the memory it does not initialise.\<close>

record init_env =
  ie_netutils :: int
  ie_savefile :: savefile_calls
  ie_link :: link_calls
  ie_pcap :: pcap_calls
  ie_tun :: tun_calls
  ie_gethostname :: int
  ie_hostname :: "u8 list"
  ie_mem :: "nat \<Rightarrow> bool"
  ie_junk :: awdl_state
  ie_queue_junk :: "nat \<Rightarrow> buf"

definition awdl_init ::
  "init_env \<Rightarrow> io_state \<Rightarrow> string \<Rightarrow> string \<Rightarrow> awdl_chan \<Rightarrow> bool \<Rightarrow> u64 \<Rightarrow> (int \<times> daemon_state option) option" where
  "awdl_init env io wlan host chan dump now =
     (if ie_netutils env < 0 then Some (ie_netutils env, None)
      else
        (case io_state_init (ie_savefile env) (ie_link env) (ie_pcap env) (ie_tun env) io wlan host of
           (err, io) \<Rightarrow>
             if err < 0 then Some (err, None)
             else if ie_gethostname env < 0 then Some (ie_gethostname env, None)
             else
               (case awdl_init_state (ie_mem env) (ie_junk env) (ie_hostname env) (io_if_ether_addr io) chan now of
                  None \<Rightarrow> None
                | Some awdl_state \<Rightarrow>
                    (case circular_buf_init (ie_queue_junk env) 16 of
                       None \<Rightarrow> None
                     | Some queue \<Rightarrow>
                         Some (0, Some
                           \<lparr>ds_io = io,
                            ds_awdl = awdl_state\<lparr>st_peer_cb := True, st_peer_remove_cb := True\<rparr>,
                            ds_ieee80211 = ieee80211_init_state,
                            ds_next = None,
                            ds_queue = queue,
                            ds_dump = dump\<rparr>)))))"

definition awdl_schedule :: "daemon_state \<Rightarrow> effect list" where
  "awdl_schedule state =
     (let psf = usec_to_sec (ieee80211_tu_to_usec (ucast (st_psf_interval (ds_awdl state)))) in
      [Timer_init Chan_timer 0 0, Timer_start Chan_timer,
       Timer_init Peer_timer 0 (usec_to_sec (ps_clean_interval (st_peers (ds_awdl state)))),
       Timer_again Peer_timer,
       Watch Read_wlan,
       Watch Read_host,
       Timer_init Psf_timer psf psf, Timer_start Psf_timer,
       Timer_init Mif_timer 0 0, Timer_start Mif_timer,
       Timer_init Tx_timer 0 0, Timer_start Tx_timer,
       Timer_init Tx_mcast_timer 0 0, Timer_start Tx_mcast_timer,
       Watch Stats_signal])"

end
