(* ===== verification/Daemon.thy ===== *)
theory Daemon
  imports Core
begin

text \<open>
  The daemon of \<^verbatim>\<open>src/daemon/core.c\<close> as a state machine: the invariant of its state, that every
  handler is defined on states with the invariant, except for a packet with more frames for the host than fit the array of the
  handler, and keeps it, the step relation of the event loop and its reachable states.
\<close>

section \<open>The invariant\<close>

text \<open>A frame of the host that waits for transmission.\<close>

definition frame_ok :: "buf \<Rightarrow> bool" where
  "frame_ok b \<longleftrightarrow> buf_wf b \<and> 6 \<le> length (buf_bytes b) \<and> length (buf_bytes b) \<le> 1518"

definition daemon_ok :: "nat \<Rightarrow> daemon_state \<Rightarrow> bool" where
  "daemon_ok L d \<longleftrightarrow> state_ok L (ds_awdl d) \<and> 0 \<in> set (st_name (ds_awdl d)) \<and>
     cb_inv (ds_queue d) \<and> cb_max (ds_queue d) = 16 \<and> (\<forall>b\<in>set (cb_items (ds_queue d)). frame_ok b) \<and>
     (case ds_next d of None \<Rightarrow> True | Some b \<Rightarrow> frame_ok b)"

text \<open>What no handler changes: the devices and the node's own channel sequence.\<close>

definition same_plan :: "daemon_state \<Rightarrow> daemon_state \<Rightarrow> bool" where
  "same_plan d d' \<longleftrightarrow> ds_io d' = ds_io d \<and> ch_sequence (st_channel (ds_awdl d')) = ch_sequence (st_channel (ds_awdl d)) \<and>
     ch_enc (st_channel (ds_awdl d')) = ch_enc (st_channel (ds_awdl d))"

lemma same_plan_simps [simp]:
  "same_plan d d" "same_plan d (d\<lparr>ds_next := b\<rparr>)"
  "same_plan (d\<lparr>ds_next := b\<rparr>) d' = same_plan d d'" "same_plan (d\<lparr>ds_queue := q\<rparr>) d' = same_plan d d'"
  by (simp_all add: same_plan_def)

lemma same_plan_trans: "same_plan a b \<Longrightarrow> same_plan b c \<Longrightarrow> same_plan a c"
  by (simp add: same_plan_def)

text \<open>A handler that is defined, keeps the invariant, the devices and the channel sequence.\<close>

definition step_ok :: "nat \<Rightarrow> daemon_state \<Rightarrow> (daemon_state \<times> effect list) option \<Rightarrow> bool" where
  "step_ok L d r \<longleftrightarrow> (\<exists>d' effects. r = Some (d', effects) \<and> daemon_ok L d' \<and> same_plan d d')"

lemma daemon_ok_awdl:
  assumes "daemon_ok L d" and "state_ok L s" and "st_name s = st_name (ds_awdl d)"
  shows "daemon_ok L (d\<lparr>ds_awdl := s\<rparr>)" "daemon_ok L (d\<lparr>ds_ieee80211 := ie, ds_awdl := s\<rparr>)"
  using assms by (simp_all add: daemon_ok_def)

lemma daemon_ok_next: "daemon_ok L d \<Longrightarrow> daemon_ok L (d\<lparr>ds_next := None\<rparr>)"
  by (simp add: daemon_ok_def)

lemma state_ok_stats [simp]: "state_ok L (s\<lparr>st_stats := x\<rparr>) = state_ok L s"
  by (simp add: state_ok_def)

section \<open>Sending data\<close>

lemma checked_Some:
  assumes "checked r err k = Some x"
  obtains "err = Some x" | v where "k v = Some x"
  using assms by (auto simp: checked_def split: wire_result.splits if_splits)

lemma full_data_frame:
  assumes "radiotap_header_ok rt" and "awdl_init_full_data_frame rt src dst payload s ie = (frame, s', ie')"
  shows "length frame \<le> length payload + 53" and "s' = s\<lparr>st_sequence_number := st_sequence_number s + 1\<rparr>"
proof -
  have "length (fst (ieee80211_init_awdl_data_hdr src dst ie)) = 24"
    by (simp add: ieee80211_init_awdl_data_hdr_def ieee80211_init_awdl_hdr_def split: prod.split)
  then show "length frame \<le> length payload + 53" "s' = s\<lparr>st_sequence_number := st_sequence_number s + 1\<rparr>"
    using assms(2) length_radiotap [OF assms(1)]
    by (auto simp: awdl_init_full_data_frame_def Let_def awdl_init_data_def awdl_state_next_sequence_number_def
        ieee80211_add_fcs_def split: prod.splits)
qed

lemma send_data_total:
  assumes "radiotap_header_ok (ce_radiotap env)" and "frame_ok b" and "state_ok L s"
  shows "\<exists>result s' ie' effects. awdl_send_data env io b s ie = Some (result, s', ie', effects) \<and> state_ok L s' \<and>
    st_name s' = st_name s \<and> peers_of s' = peers_of s \<and> st_channel s' = st_channel s"
proof (cases "14 \<le> length (buf_bytes b)")
  case False
  then show ?thesis
    using assms(2,3)
    by (simp add: awdl_send_data_def checked_fields frame_ok_def ETHER_ETHERTYPE_OFFSET_def INT_MAX_def Let_def)
next
  case True
  let ?src = "ether_of_bytes (take 6 (drop 6 (buf_bytes b)))" and ?dst = "ether_of_bytes (take 6 (buf_bytes b))"
  have wf: "buf_wf b" "length (buf_bytes b) \<le> 1518" using assms(2) by (simp_all add: frame_ok_def)
  have strip: "buf_bytes (strip_ignore b 14) = drop 14 (buf_bytes b)" using strip_ignore_spec(2) [OF wf(1) True] by simp
  obtain frame s' ie' where f: "awdl_init_full_data_frame (ce_radiotap env) ?src ?dst (drop 14 (buf_bytes b)) s ie = (frame, s', ie')"
    using prod_cases3 by blast
  note full = full_data_frame [OF assms(1) f]
  obtain err sent where w: "wlan_send (ce_inject env) io frame = (err, sent)" by fastforce
  have "length frame \<le> 65535" using full(1) wf(2) by simp
  moreover have "state_ok L s'" "st_name s' = st_name s" "peers_of s' = peers_of s" "st_channel s' = st_channel s"
    using assms(3) by (simp_all add: full(2) state_ok_def peers_of_def)
  ultimately show ?thesis
    using True wf(1) strip f w
    by (simp add: awdl_send_data_def checked_fields ETHER_ETHERTYPE_OFFSET_def ETHER_DST_OFFSET_def ETHER_SRC_OFFSET_def
        ETHER_LENGTH_def INT_MAX_def Let_def TX_BUFFER_SIZE_def peers_of_def)
qed

section \<open>Delays\<close>

lemma sec_to_usec_defined: "0 \<le> q \<Longrightarrow> q \<le> 1 \<Longrightarrow> \<exists>u. sec_to_usec q = Some u"
  by (auto simp: sec_to_usec_def)

lemma usec_to_sec_le: "unat u \<le> n \<Longrightarrow> usec_to_sec u \<le> of_nat n / 1000000"
  by (simp add: usec_to_sec_def divide_right_mono del: of_nat_unat)

lemma tx_rearm_total: "0 \<le> delay \<Longrightarrow> delay \<le> 1 \<Longrightarrow> \<exists>effects. tx_rearm pending timer delay = Some effects"
  using sec_to_usec_defined [of delay] by (auto simp: tx_rearm_def)

lemma small_delay:
  fixes a b :: u64
  assumes "b < a" and "unat a \<le> 32768"
  shows "usec_to_sec (a - b) \<le> 32768 / 1000000"
proof -
  have "unat (a - b) \<le> 32768" using assms by (simp add: unat_sub word_le_nat_alt word_less_nat_alt)
  from usec_to_sec_le [OF this] show ?thesis by simp
qed

text \<open>The delay a sender computes and the one it uses for its timer.\<close>

definition retry_delay :: "rat \<Rightarrow> int \<Rightarrow> rat" where
  "retry_delay delay guard =
     (if delay < 0 then - delay + usec_to_sec (ieee80211_tu_to_usec (word_of_int guard)) else delay)"

lemma retry_delay_range:
  assumes "0 \<le> guard" and "guard \<le> 32" and "- 32768 / 1000000 \<le> delay" and "delay \<le> 1"
  shows "0 \<le> retry_delay delay guard" and "retry_delay delay guard \<le> 1"
proof -
  have "unat (ieee80211_tu_to_usec (word_of_int guard)) \<le> 32768" using guard_usec [OF assms(1,2)] assms(1,2) by simp
  from usec_to_sec_le [OF this] have "usec_to_sec (ieee80211_tu_to_usec (word_of_int guard)) \<le> 32768 / 1000000" by simp
  then show "0 \<le> retry_delay delay guard" "retry_delay delay guard \<le> 1"
    using assms(3,4) usec_to_sec_pos(3) [of "ieee80211_tu_to_usec (word_of_int guard)"] by (auto simp: retry_delay_def)
qed

lemma delay_ranges:
  assumes "sync_ok (st_sync state)" and "0 \<le> guard" and "guard \<le> 32"
  shows "- 32768 / 1000000 \<le> awdl_can_send_in state now guard" "awdl_can_send_in state now guard \<le> 1"
    and "- 32768 / 1000000 \<le> awdl_can_send_unicast_in state peer now guard" "awdl_can_send_unicast_in state peer now guard \<le> 1"
proof -
  let ?g = "ieee80211_tu_to_usec (word_of_int guard)" and ?n = "awdl_sync_next_aw_us now (st_sync state)"
  have g: "unat ?g \<le> 32768" using guard_usec [OF assms(2,3)] assms(2,3) by simp
  have "unat ?n \<le> 65536" using next_aw_offset [OF assms(1)] by simp
  from usec_to_sec_le [OF this] have n: "usec_to_sec ?n \<le> 1" by simp
  have "usec_to_sec (?g - ?n) \<le> 32768 / 1000000" if "?n < ?g" by (rule small_delay [OF that g])
  moreover have "usec_to_sec (?g - (ieee80211_tu_to_usec 64 - ?n)) \<le> 32768 / 1000000" if "ieee80211_tu_to_usec 64 - ?n < ?g"
    by (rule small_delay [OF that g])
  moreover note n usec_to_sec_pos(3) [of "?g - ?n"] usec_to_sec_pos(3) [of "?g - (ieee80211_tu_to_usec 64 - ?n)"] usec_to_sec_pos(3) [of ?n]
  ultimately show "- 32768 / 1000000 \<le> awdl_can_send_in state now guard" "awdl_can_send_in state now guard \<le> 1"
    "- 32768 / 1000000 \<le> awdl_can_send_unicast_in state peer now guard" "awdl_can_send_unicast_in state peer now guard \<le> 1"
    by (auto simp: awdl_can_send_in_def awdl_can_send_unicast_in_def Let_def)
qed

section \<open>The senders\<close>

lemma send_action_ok:
  assumes "radiotap_header_ok (ce_radiotap env)" and "daemon_ok L d"
  shows "step_ok L d (awdl_send_action env now1 now2 d type)"
proof -
  have name: "length (st_name (ds_awdl d)) = HOST_NAME_LENGTH_MAX + 1" "0 \<in> set (st_name (ds_awdl d))" and st: "state_ok L (ds_awdl d)"
    using assms(2) by (simp_all add: daemon_ok_def state_ok_def)
  have "\<exists>r. awdl_init_full_action_frame (ce_radiotap env) now1 now2 (ds_awdl d) (ds_ieee80211 d) type = Some r"
    using name(2)
    by (cases "ieee80211_init_awdl_action_hdr (st_self_address (ds_awdl d)) (st_dst (ds_awdl d)) (ds_ieee80211 d)")
      (simp add: awdl_init_full_action_frame_def awdl_init_arpa_tlv_def awdl_arpa_tlv_bytes_def Let_def)
  then obtain frame ie where f: "awdl_init_full_action_frame (ce_radiotap env) now1 now2 (ds_awdl d) (ds_ieee80211 d) type = Some (frame, ie)"
    by fastforce
  have "length frame \<le> TX_BUFFER_SIZE" using action_frame_bounds [OF assms(1) name(1) f] by (simp add: TX_BUFFER_SIZE_def)
  with f show ?thesis
    using daemon_ok_awdl(2) [OF assms(2)] st by (simp add: awdl_send_action_def Let_def step_ok_def same_plan_def)
qed

lemma send_mif_ok:
  assumes "radiotap_header_ok (ce_radiotap env)" and "daemon_ok L d"
  shows "step_ok L d (awdl_send_mif env now now1 now2 d)"
  using send_action_ok [OF assms, of now1 now2 AWDL_ACTION_MIF] assms(2)
  by (auto simp: step_ok_def awdl_send_mif_def Let_def)

lemma host_destination:
  assumes "frame_ok b"
  shows "read_ether_addr b ETHER_DST_OFFSET = Ret 6 (ether_of_bytes (take 6 (buf_bytes b)))"
  using assms by (simp add: frame_ok_def ETHER_DST_OFFSET_def field_ether.read_wf INT_MAX_def)

lemma send_unicast_ok:
  assumes "radiotap_header_ok (ce_radiotap env)" and "daemon_ok L d"
  shows "step_ok L d (awdl_send_unicast env hwrite now d)"
proof (cases "ds_next d")
  case None
  then show ?thesis using assms(2) by (simp add: awdl_send_unicast_def tx_rearm_def step_ok_def)
next
  case (Some b)
  have b: "frame_ok b" and st: "state_ok L (ds_awdl d)" using assms(2) Some by (simp_all add: daemon_ok_def)
  have sync: "sync_ok (st_sync (ds_awdl d))" using st by (simp add: state_ok_def)
  let ?dst = "ether_of_bytes (take 6 (buf_bytes b))"
  note simps = awdl_send_unicast_def Some host_destination [OF b] tx_rearm_def step_ok_def
    awdl_peer_get_lookup [OF state_ok_peers [OF st]]
  show ?thesis
  proof (cases "compare_ether_addr ?dst (st_self_address (ds_awdl d)) = 0 \<or> peer_lookup (peers_of (ds_awdl d)) ?dst = None")
    case True
    then show ?thesis using daemon_ok_next [OF assms(2)] by (auto simp: simps)
  next
    case False
    then obtain peer where peer: "peer_lookup (peers_of (ds_awdl d)) ?dst = Some peer" by auto
    let ?delay = "awdl_can_send_unicast_in (ds_awdl d) peer now AWDL_UNICAST_GUARD_TU"
    show ?thesis
    proof (cases "?delay = 0")
      case True
      obtain result s ie effects where "awdl_send_data env (ds_io d) b (ds_awdl d) (ds_ieee80211 d) = Some (result, s, ie, effects)"
        "state_ok L s" "st_name s = st_name (ds_awdl d)" "st_channel s = st_channel (ds_awdl d)"
        using send_data_total [OF assms(1) b st] by blast
      with True False peer assms(2) show ?thesis by (simp add: simps Let_def daemon_ok_def same_plan_def)
    next
      case later: False
      have range: "0 \<le> retry_delay ?delay AWDL_UNICAST_GUARD_TU" "retry_delay ?delay AWDL_UNICAST_GUARD_TU \<le> 1"
        using delay_ranges(3,4) [OF sync, where guard = AWDL_UNICAST_GUARD_TU and now = now and peer = peer]
          retry_delay_range [of AWDL_UNICAST_GUARD_TU ?delay] by (simp_all add: AWDL_UNICAST_GUARD_TU_def)
      obtain u where "sec_to_usec (retry_delay ?delay AWDL_UNICAST_GUARD_TU) = Some u" using sec_to_usec_defined [OF range] by blast
      with later False peer assms(2) show ?thesis by (simp add: simps Let_def retry_delay_def)
    qed
  qed
qed

lemma send_multicast_ok:
  assumes "radiotap_header_ok (ce_radiotap env)" and "daemon_ok L d"
  shows "step_ok L d (awdl_send_multicast env now d)"
proof (cases "circular_buf_empty (ds_queue d)")
  case True
  then show ?thesis using assms(2) by (simp add: awdl_send_multicast_def tx_rearm_def step_ok_def)
next
  case False
  have st: "state_ok L (ds_awdl d)" and inv: "cb_inv (ds_queue d)" using assms(2) by (simp_all add: daemon_ok_def)
  have sync: "sync_ok (st_sync (ds_awdl d))" using st by (simp add: state_ok_def)
  let ?q = "retreat_pointer (ds_queue d)" and ?b = "cb_buffer (ds_queue d) ! cb_tail (ds_queue d)"
  have items: "cb_items (ds_queue d) = ?b # cb_items ?q" by (rule cb_items_retreat [OF inv False])
  have get: "circular_buf_get (ds_queue d) False = (0, Some ?b, ?q)" using False by (simp add: circular_buf_get_def)
  have b: "frame_ok ?b" and q: "\<forall>x\<in>set (cb_items ?q). frame_ok x" using assms(2) by (simp_all add: daemon_ok_def items)
  let ?delay = "awdl_can_send_in (ds_awdl d) now AWDL_MULTICAST_GUARD_TU"
  show ?thesis
  proof (cases "awdl_is_multicast_eaw (ds_awdl d) now \<and> ?delay = 0")
    case True
    obtain result s ie effects where "awdl_send_data env (ds_io d) ?b (ds_awdl d) (ds_ieee80211 d) = Some (result, s, ie, effects)"
      "state_ok L s" "st_name s = st_name (ds_awdl d)" "st_channel s = st_channel (ds_awdl d)"
      using send_data_total [OF assms(1) b st] by blast
    moreover obtain u where "sec_to_usec 0 = Some u" using sec_to_usec_defined [of 0] by auto
    ultimately show ?thesis
      using True False get q cb_inv_retreat [OF inv] assms(2)
      by (simp add: awdl_send_multicast_def step_ok_def tx_rearm_def Let_def daemon_ok_def same_plan_def)
  next
    case later: False
    let ?retry = "if ?delay = 0 then usec_to_sec (ieee80211_tu_to_usec 64) else retry_delay ?delay AWDL_MULTICAST_GUARD_TU"
    have range: "0 \<le> retry_delay ?delay AWDL_MULTICAST_GUARD_TU" "retry_delay ?delay AWDL_MULTICAST_GUARD_TU \<le> 1"
      using delay_ranges(1,2) [OF sync, where guard = AWDL_MULTICAST_GUARD_TU and now = now]
        retry_delay_range [of AWDL_MULTICAST_GUARD_TU ?delay] by (simp_all add: AWDL_MULTICAST_GUARD_TU_def)
    have "usec_to_sec (ieee80211_tu_to_usec 64) \<le> 1" by (simp add: usec_to_sec_def ieee80211_tu_to_usec_def)
    then have "0 \<le> ?retry" "?retry \<le> 1" using range usec_to_sec_pos(3) by simp_all
    then obtain u where "sec_to_usec ?retry = Some u" using sec_to_usec_defined by blast
    with later False assms(2) show ?thesis
      by (auto simp: awdl_send_multicast_def step_ok_def tx_rearm_def Let_def retry_delay_def split: if_splits)
  qed
qed

section \<open>Frames of the host\<close>

text \<open>The buffer after one read, and whether the frame in it goes to a group address.\<close>

definition host_buf :: "(nat \<Rightarrow> u8) \<Rightarrow> u8 list \<Rightarrow> buf" where
  "host_buf junk bs = host_fill \<lparr>b_orig = map junk [0..<1518], b_data = 0, b_len = 1518, b_owned = True\<rparr> (take 1518 bs)"

definition to_group :: "u8 list \<Rightarrow> bool" where
  "to_group bs \<longleftrightarrow> hd bs AND 1 \<noteq> 0"

lemma host_fill_bytes:
  assumes "length bs \<le> 1518"
  shows "buf_wf (host_fill \<lparr>b_orig = map junk [0..<1518], b_data = 0, b_len = 1518, b_owned = True\<rparr> bs)"
    and "buf_bytes (host_fill \<lparr>b_orig = map junk [0..<1518], b_data = 0, b_len = 1518, b_owned = True\<rparr> bs) = bs"
  using assms by (simp_all add: host_fill_def buf_take_def buf_len_def buf_wf_def buf_bytes_def INT_MAX_def)

lemma host_buf_bytes: "buf_wf (host_buf junk bs)" "buf_bytes (host_buf junk bs) = take 1518 bs"
  using host_fill_bytes [of "take 1518 bs" junk] by (simp_all add: host_buf_def)

lemma host_buf_ok: "6 \<le> length bs \<Longrightarrow> frame_ok (host_buf junk bs)"
  by (simp add: frame_ok_def host_buf_bytes)

lemma poll_Nil: "poll_host_device junk [] d result = Some (result, d)"
  by (simp add: poll_host_device.simps buf_new_owned_def ETHER_MAX_LEN_def)

lemma hd_ether_take: "6 \<le> length bs \<Longrightarrow> hd (ether_bytes (ether_of_bytes (take 6 bs))) = hd bs"
  by (cases bs) (simp_all add: ether_of_bytes_def)

lemma poll_Cons:
  "poll_host_device junk (r # rs) d result =
     (if ds_next d = None \<and> \<not> circular_buf_is_full (ds_queue d)
      then (case r of
              Inl _ \<Rightarrow> Some (result, d)
            | Inr bs \<Rightarrow>
                if io_host_fd (ds_io d) = 0 \<or> length bs < 6 then Some (result, d)
                else if to_group bs
                then poll_host_device junk rs (d\<lparr>ds_queue := circular_buf_put (ds_queue d) (host_buf junk bs)\<rparr>) (or result POLL_NEW_MULTICAST)
                else poll_host_device junk rs (d\<lparr>ds_next := Some (host_buf junk bs)\<rparr>) (or result POLL_NEW_UNICAST))
      else Some (result, d))"
proof (cases r)
  case (Inl e)
  then show ?thesis by (simp add: poll_host_device.simps [of junk "Inl e # rs"] buf_new_owned_def ETHER_MAX_LEN_def host_recv_def)
next
  case (Inr bs)
  have dst: "checked (read_ether_addr (host_buf junk bs) 0) err k = (if length bs < 6 then err else k (ether_of_bytes (take 6 bs)))"
    for err :: "(nat \<times> daemon_state) option" and k
    using host_buf_bytes [of junk bs] by (simp add: checked_fields INT_MAX_def not_le)
  let ?mcast = "poll_host_device junk rs (d\<lparr>ds_queue := circular_buf_put (ds_queue d) (host_buf junk bs)\<rparr>) (or result POLL_NEW_MULTICAST)"
    and ?ucast = "poll_host_device junk rs (d\<lparr>ds_next := Some (host_buf junk bs)\<rparr>) (or result POLL_NEW_UNICAST)"
  have "poll_host_device junk (Inr bs # rs) d result =
     (if ds_next d = None \<and> \<not> circular_buf_is_full (ds_queue d)
      then if io_host_fd (ds_io d) = 0 then Some (result, d)
           else checked (read_ether_addr (host_buf junk bs) 0) (Some (result, d)) (\<lambda>dst.
             if hd (ether_bytes dst) AND 1 \<noteq> 0 then ?mcast else ?ucast)
      else Some (result, d))"
    unfolding host_buf_def
    by (simp add: poll_host_device.simps [of junk "Inr bs # rs"] buf_new_owned_def ETHER_MAX_LEN_def host_recv_def Let_def buf_len_def
        ETHER_DST_OFFSET_def del: upt_rec_numeral)
  then show ?thesis using dst hd_ether_take [of bs] by (simp add: Inr to_group_def)
qed

lemma poll_ok:
  assumes "daemon_ok L d"
  shows "\<exists>result' d'. poll_host_device junk reads d result = Some (result', d') \<and> daemon_ok L d' \<and> same_plan d d'"
  using assms
proof (induction reads arbitrary: d result)
  case Nil
  then show ?case by (simp add: poll_Nil)
next
  case (Cons r rs)
  have put: "daemon_ok L (d\<lparr>ds_queue := circular_buf_put (ds_queue d) (host_buf junk bs)\<rparr>)"
    if "6 \<le> length bs" "\<not> circular_buf_is_full (ds_queue d)" for bs
    using Cons.prems that host_buf_ok [OF that(1), of junk] cb_inv_put [of "ds_queue d"] cb_items_put [of "ds_queue d"]
    by (simp add: daemon_ok_def circular_buf_is_full_def)
  have nxt: "daemon_ok L (d\<lparr>ds_next := Some (host_buf junk bs)\<rparr>)" if "6 \<le> length bs" for bs
    using Cons.prems host_buf_ok [OF that, of junk] by (simp add: daemon_ok_def)
  show ?case
  proof (cases r)
    case (Inl e)
    then show ?thesis using Cons.prems by (simp add: poll_Cons)
  next
    case (Inr bs)
    then show ?thesis
      using Cons.prems Cons.IH [OF put [of bs], of "or result POLL_NEW_MULTICAST"] Cons.IH [OF nxt [of bs], of "or result POLL_NEW_UNICAST"]
      by (auto simp: poll_Cons not_less)
  qed
qed

lemma host_ready_ok:
  assumes "radiotap_header_ok (ce_radiotap env)" and "daemon_ok L d"
  shows "step_ok L d (host_device_ready env hwrite junk reads now1 now2 d)"
proof -
  obtain r d1 where p: "poll_host_device junk reads d 0 = Some (r, d1)" "daemon_ok L d1" "same_plan d d1"
    using poll_ok [OF assms(2)] by blast
  have "step_ok L d1 (if and r POLL_NEW_MULTICAST \<noteq> 0 then awdl_send_multicast env now1 d1 else Some (d1, []))"
    using send_multicast_ok [OF assms(1) p(2), of now1] p(2) by (simp add: step_ok_def)
  then obtain d2 e2 where m: "(if and r POLL_NEW_MULTICAST \<noteq> 0 then awdl_send_multicast env now1 d1 else Some (d1, [])) = Some (d2, e2)"
    "daemon_ok L d2" "same_plan d1 d2"
    unfolding step_ok_def by blast
  have "step_ok L d2 (if and r POLL_NEW_UNICAST \<noteq> 0 then awdl_send_unicast env hwrite now2 d2 else Some (d2, []))"
    using send_unicast_ok [OF assms(1) m(2), of hwrite now2] m(2) by (simp add: step_ok_def)
  then obtain d3 e3 where "(if and r POLL_NEW_UNICAST \<noteq> 0 then awdl_send_unicast env hwrite now2 d2 else Some (d2, [])) = Some (d3, e3)"
    "daemon_ok L d3" "same_plan d2 d3"
    unfolding step_ok_def by blast
  with p m show ?thesis by (auto simp: host_device_ready_def step_ok_def intro: same_plan_trans)
qed

section \<open>Frames of the WLAN and timers\<close>

text \<open>The number of frames for the host in a packet; the array of \<^verbatim>\<open>awdl_receive_frame\<close> has room for sixteen.\<close>

definition packet_frames :: "core_env \<Rightarrow> rx_env \<Rightarrow> u64 \<Rightarrow> u8 list \<Rightarrow> daemon_state \<Rightarrow> nat" where
  "packet_frames env rx now packet d =
     (case buf_new_const packet (int (length packet)) of
        None \<Rightarrow> 0
      | Some frame \<Rightarrow> rx_frames (ce_radiotap env) rx now frame (ds_awdl d))"

lemma receive_ok:
  assumes "daemon_ok L d" and "alloc_ok L (env_mem rx)" and "junk_ok (env_peer rx)" and "int (length packet) \<le> INT_MAX"
  shows "packet_frames env rx now packet d \<le> 16 \<Longrightarrow> step_ok L d (awdl_receive_frame env rx hwrite now packet d)"
    and "16 < packet_frames env rx now packet d \<Longrightarrow> awdl_receive_frame env rx hwrite now packet d = None"
proof -
  obtain frame where f: "buf_new_const packet (int (length packet)) = Some frame" "buf_wf frame"
    using assms(4) buf_new_const_wf [of packet "int (length packet)"] by (simp add: buf_new_const_def)
  have st: "state_ok L (ds_awdl d)" using assms(1) by (simp add: daemon_ok_def)
  obtain result out s events where out: "length out = rx_frames (ce_radiotap env) rx now frame (ds_awdl d)"
    and r: "\<And>cap. awdl_rx (ce_radiotap env) rx cap now frame (ds_awdl d) = (if length out \<le> cap then Some (result, out, s, events) else None)"
      "state_ok L s" "rx_frame_rule (ds_awdl d) s"
    by (rule rx_frames_sized [OF assms(2,3) st f(2)]) (rule that; assumption)
  have n: "packet_frames env rx now packet d = length out" using f(1) by (simp add: packet_frames_def out)
  have "st_name s = st_name (ds_awdl d)" "st_channel s = st_channel (ds_awdl d)" using r(3) by (auto simp: rx_frame_rule_def)
  with f(1) r assms(1) n show "packet_frames env rx now packet d \<le> 16 \<Longrightarrow> step_ok L d (awdl_receive_frame env rx hwrite now packet d)"
    by (simp add: awdl_receive_frame_def MAX_NUM_AMPDU_def step_ok_def Let_def daemon_ok_def same_plan_def)
  show "16 < packet_frames env rx now packet d \<Longrightarrow> awdl_receive_frame env rx hwrite now packet d = None"
    using f(1) r(1) n by (simp add: awdl_receive_frame_def MAX_NUM_AMPDU_def)
qed

text \<open>A packet of at most 509 bytes always fits.\<close>

lemma short_packet_fits:
  assumes "daemon_ok L d" and "alloc_ok L (env_mem rx)" and "junk_ok (env_peer rx)" and "length packet \<le> 509"
  shows "packet_frames env rx now packet d \<le> 16"
proof -
  have "int (length packet) \<le> INT_MAX" using assms(4) by (simp add: INT_MAX_def)
  then obtain frame where f: "buf_new_const packet (int (length packet)) = Some frame" "buf_wf frame" "buf_bytes frame = packet"
    using buf_new_const_wf [of packet "int (length packet)"] by (simp add: buf_new_const_def buf_bytes_def)
  have st: "state_ok L (ds_awdl d)" using assms(1) by (simp add: daemon_ok_def)
  have "rx_frames (ce_radiotap env) rx now frame (ds_awdl d) \<le> rx_bound frame"
    by (rule rx_frames_sized [OF assms(2,3) st f(2), of "ce_radiotap env" now]) simp
  moreover have "rx_bound frame \<le> 16" using assms(4) f(3) by (simp add: rx_bound_def)
  ultimately show ?thesis using f(1) by (simp add: packet_frames_def)
qed

lemma switch_channel_ok: "daemon_ok L d \<Longrightarrow> daemon_ok L (fst (awdl_switch_channel now d)) \<and> same_plan d (fst (awdl_switch_channel now d))"
  by (simp add: awdl_switch_channel_def Let_def daemon_ok_def state_ok_def same_plan_def)

lemma election_run_self: "el_self_addr (awdl_election_run e m) = el_self_addr e"
  by (simp add: awdl_election_run_def Let_def awdl_election_reset_self_def split: option.split)

lemma clean_peers_ok:
  assumes "daemon_ok L d"
  shows "daemon_ok L (fst (awdl_clean_peers now d)) \<and> same_plan d (fst (awdl_clean_peers now d))"
proof -
  obtain m called where r: "awdl_peers_remove (peers_of (ds_awdl d)) (now - ps_timeout (st_peers (ds_awdl d))) (st_peer_remove_cb (ds_awdl d)) = (m, called)"
    by fastforce
  have inv: "peers_inv L m" using peers_remove_spec(1) [OF state_ok_peers r] assms by (simp add: daemon_ok_def)
  have "awdl_clean_peers now d =
      (d\<lparr>ds_awdl := (set_peers (ds_awdl d) m)\<lparr>st_election := awdl_election_run (st_election (set_peers (ds_awdl d) m)) m\<rparr>\<rparr>,
       map (awdl_neighbor_remove (ds_io d)) called @ [Timer_again Peer_timer])"
    by (simp add: awdl_clean_peers_def r Let_def)
  with inv show ?thesis
    using assms by (simp add: daemon_ok_def state_ok_def set_peers_def election_run_self same_plan_def)
qed

section \<open>The event loop\<close>

text \<open>What the loop reacts to, with what the handler finds outside.\<close>

datatype event =
  Ev_wlan rx_env "u8 list \<Rightarrow> int" u64 "u8 list option"
| Ev_host "u8 list \<Rightarrow> int" "nat \<Rightarrow> u8" "(int + u8 list) list" u64 u64
| Ev_unicast "u8 list \<Rightarrow> int" u64
| Ev_multicast u64
| Ev_psf u64 u64
| Ev_mif u64 u64 u64
| Ev_channel u64
| Ev_clean u64
| Ev_stats

fun handle :: "core_env \<Rightarrow> event \<Rightarrow> daemon_state \<Rightarrow> (daemon_state \<times> effect list) option" where
  "handle env (Ev_wlan rx hwrite now packet) d = wlan_device_ready env rx hwrite now packet d"
| "handle env (Ev_host hwrite junk reads now1 now2) d = host_device_ready env hwrite junk reads now1 now2 d"
| "handle env (Ev_unicast hwrite now) d = awdl_send_unicast env hwrite now d"
| "handle env (Ev_multicast now) d = awdl_send_multicast env now d"
| "handle env (Ev_psf now1 now2) d = awdl_send_psf env now1 now2 d"
| "handle env (Ev_mif now now1 now2) d = awdl_send_mif env now now1 now2 d"
| "handle env (Ev_channel now) d = Some (awdl_switch_channel now d)"
| "handle env (Ev_clean now) d = Some (awdl_clean_peers now d)"
| "handle env Ev_stats d = Some (d, [])"

text \<open>What the events may bring: memory is bounded, and the length of a received packet is an \<^verbatim>\<open>int\<close>.\<close>

fun event_ok :: "nat \<Rightarrow> event \<Rightarrow> bool" where
  "event_ok L (Ev_wlan rx hwrite now packet) \<longleftrightarrow>
     alloc_ok L (env_mem rx) \<and> junk_ok (env_peer rx) \<and> (case packet of None \<Rightarrow> True | Some bytes \<Rightarrow> int (length bytes) \<le> INT_MAX)"
| "event_ok L _ \<longleftrightarrow> True"

text \<open>The frames for the host in a received packet fit the array on the stack of the handler.\<close>

fun event_fits :: "core_env \<Rightarrow> event \<Rightarrow> daemon_state \<Rightarrow> bool" where
  "event_fits env (Ev_wlan rx hwrite now packet) d \<longleftrightarrow>
     (case packet of None \<Rightarrow> True | Some bytes \<Rightarrow> packet_frames env rx now bytes d \<le> 16)"
| "event_fits env _ d \<longleftrightarrow> True"

section \<open>Reachable states\<close>

text \<open>The states an event loop reaches from \<open>s0\<close>: \<open>step\<close> is the handler of an event, undefined where the
  program is, and \<open>allowed\<close> are the events that may occur.\<close>

inductive reach :: "('e \<Rightarrow> 's \<Rightarrow> ('s \<times> 'o) option) \<Rightarrow> ('e \<Rightarrow> bool) \<Rightarrow> 's \<Rightarrow> 's \<Rightarrow> bool" for step allowed s0 where
  start: "reach step allowed s0 s0"
| event: "reach step allowed s0 s \<Longrightarrow> allowed ev \<Longrightarrow> step ev s = Some (s', effects) \<Longrightarrow> reach step allowed s0 s'"

text \<open>What the handlers of an event loop promise: on states with the invariant they are defined exactly for the events that
  fit the state, and then keep the invariant.\<close>

locale event_system =
  fixes step :: "'e \<Rightarrow> 's \<Rightarrow> ('s \<times> 'o) option" and allowed :: "'e \<Rightarrow> bool" and fits :: "'e \<Rightarrow> 's \<Rightarrow> bool" and inv :: "'s \<Rightarrow> bool"
  assumes handled: "inv s \<Longrightarrow> allowed ev \<Longrightarrow> fits ev s \<Longrightarrow> \<exists>s' effects. step ev s = Some (s', effects) \<and> inv s'"
    and stuck: "inv s \<Longrightarrow> allowed ev \<Longrightarrow> \<not> fits ev s \<Longrightarrow> step ev s = None"
begin

lemma step_inv: "inv s \<Longrightarrow> allowed ev \<Longrightarrow> step ev s = Some (s', effects) \<Longrightarrow> inv s'"
  using handled [of s ev] stuck [of s ev] by fastforce

lemma reach_inv: "reach step allowed s0 s \<Longrightarrow> inv s0 \<Longrightarrow> inv s"
proof (induction rule: reach.induct)
  case (event s ev s' effects)
  then show ?case using step_inv by blast
qed

lemma defined_iff: "reach step allowed s0 s \<Longrightarrow> inv s0 \<Longrightarrow> allowed ev \<Longrightarrow> step ev s \<noteq> None \<longleftrightarrow> fits ev s"
  using reach_inv [of s0 s] handled [of s ev] stuck [of s ev] by fastforce

end

lemma handle_ok:
  assumes "radiotap_header_ok (ce_radiotap env)" and "daemon_ok L d" and "event_ok L ev"
  shows "event_fits env ev d \<Longrightarrow> step_ok L d (handle env ev d)" and "\<not> event_fits env ev d \<Longrightarrow> handle env ev d = None"
proof -
  have wlan: "event_fits env ev d \<Longrightarrow> step_ok L d (handle env ev d)" "\<not> event_fits env ev d \<Longrightarrow> handle env ev d = None"
    if ev: "ev = Ev_wlan rx hwrite now packet" for rx hwrite now packet
    using receive_ok [OF assms(2), of rx _ env now hwrite] assms(2,3)
    by (cases packet; fastforce simp: ev wlan_device_ready_def step_ok_def)+
  show "event_fits env ev d \<Longrightarrow> step_ok L d (handle env ev d)"
  proof (cases ev)
    case (Ev_channel now)
    then show ?thesis using switch_channel_ok [OF assms(2), of now] by (cases "awdl_switch_channel now d") (auto simp: step_ok_def)
  next
    case (Ev_clean now)
    then show ?thesis using clean_peers_ok [OF assms(2), of now] by (cases "awdl_clean_peers now d") (auto simp: step_ok_def)
  qed (use assms(2) wlan host_ready_ok [OF assms(1,2)] send_unicast_ok [OF assms(1,2)] send_multicast_ok [OF assms(1,2)]
      send_action_ok [OF assms(1,2)] send_mif_ok [OF assms(1,2)] in \<open>simp_all add: awdl_send_psf_def step_ok_def\<close>)
  show "\<not> event_fits env ev d \<Longrightarrow> handle env ev d = None" using wlan(2) by (cases ev) simp_all
qed

interpretation daemon_loop: event_system "handle env" "\<lambda>ev. event_ok L ev \<and> radiotap_header_ok (ce_radiotap env)" "event_fits env"
    "\<lambda>d. daemon_ok L d \<and> same_plan d0 d" for env L d0
proof unfold_locales
  fix s ev
  assume ok: "daemon_ok L s \<and> same_plan d0 s" "event_ok L ev \<and> radiotap_header_ok (ce_radiotap env)"
  show "\<exists>s' effects. handle env ev s = Some (s', effects) \<and> daemon_ok L s' \<and> same_plan d0 s'" if "event_fits env ev s"
    using handle_ok(1) [of env L s ev] ok that unfolding step_ok_def by (blast intro: same_plan_trans)
  show "handle env ev s = None" if "\<not> event_fits env ev s" using handle_ok(2) [of env L s ev] ok that by blast
qed

section \<open>The start\<close>

lemma init_ok:
  assumes "awdl_init ie io wlan host chan dump now = Some (0, Some d)" and "0 \<in> set (take 64 (ie_hostname ie))"
    and "length (st_name (ie_junk ie)) = HOST_NAME_LENGTH_MAX + 1" and "INITIAL_SIZE \<le> L"
  shows "daemon_ok L d" and "ds_next d = None" and "cb_items (ds_queue d) = []" and "peer_lookup (peers_of (ds_awdl d)) = Map.empty"
    and "st_channel (ds_awdl d) = \<lparr>ch_enc = AWDL_CHAN_ENC_OPCLASS, ch_sequence = awdl_chanseq_init_static chan, ch_master = chan, ch_current = CHAN_NULL\<rparr>"
proof -
  from assms(1) obtain io' s q where s: "awdl_init_state (ie_mem ie) (ie_junk ie) (ie_hostname ie) (io_if_ether_addr io') chan now = Some s"
    and q: "circular_buf_init (ie_queue_junk ie) 16 = Some q"
    and d: "d = \<lparr>ds_io = io', ds_awdl = s\<lparr>st_peer_cb := True, st_peer_remove_cb := True\<rparr>, ds_ieee80211 = ieee80211_init_state,
      ds_next = None, ds_queue = q, ds_dump = dump\<rparr>"
    by (auto simp: awdl_init_def split: prod.splits if_splits option.splits)
  note st = init_state_ok [OF s assms(4,3)]
  have "st_name s = strncpy (st_name (ie_junk ie)) (ie_hostname ie) HOST_NAME_LENGTH_MAX"
    using s by (auto simp: awdl_init_state_def split: option.splits)
  moreover have "length (c_string (ie_hostname ie)) < 64"
    using assms(2) by (rule c_string_short)
  ultimately have "0 \<in> set (st_name s)" by (simp add: strncpy_def Let_def HOST_NAME_LENGTH_MAX_def)
  moreover have "cb_inv q" "cb_items q = []" "cb_max q = 16" using cb_init [of 16 "ie_queue_junk ie"] q by auto
  moreover have "st_channel s = \<lparr>ch_enc = AWDL_CHAN_ENC_OPCLASS, ch_sequence = awdl_chanseq_init_static chan, ch_master = chan, ch_current = CHAN_NULL\<rparr>"
    using s by (auto simp: awdl_init_state_def split: option.splits)
  ultimately show "daemon_ok L d" "ds_next d = None" "cb_items (ds_queue d) = []" "peer_lookup (peers_of (ds_awdl d)) = Map.empty"
    "st_channel (ds_awdl d) = \<lparr>ch_enc = AWDL_CHAN_ENC_OPCLASS, ch_sequence = awdl_chanseq_init_static chan, ch_master = chan, ch_current = CHAN_NULL\<rparr>"
    using st by (simp_all add: d daemon_ok_def state_ok_def peers_of_def)
qed

section \<open>Samples\<close>

text \<open>A start of the daemon for the witnesses.\<close>

definition sample_init :: init_env where
  "sample_init = \<lparr>ie_netutils = 0, ie_savefile = \<lparr>sf_open = False, sf_fd = 0\<rparr>, ie_link = sample_link,
     ie_pcap = sample_pcap\<lparr>pc_is_radiotap := True\<rparr>,
     ie_tun = \<lparr>tun_open = 6, tun_setiff = 0, tun_name = ''awdl0'', tun_fionbio = 0, tun_sethwaddr = 0, tun_setflags = 0, tun_setmtu = 0\<rparr>,
     ie_gethostname = 0, ie_hostname = [0x6f, 0x77, 0x6c, 0], ie_mem = sample_mem, ie_junk = sample_state,
     ie_queue_junk = (\<lambda>_. sample_action)\<rparr>"

definition sample_core :: core_env where
  "sample_core = \<lparr>ce_radiotap = sample_radiotap, ce_inject = (\<lambda>_. 0)\<rparr>"

lemma sample_init_ok:
  "\<exists>d. awdl_init sample_init sample_io ''wlan0'' ''awdl0'' CHAN_OPCLASS_6 False 1000 = Some (0, Some d) \<and> io_host_fd (ds_io d) = 6 \<and>
    wlan_opened (ds_io d) \<and> \<not> io_wlan_is_file (ds_io d)"
proof -
  have io: "\<exists>io. io_state_init (ie_savefile sample_init) (ie_link sample_init) (ie_pcap sample_init) (ie_tun sample_init)
      sample_io ''wlan0'' ''awdl0'' = (0, io) \<and> io_host_fd io = 6 \<and> wlan_opened io \<and> \<not> io_wlan_is_file io"
    by (simp add: wlan_opened_def sample_init_def io_state_init_def io_state_init_wlan_def savefile_init io_state_init_host_def open_tun_def
        open_nonblocking_device_def sample_link_def sample_pcap_def sample_io_def Let_def)
  have st: "\<exists>s. awdl_init_state (ie_mem sample_init) (ie_junk sample_init) (ie_hostname sample_init) self CHAN_OPCLASS_6 1000 = Some s" for self
    by (simp add: sample_init_def awdl_init_state_def awdl_peer_state_init_def awdl_peers_init_def hashmap_new_def sample_mem_def INITIAL_SIZE_def)
  from io obtain io where io: "io_state_init (ie_savefile sample_init) (ie_link sample_init) (ie_pcap sample_init) (ie_tun sample_init)
      sample_io ''wlan0'' ''awdl0'' = (0, io)" "io_host_fd io = 6" "wlan_opened io" "\<not> io_wlan_is_file io" by blast
  from st obtain s where s: "awdl_init_state (ie_mem sample_init) (ie_junk sample_init) (ie_hostname sample_init)
      (io_if_ether_addr io) CHAN_OPCLASS_6 1000 = Some s" by blast
  obtain q where q: "circular_buf_init (ie_queue_junk sample_init) 16 = Some q" using cb_init [of 16 "ie_queue_junk sample_init"] by auto
  have "0 \<le> ie_netutils sample_init" "0 \<le> ie_gethostname sample_init" by (simp_all add: sample_init_def)
  with io s q show ?thesis by (simp add: awdl_init_def)
qed

end
