(* ===== verification/Netutils.thy ===== *)
theory Netutils
  imports Io
begin

text \<open>
  Model of \<^verbatim>\<open>src/daemon/netutils.c\<close> on Linux: the requests to the kernel. The netlink library is a parameter:
  a record holds what its calls return in one run of a function, and a function returns its result with the requests it
  sent. \<^term>\<open>None\<close> is undefined behaviour, here the use of a pointer that was never set.
\<close>

unbundle bit_operations_syntax

section \<open>Data\<close>

definition ENOMEM :: int where
  "ENOMEM = 12"

definition ENOLINK :: int where
  "ENOLINK = 67"

definition ENOBUFS :: int where
  "ENOBUFS = 105"

datatype nl_attr = Ifindex int | Iftype_monitor | Mntr_flag_active | Split_wiphy_dump | Wiphy_freq int | Chan_ht40plus

datatype nl_request =
  Set_interface "nl_attr list"
| Get_wiphy "nl_attr list"
| Set_wiphy_channel "nl_attr list"
| Neigh_add int "u8 list" ether_addr
| Neigh_delete int "u8 list"
| Link_change int bool

text \<open>One frequency and one band of an answer.\<close>

record nl_freq =
  fq_freq :: "u32 option"
  fq_disabled :: bool
  fq_no_ir :: bool

record nl_band =
  bd_type :: int
  bd_freqs :: "nl_freq list option"

text \<open>What the calls on a message return: the allocations, the header, the i-th attribute, sending and receiving; and the
  answers that are passed to the callback.\<close>

record nl_calls =
  nl_msg :: bool
  nl_flags :: bool
  nl_cb :: bool
  nl_header :: bool
  nl_put :: "nat \<Rightarrow> bool"
  nl_send :: int
  nl_recv :: int
  nl_answers :: "nl_band list option list"

record socket_calls =
  so_alloc :: bool
  so_connect :: int
  so_resolve :: int

record neigh_calls =
  nb_alloc :: bool
  nb_ip :: bool
  nb_llc :: bool
  nb_result :: int

record channels_ctx =
  cx_last_band :: int
  cx_width_40 :: bool
  cx_width_80 :: bool
  cx_width_160 :: bool

record channel_args =
  ca_freq :: int
  ca_is_available :: bool
  ca_ctx :: channels_ctx

section \<open>Sockets\<close>

text \<open>The result, and whether the socket stays open.\<close>

definition nlroute_init :: "socket_calls \<Rightarrow> int \<times> bool" where
  "nlroute_init so =
     (if \<not> so_alloc so then (- ENOMEM, False)
      else if so_connect so \<noteq> 0 then (- ENOLINK, False)
      else (0, True))"

definition nl80211_init :: "socket_calls \<Rightarrow> int \<times> bool" where
  "nl80211_init so =
     (if \<not> so_alloc so then (- ENOMEM, False)
      else if so_connect so \<noteq> 0 then (- ENOLINK, False)
      else if so_resolve so < 0 then (- ENOENT, False)
      else (0, True))"

definition netutils_init :: "socket_calls \<Rightarrow> socket_calls \<Rightarrow> int \<times> bool \<times> bool" where
  "netutils_init route nl80211 =
     (case nlroute_init route of
        (err, open1) \<Rightarrow>
          if err < 0 then (err, open1, False)
          else
            (case nl80211_init nl80211 of
               (err, open2) \<Rightarrow> if err < 0 then (err, open1, open2) else (0, open1, open2)))"

section \<open>Neighbours\<close>

definition neighbor_add :: "neigh_calls \<Rightarrow> int \<Rightarrow> ether_addr \<Rightarrow> u8 list \<Rightarrow> (int \<times> nl_request list) option" where
  "neighbor_add nb ifindex eth in6 =
     (if \<not> nb_alloc nb then None
      else if \<not> nb_ip nb then None
      else if \<not> nb_llc nb then Some (- ENOMEM, [])
      else Some (nb_result nb, [Neigh_add ifindex in6 eth]))"

definition neighbor_remove :: "neigh_calls \<Rightarrow> int \<Rightarrow> u8 list \<Rightarrow> (int \<times> nl_request list) option" where
  "neighbor_remove nb ifindex in6 =
     (if \<not> nb_alloc nb then None
      else if \<not> nb_ip nb then Some (- ENOMEM, [])
      else Some (nb_result nb, [Neigh_delete ifindex in6]))"

definition rfc4291_addr :: "ether_addr \<Rightarrow> u8 list" where
  "rfc4291_addr eth =
     (let octet = ether_bytes eth in
      (replicate 16 0)[0 := 0xfe, 1 := 0x80, 8 := octet ! 0 XOR 0x02, 9 := octet ! 1, 10 := octet ! 2, 11 := 0xff, 12 := 0xfe,
        13 := octet ! 3, 14 := octet ! 4, 15 := octet ! 5])"

definition neighbor_add_rfc4291 :: "neigh_calls \<Rightarrow> int \<Rightarrow> ether_addr \<Rightarrow> (int \<times> nl_request list) option" where
  "neighbor_add_rfc4291 nb ifindex addr = neighbor_add nb ifindex addr (rfc4291_addr addr)"

definition neighbor_remove_rfc4291 :: "neigh_calls \<Rightarrow> int \<Rightarrow> ether_addr \<Rightarrow> (int \<times> nl_request list) option" where
  "neighbor_remove_rfc4291 nb ifindex addr = neighbor_remove nb ifindex (rfc4291_addr addr)"

section \<open>The wireless device\<close>

definition set_monitor_mode :: "nl_calls \<Rightarrow> int \<Rightarrow> int \<times> nl_request list" where
  "set_monitor_mode nl ifindex =
     (let request = Set_interface [Ifindex ifindex, Iftype_monitor, Mntr_flag_active] in
      if \<not> nl_msg nl then (- ENOMEM, [])
      else if \<not> nl_put nl 0 \<or> \<not> nl_put nl 1 then (- ENOBUFS, [])
      else if \<not> nl_flags nl then (- ENOMEM, [])
      else if \<not> nl_put nl 2 then (- ENOBUFS, [])
      else if nl_send nl < 0 then (nl_send nl, [request])
      else (nl_recv nl, [request]))"

definition freq_available :: "int \<Rightarrow> nl_freq \<Rightarrow> bool" where
  "freq_available test_freq f =
     (case fq_freq f of
        None \<Rightarrow> False
      | Some freq \<Rightarrow> sint freq = test_freq \<and> \<not> (fq_disabled f \<or> fq_no_ir f))"

definition parse_band :: "nl_band \<Rightarrow> channel_args \<Rightarrow> channel_args" where
  "parse_band band cargs =
     (let cargs = (if cx_last_band (ca_ctx cargs) \<noteq> bd_type band
                   then cargs\<lparr>ca_ctx := \<lparr>cx_last_band = bd_type band, cx_width_40 = False, cx_width_80 = False, cx_width_160 = False\<rparr>\<rparr>
                   else cargs) in
      case bd_freqs band of
        None \<Rightarrow> cargs
      | Some freqs \<Rightarrow>
          foldl (\<lambda>cargs f. if freq_available (ca_freq cargs) f then cargs\<lparr>ca_is_available := True\<rparr> else cargs) cargs freqs)"

definition parse_freq_support :: "nl_band list option \<Rightarrow> channel_args \<Rightarrow> channel_args" where
  "parse_freq_support bands cargs =
     (case bands of None \<Rightarrow> cargs | Some bands \<Rightarrow> foldl (\<lambda>cargs band. parse_band band cargs) cargs bands)"

text \<open>The static variable of \<^verbatim>\<open>is_channel_available\<close> before its first call.\<close>

definition initial_args :: channel_args where
  "initial_args = \<lparr>ca_freq = 0, ca_is_available = False,
     ca_ctx = \<lparr>cx_last_band = - 1, cx_width_40 = False, cx_width_80 = False, cx_width_160 = False\<rparr>\<rparr>"

definition is_channel_available ::
  "nl_calls \<Rightarrow> int \<Rightarrow> int \<Rightarrow> channel_args \<Rightarrow> (int \<times> bool \<times> channel_args \<times> nl_request list) option" where
  "is_channel_available nl ifindex channel args =
     (let freq = ieee80211_channel_to_frequency channel in
      if freq = 0 then None
      else
        (let args = args\<lparr>ca_freq := freq\<rparr>;
             request = Get_wiphy [Ifindex ifindex, Split_wiphy_dump];
             out = (\<lambda>err args sent. Some (err, ca_is_available args, args, sent)) in
         if \<not> nl_msg nl then None
         else if \<not> nl_header nl then out (- ENOBUFS) args []
         else if \<not> nl_put nl 0 then out (- ENOBUFS) args []
         else if nl_send nl < 0 then out (nl_send nl) args [request]
         else if \<not> nl_cb nl then None
         else out (nl_recv nl) (foldl (\<lambda>args bands. parse_freq_support bands args) args (nl_answers nl)) [request]))"

definition set_channel :: "nl_calls \<Rightarrow> int \<Rightarrow> int \<Rightarrow> (int \<times> nl_request list) option" where
  "set_channel nl ifindex channel =
     (let freq = ieee80211_channel_to_frequency channel;
          request = Set_wiphy_channel [Ifindex ifindex, Wiphy_freq freq, Chan_ht40plus] in
      if freq = 0 then None
      else if \<not> nl_msg nl then Some (- ENOMEM, [])
      else if \<not> nl_header nl then Some (- ENOBUFS, [])
      else if \<not> nl_put nl 0 \<or> \<not> nl_put nl 1 \<or> \<not> nl_put nl 2 then Some (- ENOBUFS, [])
      else if nl_send nl < 0 then Some (nl_send nl, [request])
      else Some (nl_recv nl, [request]))"

section \<open>Links\<close>

text \<open>\<open>get\<close> is what \<^verbatim>\<open>rtnl_link_get_kernel\<close> returns; the result of the change is ignored.\<close>

definition link_updown :: "int \<Rightarrow> int \<Rightarrow> bool \<Rightarrow> int \<times> nl_request list" where
  "link_updown get ifindex up = (if get < 0 then (get, []) else (0, [Link_change ifindex up]))"

definition link_up :: "int \<Rightarrow> int \<Rightarrow> int \<times> nl_request list" where
  "link_up get ifindex = link_updown get ifindex True"

definition link_down :: "int \<Rightarrow> int \<Rightarrow> int \<times> nl_request list" where
  "link_down get ifindex = link_updown get ifindex False"

definition link_ether_addr_get :: "int \<Rightarrow> ether_addr option \<Rightarrow> ether_addr \<Rightarrow> (int \<times> ether_addr) option" where
  "link_ether_addr_get get nladdr addr =
     (if get < 0 then Some (get, addr) else (case nladdr of None \<Rightarrow> None | Some a \<Rightarrow> Some (0, a)))"

text \<open>\<open>errno\<close> is the error of \<^verbatim>\<open>gethostname\<close>, zero for success.\<close>

definition get_hostname :: "int \<Rightarrow> int" where
  "get_hostname errno = (if errno \<noteq> 0 then - errno else 0)"

section \<open>Properties\<close>

lemma xor_twice: "(w XOR v) XOR v = (w :: u8)"
  by (simp add: xor.assoc)

lemma rfc4291_bytes:
  "rfc4291_addr (EtherAddr a b c d e f) = [0xfe, 0x80, 0, 0, 0, 0, 0, 0, a XOR 2, b, c, 0xff, 0xfe, d, e, f]"
  by (simp add: rfc4291_addr_def Let_def eval_nat_numeral)

lemma available_fold:
  "foldl (\<lambda>cargs f. if freq_available (ca_freq cargs) f then cargs\<lparr>ca_is_available := True\<rparr> else cargs) cargs freqs =
     cargs\<lparr>ca_is_available := ca_is_available cargs \<or> (\<exists>f\<in>set freqs. freq_available (ca_freq cargs) f)\<rparr>"
  by (induction freqs arbitrary: cargs) auto

definition band_available :: "int \<Rightarrow> nl_band \<Rightarrow> bool" where
  "band_available freq band = (\<exists>f\<in>set (case bd_freqs band of None \<Rightarrow> [] | Some freqs \<Rightarrow> freqs). freq_available freq f)"

definition answer_available :: "int \<Rightarrow> nl_band list option \<Rightarrow> bool" where
  "answer_available freq bands = (\<exists>b\<in>set (case bands of None \<Rightarrow> [] | Some bs \<Rightarrow> bs). band_available freq b)"

lemma parse_band_result:
  "ca_freq (parse_band band cargs) = ca_freq cargs"
  "ca_is_available (parse_band band cargs) \<longleftrightarrow> ca_is_available cargs \<or> band_available (ca_freq cargs) band"
  by (auto simp: parse_band_def available_fold band_available_def Let_def split: option.split)

lemma parse_freq_support_result:
  "ca_freq (parse_freq_support bands cargs) = ca_freq cargs"
  "ca_is_available (parse_freq_support bands cargs) \<longleftrightarrow> ca_is_available cargs \<or> answer_available (ca_freq cargs) bands"
proof -
  have "ca_freq (foldl (\<lambda>cargs band. parse_band band cargs) cargs bs) = ca_freq cargs \<and>
      (ca_is_available (foldl (\<lambda>cargs band. parse_band band cargs) cargs bs) \<longleftrightarrow>
        ca_is_available cargs \<or> (\<exists>b\<in>set bs. band_available (ca_freq cargs) b))" for bs
    by (induction bs arbitrary: cargs) (auto simp: parse_band_result)
  then show "ca_freq (parse_freq_support bands cargs) = ca_freq cargs"
    "ca_is_available (parse_freq_support bands cargs) \<longleftrightarrow> ca_is_available cargs \<or> answer_available (ca_freq cargs) bands"
    by (auto simp: parse_freq_support_def answer_available_def split: option.split)
qed

lemma answers_result:
  "ca_is_available (foldl (\<lambda>args bands. parse_freq_support bands args) args answers) \<longleftrightarrow>
     ca_is_available args \<or> (\<exists>a\<in>set answers. answer_available (ca_freq args) a)"
  by (induction answers arbitrary: args) (auto simp: parse_freq_support_result)

text \<open>The link-local address of a peer is the prefix fe80::/64 followed by the modified EUI-64 of its hardware
  address, and it determines the hardware address.\<close>

theorem rfc4291_addr_correct:
  "length (rfc4291_addr a) = 16 \<and> take 8 (rfc4291_addr a) = [0xfe, 0x80, 0, 0, 0, 0, 0, 0] \<and>
   ether_of_bytes ([rfc4291_addr a ! 8 XOR 2] @ take 2 (drop 9 (rfc4291_addr a)) @ drop 13 (rfc4291_addr a)) = a \<and>
   take 2 (drop 11 (rfc4291_addr a)) = [0xff, 0xfe] \<and>
   (rfc4291_addr a = rfc4291_addr b \<longleftrightarrow> a = b)"
proof -
  have inv: "ether_of_bytes ([rfc4291_addr a ! 8 XOR 2] @ take 2 (drop 9 (rfc4291_addr a)) @ drop 13 (rfc4291_addr a)) = a" for a
    by (cases a) (simp add: rfc4291_bytes xor_twice ether_of_bytes_def)
  moreover have "rfc4291_addr a = rfc4291_addr b \<longleftrightarrow> a = b" by (metis inv)
  ultimately show ?thesis by (cases a) (simp add: rfc4291_bytes xor_twice ether_of_bytes_def)
qed

text \<open>C38. What \<^verbatim>\<open>is_channel_available\<close> reports: the channel is available when an answer of the driver lists its
  frequency neither as disabled nor as closed for transmission, or when any earlier call found any channel available: the
  static variable that collects the result is never reset.\<close>

theorem is_channel_available_sticky:
  assumes "is_channel_available nl ifindex channel args = Some (err, available, args', sent)"
  shows "available = ca_is_available args' \<and>
    (available \<longleftrightarrow> ca_is_available args \<or>
      (nl_header nl \<and> nl_put nl 0 \<and> 0 \<le> nl_send nl \<and>
       (\<exists>a\<in>set (nl_answers nl). answer_available (ieee80211_channel_to_frequency channel) a)))"
  using assms by (auto simp: is_channel_available_def Let_def answers_result split: if_splits)

text \<open>A driver that offers channel 6 only.\<close>

definition sample_nl :: nl_calls where
  "sample_nl = \<lparr>nl_msg = True, nl_flags = True, nl_cb = True, nl_header = True, nl_put = (\<lambda>_. True), nl_send = 0, nl_recv = 0,
     nl_answers = [Some [\<lparr>bd_type = 0, bd_freqs = Some [\<lparr>fq_freq = Some 2437, fq_disabled = False, fq_no_ir = False\<rparr>]\<rparr>]]\<rparr>"

theorem is_channel_available_sticky_witness:
  "\<exists>args args' sent sent'. is_channel_available sample_nl 3 6 initial_args = Some (0, True, args, sent) \<and>
     is_channel_available sample_nl 3 44 args = Some (0, True, args', sent')"
proof -
  have total: "\<exists>available args' sent. is_channel_available sample_nl 3 c args = Some (0, available, args', sent)" if "c \<in> {6, 44}" for c args
    using that by (auto simp: is_channel_available_def sample_nl_def Let_def ieee80211_channel_to_frequency_def)
  obtain av1 args sent1 where r1: "is_channel_available sample_nl 3 6 initial_args = Some (0, av1, args, sent1)"
    using total [of 6 initial_args] by blast
  obtain av2 args' sent2 where r2: "is_channel_available sample_nl 3 44 args = Some (0, av2, args', sent2)"
    using total [of 44 args] by blast
  have "av1" using is_channel_available_sticky [OF r1]
    by (auto simp: sample_nl_def answer_available_def band_available_def freq_available_def ieee80211_channel_to_frequency_def)
  moreover from this have "av2" using is_channel_available_sticky [OF r1] is_channel_available_sticky [OF r2] by blast
  ultimately show ?thesis using r1 r2 by auto
qed

text \<open>The requests for the neighbour table use pointers that were never set: adding is undefined exactly when the first or
  the second of its three allocations fails, removing exactly when the first does; otherwise the request names the
  interface, the link-local address and the hardware address of the peer.\<close>

theorem neighbor_requests:
  "(neighbor_add_rfc4291 nb ifindex a = None \<longleftrightarrow> \<not> nb_alloc nb \<or> \<not> nb_ip nb) \<and>
   (neighbor_remove_rfc4291 nb ifindex a = None \<longleftrightarrow> \<not> nb_alloc nb) \<and>
   (nb_alloc nb \<and> nb_ip nb \<longrightarrow>
      neighbor_add_rfc4291 nb ifindex a =
        Some (if nb_llc nb then nb_result nb else - ENOMEM, if nb_llc nb then [Neigh_add ifindex (rfc4291_addr a) a] else []) \<and>
      neighbor_remove_rfc4291 nb ifindex a = Some (nb_result nb, [Neigh_delete ifindex (rfc4291_addr a)]))"
  by (simp add: neighbor_add_rfc4291_def neighbor_remove_rfc4291_def neighbor_add_def neighbor_remove_def)

end
