(* ===== verification/Run.thy ===== *)
theory Run
  imports Daemon Netutils
begin

text \<open>
  The event loop with the system calls behind its effects. The handlers of \<^verbatim>\<open>src/daemon/core.c\<close> ignore the results of the
  neighbour hooks, of \<^verbatim>\<open>is_channel_available\<close>, of \<^verbatim>\<open>set_channel\<close> and of \<^verbatim>\<open>dump_frame\<close>, so what a handler does is
  given by its new state and the calls it makes, in order; here these calls are run, with the functions of \<^verbatim>\<open>src/daemon/netutils.c\<close>, and
  an undefined call makes the whole step undefined.
\<close>

section \<open>The calls\<close>

text \<open>What the calls of \<^verbatim>\<open>dump_frame\<close> return: the file is created or opened, a handle for it and a dumper are
  allocated. Each result is used without a test.\<close>

record dump_calls =
  dc_fopen :: bool
  dc_open_dead :: bool
  dc_open_append :: bool

definition dump_frame_calls :: "dump_calls \<Rightarrow> unit option" where
  "dump_frame_calls dc =
     (if \<not> dc_fopen dc then None
      else if \<not> dc_open_dead dc then None
      else if \<not> dc_open_append dc then None
      else Some ())"

text \<open>What the libraries return to the calls behind one effect.\<close>

record os_calls =
  os_neigh :: neigh_calls
  os_nl :: nl_calls
  os_dump :: dump_calls

text \<open>One effect: the static variable of \<^verbatim>\<open>is_channel_available\<close> afterwards, and the requests to the kernel. A frame can only be
  injected with a handle that was opened. Timers and watchers of libev, and writing to the host device, are always defined.\<close>

fun os_call :: "io_state \<Rightarrow> os_calls \<Rightarrow> effect \<Rightarrow> channel_args \<Rightarrow> (channel_args \<times> nl_request list) option" where
  "os_call io os (Wlan_frame frame) args = (if wlan_opened io then Some (args, []) else None)"
| "os_call io os (Neighbor_add i a) args = map_option (\<lambda>(err, sent). (args, sent)) (neighbor_add_rfc4291 (os_neigh os) i a)"
| "os_call io os (Neighbor_remove i a) args = map_option (\<lambda>(err, sent). (args, sent)) (neighbor_remove_rfc4291 (os_neigh os) i a)"
| "os_call io os (Is_channel_available i c) args =
     map_option (\<lambda>(err, available, args', sent). (args', sent)) (is_channel_available (os_nl os) i c args)"
| "os_call io os (Set_channel i c) args = map_option (\<lambda>(err, sent). (args, sent)) (set_channel (os_nl os) i c)"
| "os_call io os (Dump_frame frame) args = map_option (\<lambda>_. (args, [])) (dump_frame_calls (os_dump os))"
| "os_call io os _ args = Some (args, [])"

fun os_run :: "io_state \<Rightarrow> (nat \<Rightarrow> os_calls) \<Rightarrow> effect list \<Rightarrow> channel_args \<Rightarrow> (channel_args \<times> nl_request list) option" where
  "os_run io os [] args = Some (args, [])"
| "os_run io os (e # es) args =
     (case os_call io (os 0) e args of
        None \<Rightarrow> None
      | Some (args, sent) \<Rightarrow> map_option (\<lambda>(args, sent'). (args, sent @ sent')) (os_run io (\<lambda>i. os (Suc i)) es args))"

section \<open>A step of the program\<close>

text \<open>An event with what the radiotap and pcap libraries and the kernel return. The static variable is part of the state. Frames can only be
  dispatched from a handle that was opened.\<close>

fun dispatches :: "event \<Rightarrow> bool" where
  "dispatches (Ev_wlan rx hwrite now packet) \<longleftrightarrow> True"
| "dispatches _ \<longleftrightarrow> False"

definition run_event ::
  "core_env \<times> (nat \<Rightarrow> os_calls) \<times> event \<Rightarrow> daemon_state \<times> channel_args \<Rightarrow>
   ((daemon_state \<times> channel_args) \<times> effect list \<times> nl_request list) option" where
  "run_event input state =
     (case input of (env, os, ev) \<Rightarrow>
        (case state of (d, args) \<Rightarrow>
           if dispatches ev \<and> \<not> wlan_opened (ds_io d) then None
           else
             (case handle env ev d of
                None \<Rightarrow> None
              | Some (d', effects) \<Rightarrow>
                  map_option (\<lambda>(args', sent). ((d', args'), effects, sent)) (os_run (ds_io d) os effects args))))"

section \<open>When the calls are defined\<close>

text \<open>The allocations whose failure the code does not survive.\<close>

fun served :: "os_calls \<Rightarrow> effect \<Rightarrow> bool" where
  "served os (Neighbor_add i a) \<longleftrightarrow> nb_alloc (os_neigh os) \<and> nb_ip (os_neigh os)"
| "served os (Neighbor_remove i a) \<longleftrightarrow> nb_alloc (os_neigh os)"
| "served os (Is_channel_available i c) \<longleftrightarrow>
     nl_msg (os_nl os) \<and> (nl_header (os_nl os) \<and> nl_put (os_nl os) 0 \<and> 0 \<le> nl_send (os_nl os) \<longrightarrow> nl_cb (os_nl os))"
| "served os (Dump_frame frame) \<longleftrightarrow> dc_fopen (os_dump os) \<and> dc_open_dead (os_dump os) \<and> dc_open_append (os_dump os)"
| "served os _ \<longleftrightarrow> True"

text \<open>The effects that tune the radio name a channel with a frequency.\<close>

fun tunes :: "effect \<Rightarrow> int option" where
  "tunes (Is_channel_available i c) = Some c"
| "tunes (Set_channel i c) = Some c"
| "tunes _ = None"

definition tunable :: "effect \<Rightarrow> bool" where
  "tunable e \<longleftrightarrow> (case tunes e of None \<Rightarrow> True | Some c \<Rightarrow> ieee80211_channel_to_frequency c \<noteq> 0)"

lemma os_call_defined:
  assumes "wlan_opened io" and "tunable e"
  shows "os_call io os e args \<noteq> None \<longleftrightarrow> served os e"
  using assms
  by (cases e) (auto simp: neighbor_requests is_channel_available_def set_channel_def dump_frame_calls_def tunable_def Let_def)

lemma os_run_defined:
  assumes "wlan_opened io" and "\<forall>e\<in>set effects. tunable e"
  shows "os_run io os effects args \<noteq> None \<longleftrightarrow> (\<forall>i<length effects. served (os i) (effects ! i))"
  using assms(2)
proof (induction effects arbitrary: os args)
  case (Cons e es)
  have call: "os_call io (os 0) e args \<noteq> None \<longleftrightarrow> served (os 0) e" using os_call_defined [OF assms(1)] Cons.prems by simp
  have rest: "os_run io (\<lambda>i. os (Suc i)) es args' \<noteq> None \<longleftrightarrow> (\<forall>i<length es. served (os (Suc i)) (es ! i))" for args'
    using Cons.IH [of "\<lambda>i. os (Suc i)" args'] Cons.prems by simp
  have "(\<forall>i<length (e # es). served (os i) ((e # es) ! i)) \<longleftrightarrow> served (os 0) e \<and> (\<forall>i<length es. served (os (Suc i)) (es ! i))"
    by (auto simp: less_Suc_eq_0_disj)
  with call rest show ?case by (cases "os_call io (os 0) e args") auto
qed simp

section \<open>The radio is only tuned by the handler for the channel\<close>

definition tune_free :: "effect list \<Rightarrow> bool" where
  "tune_free effects \<longleftrightarrow> (\<forall>e\<in>set effects. tunes e = None)"

lemma tune_free_simps [simp]:
  "tune_free []" "tune_free (e # es) \<longleftrightarrow> tunes e = None \<and> tune_free es" "tune_free (es @ es') \<longleftrightarrow> tune_free es \<and> tune_free es'"
  "tune_free (map Wlan_frame fs)" "tune_free (map Host_frame fs)" "tune_free (ev_timer_rearm timer delay)"
  by (auto simp: tune_free_def ev_timer_rearm_def)

lemma tx_rearm_tune: "tx_rearm pending timer delay = Some effects \<Longrightarrow> tune_free effects"
  by (auto simp: tx_rearm_def split: if_splits option.splits)

lemma send_data_tune: "awdl_send_data env io b s ie = Some (result, s', ie', effects) \<Longrightarrow> tune_free effects"
  unfolding awdl_send_data_def Let_def by (elim checked_Some) (auto split: if_splits prod.splits)

lemma send_action_tune: "awdl_send_action env now1 now2 d type = Some (d', effects) \<Longrightarrow> tune_free effects"
  by (auto simp: awdl_send_action_def Let_def split: option.splits if_splits)

lemma send_mif_tune: "awdl_send_mif env now now1 now2 d = Some (d', effects) \<Longrightarrow> tune_free effects"
  by (auto simp: awdl_send_mif_def Let_def dest: send_action_tune split: if_splits)

lemma send_unicast_tune: "awdl_send_unicast env hwrite now d = Some (d', effects) \<Longrightarrow> tune_free effects"
  by (auto simp: awdl_send_unicast_def Let_def dest: tx_rearm_tune send_data_tune
      split: option.splits wire_result.splits prod.splits if_splits)

lemma send_multicast_tune: "awdl_send_multicast env now d = Some (d', effects) \<Longrightarrow> tune_free effects"
  by (auto simp: awdl_send_multicast_def Let_def dest: tx_rearm_tune send_data_tune split: option.splits prod.splits if_splits)

lemma host_ready_tune: "host_device_ready env hwrite junk reads now1 now2 d = Some (d', effects) \<Longrightarrow> tune_free effects"
  by (auto simp: host_device_ready_def dest: send_multicast_tune send_unicast_tune split: option.splits prod.splits if_splits)

lemma rx_effects_tune: "tune_free (rx_effects io events)"
  by (induction io events rule: rx_effects.induct) (simp_all add: awdl_neighbor_add_def)

lemma receive_tune: "awdl_receive_frame env rx hwrite now packet d = Some (d', effects) \<Longrightarrow> tune_free effects"
proof -
  have host: "tune_free (concat (map (\<lambda>b. map Host_frame (f b)) out))" for f :: "buf \<Rightarrow> u8 list list" and out
    by (induction out) simp_all
  show "awdl_receive_frame env rx hwrite now packet d = Some (d', effects) \<Longrightarrow> tune_free effects"
    by (auto simp: awdl_receive_frame_def Let_def dump_frame_def rx_effects_tune host split: option.splits prod.splits if_splits)
qed

lemma clean_peers_tune: "tune_free (snd (awdl_clean_peers now d))"
  by (auto simp: awdl_clean_peers_def Let_def tune_free_def awdl_neighbor_remove_def split: prod.splits)

lemma switch_channel_tune:
  assumes "e \<in> set (snd (awdl_switch_channel now d))" and "tunes e = Some c"
  shows "c = uint (awdl_chan_num (ch_sequence (st_channel (ds_awdl d)) !
    (unat (awdl_sync_current_eaw now (st_sync (ds_awdl d))) mod AWDL_CHANSEQ_LENGTH)) (ch_enc (st_channel (ds_awdl d))))"
  using assms by (auto simp: awdl_switch_channel_def Let_def ev_timer_rearm_def split: if_splits)

lemma handle_tune:
  assumes "handle env ev d = Some (d', effects)" and "e \<in> set effects" and "tunes e = Some c"
  shows "\<exists>i < AWDL_CHANSEQ_LENGTH. c = uint (awdl_chan_num (ch_sequence (st_channel (ds_awdl d)) ! i) (ch_enc (st_channel (ds_awdl d))))"
proof (cases ev)
  case (Ev_channel now)
  with assms have "e \<in> set (snd (awdl_switch_channel now d))" by simp
  from switch_channel_tune [OF this assms(3)] show ?thesis
    by (intro exI [of _ "unat (awdl_sync_current_eaw now (st_sync (ds_awdl d))) mod AWDL_CHANSEQ_LENGTH"]) (simp add: AWDL_CHANSEQ_LENGTH_def)
next
  case (Ev_wlan rx hwrite now packet)
  with assms(1) have "tune_free effects"
    by (auto simp: wlan_device_ready_def dest: receive_tune split: option.splits)
  with assms(2,3) show ?thesis by (auto simp: tune_free_def)
next
  case (Ev_clean now)
  with assms(1) have "tune_free effects" using clean_peers_tune [of now d] by simp
  with assms(2,3) show ?thesis by (auto simp: tune_free_def)
qed (use assms in \<open>auto simp: awdl_send_psf_def tune_free_def
    dest!: host_ready_tune send_unicast_tune send_multicast_tune send_action_tune send_mif_tune\<close>)

section \<open>The event loop\<close>

text \<open>The channels the node uses have a frequency.\<close>

definition plan_tunable :: "daemon_state \<Rightarrow> bool" where
  "plan_tunable d \<longleftrightarrow> (\<forall>i < AWDL_CHANSEQ_LENGTH. ieee80211_channel_to_frequency
     (uint (awdl_chan_num (ch_sequence (st_channel (ds_awdl d)) ! i) (ch_enc (st_channel (ds_awdl d))))) \<noteq> 0)"

lemma plan_tunable_effects: "handle env ev d = Some (d', effects) \<Longrightarrow> plan_tunable d \<Longrightarrow> e \<in> set effects \<Longrightarrow> tunable e"
  using handle_tune [of env ev d d' effects e] by (auto simp: plan_tunable_def tunable_def split: option.split)

lemma same_plan_keeps: "same_plan d d' \<Longrightarrow> plan_tunable d' = plan_tunable d" "same_plan d d' \<Longrightarrow> ds_io d' = ds_io d"
  by (simp_all add: same_plan_def plan_tunable_def)

fun run_ok :: "nat \<Rightarrow> core_env \<times> (nat \<Rightarrow> os_calls) \<times> event \<Rightarrow> bool" where
  "run_ok L (env, os, ev) \<longleftrightarrow> radiotap_header_ok (ce_radiotap env) \<and> event_ok L ev"

text \<open>The frames of the event fit, and the allocations behind the calls of its handler succeed.\<close>

fun run_fits :: "core_env \<times> (nat \<Rightarrow> os_calls) \<times> event \<Rightarrow> daemon_state \<times> channel_args \<Rightarrow> bool" where
  "run_fits (env, os, ev) (d, args) \<longleftrightarrow> event_fits env ev d \<and>
     (case handle env ev d of None \<Rightarrow> False | Some (d', effects) \<Rightarrow> \<forall>i<length effects. served (os i) (effects ! i))"

fun run_inv :: "nat \<Rightarrow> daemon_state \<Rightarrow> daemon_state \<times> channel_args \<Rightarrow> bool" where
  "run_inv L d0 (d, args) \<longleftrightarrow> daemon_ok L d \<and> same_plan d0 d \<and> wlan_opened (ds_io d) \<and> plan_tunable d"

lemma run_event_result:
  assumes "run_inv L d0 (d, args)" and "run_ok L (env, os, ev)"
  shows "\<not> event_fits env ev d \<Longrightarrow> run_event (env, os, ev) (d, args) = None"
    and "event_fits env ev d \<Longrightarrow> \<exists>d' effects. handle env ev d = Some (d', effects) \<and> run_inv L d0 (d', args') \<and>
      (if \<forall>i<length effects. served (os i) (effects ! i)
       then \<exists>args' sent. run_event (env, os, ev) (d, args) = Some ((d', args'), effects, sent)
       else run_event (env, os, ev) (d, args) = None)"
proof -
  have ok: "radiotap_header_ok (ce_radiotap env)" "daemon_ok L d" "event_ok L ev" using assms by simp_all
  show "run_event (env, os, ev) (d, args) = None" if "\<not> event_fits env ev d"
    using handle_ok(2) [OF ok that] by (simp add: run_event_def)
  assume "event_fits env ev d"
  then obtain d' effects where h: "handle env ev d = Some (d', effects)" "daemon_ok L d'" "same_plan d d'"
    using handle_ok(1) [OF ok] unfolding step_ok_def by blast
  have inv: "run_inv L d0 (d', args')" using assms(1) h(2,3) same_plan_keeps [OF h(3)] by (auto intro: same_plan_trans)
  have run: "run_event (env, os, ev) (d, args) =
      map_option (\<lambda>(args', sent). ((d', args'), effects, sent)) (os_run (ds_io d) os effects args)"
    using assms(1) h(1) by (simp add: run_event_def)
  have defined: "os_run (ds_io d) os effects args \<noteq> None \<longleftrightarrow> (\<forall>i<length effects. served (os i) (effects ! i))"
    using assms(1) plan_tunable_effects [OF h(1)] by (intro os_run_defined) simp_all
  show "\<exists>d' effects. handle env ev d = Some (d', effects) \<and> run_inv L d0 (d', args') \<and>
      (if \<forall>i<length effects. served (os i) (effects ! i)
       then \<exists>args' sent. run_event (env, os, ev) (d, args) = Some ((d', args'), effects, sent)
       else run_event (env, os, ev) (d, args) = None)"
    using h(1) inv defined unfolding run by (intro exI [of _ d'] exI [of _ effects]) auto
qed

interpretation program: event_system run_event "run_ok L" run_fits "run_inv L d0" for L d0
proof unfold_locales
  fix s and ev :: "core_env \<times> (nat \<Rightarrow> os_calls) \<times> event"
  assume ok: "run_inv L d0 s" "run_ok L ev"
  obtain d args where s: "s = (d, args)" by fastforce
  obtain env os e where ev: "ev = (env, os, e)" by (metis prod_cases3)
  note result = run_event_result [OF ok [unfolded s ev]]
  show "\<exists>s' effects. run_event ev s = Some (s', effects) \<and> run_inv L d0 s'" if fits: "run_fits ev s"
  proof -
    have "event_fits env e d" using fits by (simp add: s ev)
    from result(2) [OF this] fits show ?thesis unfolding s ev by fastforce
  qed
  show "run_event ev s = None" if "\<not> run_fits ev s"
  proof (cases "event_fits env e d")
    case True
    from result(2) [OF this] that True show ?thesis unfolding s ev by fastforce
  qed (simp add: s ev result(1))
qed

text \<open>The start establishes the invariant, when the device could be opened.\<close>

definition valid_channels :: "awdl_chan set" where
  "valid_channels = {CHAN_OPCLASS_6, CHAN_OPCLASS_44, CHAN_OPCLASS_149}"

lemma init_run_inv:
  assumes "awdl_init ie io wlan host chan dump now = Some (0, Some d)" and "0 \<in> set (take 64 (ie_hostname ie))"
    and "length (st_name (ie_junk ie)) = HOST_NAME_LENGTH_MAX + 1" and "INITIAL_SIZE \<le> L"
    and "chan \<in> valid_channels" and "wlan_opened (ds_io d)"
  shows "run_inv L d (d, args)"
  using init_ok(1,5) [OF assms(1-4)] assms(5,6)
  by (auto simp: plan_tunable_def valid_channels_def awdl_chan_num_def CHAN_OPCLASS_6_def CHAN_OPCLASS_44_def CHAN_OPCLASS_149_def
      ieee80211_channel_to_frequency_def)

section \<open>Properties\<close>

text \<open>C1. The daemon is defined, up to what is named here. After a start that opened the WLAN device, with a host name of at most 63
  bytes, every state that the event loop reaches, through received packets of any content and length, frames of the host, timers and
  whatever the system calls return, satisfies the invariant and has at most sixteen frames in its queue. In such a state the handler
  of the next event, together with the calls it makes, is undefined exactly in two cases: the event is a packet with more than sixteen frames
  for the host, which overflow the array of \<^verbatim>\<open>awdl_receive_frame\<close>; or the result of a failed allocation is used
  without a test, in the requests for the neighbour table, in the question whether a channel is available, or in the dump of a frame. In
  every other case it returns, and the invariant holds again. Memory for the buffers of frames and for the records of new peers is
  assumed.\<close>

theorem daemon_defined:
  assumes "awdl_init ie io wlan host chan dump now = Some (0, Some d0)" and "0 \<in> set (take 64 (ie_hostname ie))"
    and "length (st_name (ie_junk ie)) = HOST_NAME_LENGTH_MAX + 1" and "INITIAL_SIZE \<le> L"
    and "chan \<in> {CHAN_OPCLASS_6, CHAN_OPCLASS_44, CHAN_OPCLASS_149}" and "wlan_opened (ds_io d0)"
    and "reach run_event (run_ok L) (d0, initial_args) (d, args)" and "radiotap_header_ok (ce_radiotap env)" and "event_ok L ev"
  shows "daemon_ok L d \<and> length (cb_items (ds_queue d)) \<le> 16 \<and>
    (if event_fits env ev d
     then \<exists>d' effects. handle env ev d = Some (d', effects) \<and> daemon_ok L d' \<and>
       (if \<forall>i<length effects. served (os i) (effects ! i)
        then \<exists>args' sent. run_event (env, os, ev) (d, args) = Some ((d', args'), effects, sent)
        else run_event (env, os, ev) (d, args) = None)
     else handle env ev d = None \<and> run_event (env, os, ev) (d, args) = None)"
proof -
  have inv: "run_inv L d0 (d, args)"
    by (rule program.reach_inv [OF assms(7)]) (use init_run_inv [OF assms(1-4) _ assms(6)] assms(5) in \<open>simp add: valid_channels_def\<close>)
  then have ok: "daemon_ok L d" by simp
  then have queue: "length (cb_items (ds_queue d)) \<le> 16" using cb_size_le [of "ds_queue d"] by (simp add: daemon_ok_def length_cb_items)
  have run: "run_ok L (env, os, ev)" using assms(8,9) by simp
  show ?thesis
  proof (cases "event_fits env ev d")
    case True
    from run_event_result(2) [OF inv run True, of args] obtain d' effects where "handle env ev d = Some (d', effects)" "daemon_ok L d'"
      "if \<forall>i<length effects. served (os i) (effects ! i)
       then \<exists>args' sent. run_event (env, os, ev) (d, args) = Some ((d', args'), effects, sent)
       else run_event (env, os, ev) (d, args) = None"
      by auto
    with ok queue True show ?thesis by auto
  next
    case False
    with ok queue run_event_result(1) [OF inv run] handle_ok(2) [OF assms(8) ok assms(9)] show ?thesis by simp
  qed
qed

text \<open>Results of calls for the witnesses: everything succeeds, and nothing does.\<close>

definition sample_os :: os_calls where
  "sample_os = \<lparr>os_neigh = \<lparr>nb_alloc = True, nb_ip = True, nb_llc = True, nb_result = 0\<rparr>, os_nl = sample_nl,
     os_dump = \<lparr>dc_fopen = True, dc_open_dead = True, dc_open_append = True\<rparr>\<rparr>"

definition failed_os :: os_calls where
  "failed_os = \<lparr>os_neigh = \<lparr>nb_alloc = False, nb_ip = False, nb_llc = False, nb_result = 0\<rparr>, os_nl = sample_nl\<lparr>nl_msg := False\<rparr>,
     os_dump = \<lparr>dc_fopen = False, dc_open_dead = False, dc_open_append = False\<rparr>\<rparr>"

lemma sample_os_served: "served sample_os e"
  by (cases e) (simp_all add: sample_os_def sample_nl_def)

text \<open>A frame of a peer is received, then the channel is switched, once with and once without memory for the request.\<close>

theorem daemon_defined_witness:
  "\<exists>d0 d args out. awdl_init sample_init sample_io ''wlan0'' ''awdl0'' CHAN_OPCLASS_6 False 1000 = Some (0, Some d0) \<and>
     run_event (sample_core, \<lambda>_. sample_os, Ev_wlan sample_env (\<lambda>_. 0) 7 (Some (b_orig sample_action))) (d0, initial_args) = Some ((d, args), out) \<and>
     daemon_ok 256 d \<and> run_event (sample_core, \<lambda>_. sample_os, Ev_channel 1000) (d, args) \<noteq> None \<and>
     run_event (sample_core, \<lambda>_. failed_os, Ev_channel 1000) (d0, initial_args) = None"
proof -
  obtain d0 where d0: "awdl_init sample_init sample_io ''wlan0'' ''awdl0'' CHAN_OPCLASS_6 False 1000 = Some (0, Some d0)"
    "wlan_opened (ds_io d0)" "\<not> io_wlan_is_file (ds_io d0)"
    using sample_init_ok by blast
  let ?ev = "Ev_wlan sample_env (\<lambda>_. 0) 7 (Some (b_orig sample_action))"
  have hyps: "0 \<in> set (take 64 (ie_hostname sample_init))" "length (st_name (ie_junk sample_init)) = HOST_NAME_LENGTH_MAX + 1" "INITIAL_SIZE \<le> 256"
    "CHAN_OPCLASS_6 \<in> {CHAN_OPCLASS_6, CHAN_OPCLASS_44, CHAN_OPCLASS_149}"
    and rt: "radiotap_header_ok (ce_radiotap sample_core)"
    using sample_state_ok sample_radiotap_ok by (simp_all add: sample_init_def sample_core_def INITIAL_SIZE_def state_ok_def)
  note safe = daemon_defined [OF d0(1) hyps d0(2) _ rt]
  have ev: "event_ok 256 ?ev" using sample_action_ok(3,4) by (simp add: sample_action_def INT_MAX_def)
  have ok: "daemon_ok 256 d0" by (rule init_ok(1) [OF d0(1) hyps(1-3)])
  have "event_fits sample_core ?ev d0"
    using short_packet_fits [OF ok sample_action_ok(3,4)] by (simp add: sample_action_def)
  with safe [OF reach.start ev, of "\<lambda>_. sample_os"] sample_os_served obtain d args out
    where d: "run_event (sample_core, \<lambda>_. sample_os, ?ev) (d0, initial_args) = Some ((d, args), out)" by auto
  have at: "reach run_event (run_ok 256) (d0, initial_args) (d, args)"
    by (rule reach.event [OF reach.start, of _ "(sample_core, \<lambda>_. sample_os, ?ev)"]) (use ev rt d in simp_all)
  from safe [OF at, of "Ev_channel 1000" "\<lambda>_. sample_os"] sample_os_served
  have nxt: "daemon_ok 256 d \<and> run_event (sample_core, \<lambda>_. sample_os, Ev_channel 1000) (d, args) \<noteq> None" by auto
  obtain d1 effects where h: "handle sample_core (Ev_channel 1000) d0 = Some (d1, Is_channel_available (io_wlan_ifindex (ds_io d0)) 6 # effects)"
    using init_ok(5) [OF d0(1) hyps(1-3)] d0(3)
    by (simp add: awdl_switch_channel_def Let_def AWDL_CHANSEQ_LENGTH_def awdl_chan_num_def CHAN_OPCLASS_6_def CHAN_NULL_def)
  have "\<not> (\<forall>i<length (Is_channel_available (io_wlan_ifindex (ds_io d0)) 6 # effects).
      served failed_os ((Is_channel_available (io_wlan_ifindex (ds_io d0)) 6 # effects) ! i))"
    by (rule notI, drule spec [of _ 0]) (simp add: failed_os_def)
  with safe [OF reach.start, of "Ev_channel 1000" "\<lambda>_. failed_os"] h
  have "run_event (sample_core, \<lambda>_. failed_os, Ev_channel 1000) (d0, initial_args) = None" by (auto split: if_splits)
  with d0(1) d nxt show ?thesis by blast
qed

end
