(* ===== verification/Owl.thy ===== *)
theory Owl
  imports Run
begin

text \<open>
  Model of \<^verbatim>\<open>src/daemon/owl.c\<close>: the options of the command line, the move to the background and the start of the
  daemon, up to the point where \<^verbatim>\<open>main\<close> enters the event loop. What \<^verbatim>\<open>getopt\<close> returns is a list of option characters with
  their arguments; \<^term>\<open>None\<close> is undefined behaviour, the overflow of a buffer or of \<^verbatim>\<open>atoi\<close>.
\<close>

section \<open>The code\<close>

definition PATH_MAX :: nat where
  "PATH_MAX = 4096"

definition IFNAMSIZ :: nat where
  "IFNAMSIZ = 16"

definition LOG_INFO :: nat where
  "LOG_INFO = 6"

definition LOG_TRACE :: nat where
  "LOG_TRACE = 8"

definition DEFAULT_AWDL_DEVICE :: string where
  "DEFAULT_AWDL_DEVICE = ''awdl0''"

definition EXIT_SUCCESS :: int where
  "EXIT_SUCCESS = 0"

definition EXIT_FAILURE :: int where
  "EXIT_FAILURE = 1"

text \<open>The standard \<^verbatim>\<open>atoi\<close>: spaces, a sign, then digits up to the first other character.\<close>

fun decimal :: "string \<Rightarrow> int \<Rightarrow> int" where
  "decimal [] n = n"
| "decimal (c # cs) n = (if c \<in> set ''0123456789'' then decimal cs (10 * n + (of_char c - 48)) else n)"

definition atoi :: "string \<Rightarrow> int option" where
  "atoi s =
     (let s = dropWhile (\<lambda>c. c \<in> set '' '' \<or> (of_char c :: nat) \<in> {9..13}) s;
          n = (case s of c # cs \<Rightarrow> if c = CHR ''-'' then - decimal cs 0 else if c = CHR ''+'' then decimal cs 0 else decimal s 0
               | [] \<Rightarrow> 0) in
      if - 2147483648 \<le> n \<and> n \<le> 2147483647 then Some n else None)"

record options =
  op_daemon :: bool
  op_dump :: bool
  op_chan_num :: int
  op_log_level :: nat
  op_filter_rssi :: bool
  op_no_monitor_mode :: bool
  op_wlan :: string
  op_host :: string

definition default_options :: options where
  "default_options = \<lparr>op_daemon = False, op_dump = False, op_chan_num = 6, op_log_level = LOG_INFO, op_filter_rssi = True,
     op_no_monitor_mode = False, op_wlan = [], op_host = DEFAULT_AWDL_DEVICE\<rparr>"

datatype parsed = Parsed options | Exit_with int | Abort

text \<open>The option characters of the string \<^verbatim>\<open>Dc:dvi:h:a:t:fN\<close>; \<^verbatim>\<open>a\<close> and \<^verbatim>\<open>t\<close> have no case in the switch.\<close>

fun parse_options :: "(char \<times> string) list \<Rightarrow> options \<Rightarrow> parsed option" where
  "parse_options [] o' = Some (Parsed o')"
| "parse_options ((c, optarg) # rest) o' =
     (if c = CHR ''D'' then parse_options rest (o'\<lparr>op_daemon := True\<rparr>)
      else if c = CHR ''c'' then (case atoi optarg of None \<Rightarrow> None | Some n \<Rightarrow> parse_options rest (o'\<lparr>op_chan_num := n\<rparr>))
      else if c = CHR ''d'' then parse_options rest (o'\<lparr>op_dump := True\<rparr>)
      else if c = CHR ''f'' then parse_options rest (o'\<lparr>op_filter_rssi := False\<rparr>)
      else if c = CHR ''v''
      then parse_options rest (if op_log_level o' < LOG_TRACE then o'\<lparr>op_log_level := op_log_level o' + 1\<rparr> else o')
      else if c = CHR ''i'' then (if length optarg \<ge> PATH_MAX then None else parse_options rest (o'\<lparr>op_wlan := optarg\<rparr>))
      else if c = CHR ''h'' then (if length optarg \<ge> IFNAMSIZ then None else parse_options rest (o'\<lparr>op_host := optarg\<rparr>))
      else if c = CHR ''N'' then parse_options rest (o'\<lparr>op_no_monitor_mode := True\<rparr>)
      else if c = CHR ''?'' then Some (Exit_with EXIT_FAILURE)
      else Some Abort)"

text \<open>What \<^verbatim>\<open>fork\<close>, \<^verbatim>\<open>setsid\<close> and the second \<^verbatim>\<open>fork\<close> return; the result is the exit status, if the process ends.\<close>

definition daemonize :: "int \<Rightarrow> int \<Rightarrow> int \<Rightarrow> int option" where
  "daemonize fork1 setsid fork2 =
     (if fork1 < 0 then Some EXIT_FAILURE
      else if fork1 > 0 then Some EXIT_SUCCESS
      else if setsid < 0 then Some EXIT_FAILURE
      else if fork2 < 0 then Some EXIT_FAILURE
      else if fork2 > 0 then Some EXIT_SUCCESS
      else None)"

definition channel_of :: "int \<Rightarrow> awdl_chan option" where
  "channel_of chan_num =
     (if chan_num = 6 then Some CHAN_OPCLASS_6
      else if chan_num = 44 then Some CHAN_OPCLASS_44
      else if chan_num = 149 then Some CHAN_OPCLASS_149
      else None)"

record main_env =
  me_fork1 :: int
  me_setsid :: int
  me_fork2 :: int
  me_init :: init_env
  me_io :: io_state
  me_now :: u64

datatype main_result = Exit int | Aborted | Run daemon_state "effect list"

text \<open>\<open>me_io\<close> is the content of the memory of the state, which is not initialised before \<^verbatim>\<open>awdl_init\<close>.\<close>

definition start :: "main_env \<Rightarrow> options \<Rightarrow> main_result option" where
  "start env o' =
     (case (if op_daemon o' then daemonize (me_fork1 env) (me_setsid env) (me_fork2 env) else None) of
        Some status \<Rightarrow> Some (Exit status)
      | None \<Rightarrow>
          (case channel_of (op_chan_num o') of
             None \<Rightarrow> Some (Exit EXIT_FAILURE)
           | Some chan \<Rightarrow>
               if op_wlan o' = [] then Some (Exit EXIT_FAILURE)
               else
                 (case awdl_init (me_init env) ((me_io env)\<lparr>io_wlan_no_monitor_mode := op_no_monitor_mode o'\<rparr>)
                         (op_wlan o') (op_host o') chan (op_dump o') (me_now env) of
                    None \<Rightarrow> None
                  | Some (err, state) \<Rightarrow>
                      if err < 0 then Some (Exit EXIT_FAILURE)
                      else
                        (case state of
                           None \<Rightarrow> None
                         | Some state \<Rightarrow>
                             (let state = state\<lparr>ds_awdl := (ds_awdl state)\<lparr>st_filter_rssi := op_filter_rssi o'\<rparr>\<rparr> in
                              Some (Run state (awdl_schedule state)))))))"

definition main :: "main_env \<Rightarrow> (char \<times> string) list \<Rightarrow> main_result option" where
  "main env args =
     (case parse_options args default_options of
        None \<Rightarrow> None
      | Some (Exit_with status) \<Rightarrow> Some (Exit status)
      | Some Abort \<Rightarrow> Some Aborted
      | Some (Parsed o') \<Rightarrow> start env o')"

section \<open>Properties\<close>

lemma main_run:
  assumes "main env args = Some (Run d0 watchers)" and o': "parse_options args default_options = Some (Parsed o')"
  obtains chan d where "channel_of (op_chan_num o') = Some chan"
    and "awdl_init (me_init env) ((me_io env)\<lparr>io_wlan_no_monitor_mode := op_no_monitor_mode o'\<rparr>) (op_wlan o') (op_host o') chan
      (op_dump o') (me_now env) = Some (0, Some d)"
    and "d0 = d\<lparr>ds_awdl := (ds_awdl d)\<lparr>st_filter_rssi := op_filter_rssi o'\<rparr>\<rparr>" and "watchers = awdl_schedule d0"
proof -
  have zero: "err = 0" if "awdl_init e io wlan host chan dump now = Some (err, Some d)" for e io wlan host chan dump now err d
    using that by (auto simp: awdl_init_def split: prod.splits if_splits option.splits)
  have "start env o' = Some (Run d0 watchers)" using assms by (simp add: main_def)
  then obtain chan err d where init: "channel_of (op_chan_num o') = Some chan"
      "awdl_init (me_init env) ((me_io env)\<lparr>io_wlan_no_monitor_mode := op_no_monitor_mode o'\<rparr>) (op_wlan o') (op_host o') chan
        (op_dump o') (me_now env) = Some (err, Some d)"
      "d0 = d\<lparr>ds_awdl := (ds_awdl d)\<lparr>st_filter_rssi := op_filter_rssi o'\<rparr>\<rparr>" "watchers = awdl_schedule d0"
    by (auto simp: start_def Let_def split: option.split_asm if_split_asm prod.split_asm)
  show ?thesis by (rule that [OF init(1) _ init(3,4)]) (use init(2) zero [OF init(2)] in simp)
qed

lemma filter_rssi_ok [simp]: "daemon_ok L (d\<lparr>ds_awdl := (ds_awdl d)\<lparr>st_filter_rssi := b\<rparr>\<rparr>) = daemon_ok L d"
  by (simp add: daemon_ok_def state_ok_def)

lemma channel_of_num: "channel_of n = Some chan \<Longrightarrow> n \<in> {6, 44, 149} \<and> uint (awdl_chan_num chan AWDL_CHAN_ENC_OPCLASS) = n"
  by (auto simp: channel_of_def awdl_chan_num_def CHAN_OPCLASS_6_def CHAN_OPCLASS_44_def CHAN_OPCLASS_149_def split: if_splits)

lemma channel_of_valid: "channel_of n = Some chan \<Longrightarrow> chan \<in> valid_channels"
  by (auto simp: channel_of_def valid_channels_def split: if_splits)

text \<open>What holds in every state that is reached after \<^verbatim>\<open>main\<close> has entered the event loop.\<close>

lemma main_reach:
  assumes "main env args = Some (Run d0 watchers)" and "parse_options args default_options = Some (Parsed o')"
    and "0 \<in> set (take 64 (ie_hostname (me_init env)))" and "length (st_name (ie_junk (me_init env))) = HOST_NAME_LENGTH_MAX + 1"
    and "INITIAL_SIZE \<le> L" and "wlan_opened (ds_io d0)" and "reach run_event (run_ok L) (d0, initial_args) (d, cargs)"
  obtains chan where "channel_of (op_chan_num o') = Some chan" and "run_inv L d0 (d, cargs)" and "run_inv L d0 (d0, initial_args)"
    and "ch_sequence (st_channel (ds_awdl d)) = awdl_chanseq_init_static chan" and "ch_enc (st_channel (ds_awdl d)) = AWDL_CHAN_ENC_OPCLASS"
    and "st_filter_rssi (ds_awdl d0) = op_filter_rssi o'"
proof -
  obtain chan d1 where chan: "channel_of (op_chan_num o') = Some chan"
    and init: "awdl_init (me_init env) ((me_io env)\<lparr>io_wlan_no_monitor_mode := op_no_monitor_mode o'\<rparr>) (op_wlan o') (op_host o') chan
      (op_dump o') (me_now env) = Some (0, Some d1)"
    and d0: "d0 = d1\<lparr>ds_awdl := (ds_awdl d1)\<lparr>st_filter_rssi := op_filter_rssi o'\<rparr>\<rparr>"
    by (rule main_run [OF assms(1,2)])
  have "run_inv L d1 (d1, initial_args)"
    using init_run_inv [OF init assms(3-5) channel_of_valid [OF chan]] assms(6) by (simp add: d0)
  then have start: "run_inv L d0 (d0, initial_args)" by (simp add: d0 plan_tunable_def)
  have inv: "run_inv L d0 (d, cargs)" by (rule program.reach_inv [OF assms(7) start])
  show thesis
    by (rule that [OF chan inv start]) (use inv init_ok(5) [OF init assms(3-5)] in \<open>simp_all add: same_plan_def d0\<close>)
qed

text \<open>C19. From the command line to the running daemon. When \<^verbatim>\<open>main\<close> enters the event loop, the channel is one of 6, 44 and
  149 and the filter on the signal strength is the one chosen. If the WLAN device could be opened and the host name has at most 63
  bytes, then in every state that is reached from there, whatever packets arrive and whatever the system calls return, the invariant
  holds, and the step for the next event is defined exactly when the frames of its packet fit the array of the handler and the
  allocations behind the calls of the handler succeed. The radio is only ever tuned to the chosen channel.\<close>

theorem main_runs_safely:
  assumes "main env args = Some (Run d0 watchers)" and "parse_options args default_options = Some (Parsed o')"
    and "0 \<in> set (take 64 (ie_hostname (me_init env)))" and "length (st_name (ie_junk (me_init env))) = HOST_NAME_LENGTH_MAX + 1"
    and "INITIAL_SIZE \<le> L" and "wlan_opened (ds_io d0)" and "reach run_event (run_ok L) (d0, initial_args) (d, cargs)"
    and "radiotap_header_ok (ce_radiotap ce)" and "event_ok L ev"
  shows "st_filter_rssi (ds_awdl d0) = op_filter_rssi o' \<and> op_chan_num o' \<in> {6, 44, 149} \<and> daemon_ok L d \<and>
    (run_event (ce, os, ev) (d, cargs) \<noteq> None \<longleftrightarrow>
      event_fits ce ev d \<and> (\<exists>d' effects. handle ce ev d = Some (d', effects) \<and> (\<forall>i<length effects. served (os i) (effects ! i)))) \<and>
    (\<forall>d' effects i c. handle ce ev d = Some (d', effects) \<and> Set_channel i c \<in> set effects \<longrightarrow> c = op_chan_num o')"
proof -
  obtain chan where chan: "channel_of (op_chan_num o') = Some chan" and inv: "run_inv L d0 (d, cargs)" "run_inv L d0 (d0, initial_args)"
    and plan: "ch_sequence (st_channel (ds_awdl d)) = awdl_chanseq_init_static chan" "ch_enc (st_channel (ds_awdl d)) = AWDL_CHAN_ENC_OPCLASS"
    and filter: "st_filter_rssi (ds_awdl d0) = op_filter_rssi o'"
    by (rule main_reach [OF assms(1-7)])
  have "c = op_chan_num o'" if "handle ce ev d = Some (d', effects)" "Set_channel i c \<in> set effects" for d' effects i c
    using handle_tune [OF that, of c] plan channel_of_num [OF chan] by auto
  moreover have "run_event (ce, os, ev) (d, cargs) \<noteq> None \<longleftrightarrow> run_fits (ce, os, ev) (d, cargs)"
    by (rule program.defined_iff [OF assms(7) inv(2)]) (use assms(8,9) in simp)
  moreover have "run_fits (ce, os, ev) (d, cargs) \<longleftrightarrow>
      event_fits ce ev d \<and> (\<exists>d' effects. handle ce ev d = Some (d', effects) \<and> (\<forall>i<length effects. served (os i) (effects ! i)))"
    by (auto split: option.split)
  ultimately show ?thesis using inv(1) filter channel_of_num [OF chan] by auto
qed

text \<open>C39. The options that overflow a buffer: parsing the options leaves defined behaviour exactly when an option before
  the first unknown one is an interface name of at least 16 bytes, a WLAN name of at least 4096 bytes, or a channel number
  that does not fit an integer.\<close>

theorem parse_options_overflow:
  "parse_options args o' = None \<longleftrightarrow>
     (\<exists>(c, a) \<in> set (takeWhile (\<lambda>(c, a). c \<in> set ''DcdfvihN'') args).
        c = CHR ''h'' \<and> 16 \<le> length a \<or> c = CHR ''i'' \<and> 4096 \<le> length a \<or> c = CHR ''c'' \<and> atoi a = None)"
proof (induction args arbitrary: o')
  case (Cons x args)
  obtain c a where x: "x = (c, a)" by fastforce
  show ?case
  proof (cases "c \<in> set ''DcdfvihN''")
    case False
    then show ?thesis by (simp add: x)
  next
    case True
    then show ?thesis
      by (auto simp: x Cons.IH PATH_MAX_def IFNAMSIZ_def not_le split: option.split if_splits)
  qed
qed simp

theorem parse_options_overflow_witness:
  "parse_options [(CHR ''D'', []), (CHR ''h'', ''awdl_interface_0'')] default_options = None"
  using parse_options_overflow [of "[(CHR ''D'', []), (CHR ''h'', ''awdl_interface_0'')]" default_options] by simp

definition sample_main :: main_env where
  "sample_main = \<lparr>me_fork1 = 0, me_setsid = 1, me_fork2 = 0, me_init = sample_init, me_io = sample_io, me_now = 1000\<rparr>"

text \<open>A start on the default channel, with or without the filter.\<close>

lemma sample_main_run:
  assumes "parse_options args default_options = Some (Parsed o')" and "o' = default_options\<lparr>op_wlan := ''wlan0'', op_filter_rssi := b\<rparr>"
  obtains d0 watchers where "main sample_main args = Some (Run d0 watchers)" and "wlan_opened (ds_io d0)" and "io_host_fd (ds_io d0) = 6"
    and "\<not> io_wlan_is_file (ds_io d0)"
    and "st_channel (ds_awdl d0) = \<lparr>ch_enc = AWDL_CHAN_ENC_OPCLASS, ch_sequence = awdl_chanseq_init_static CHAN_OPCLASS_6,
      ch_master = CHAN_OPCLASS_6, ch_current = CHAN_NULL\<rparr>"
proof -
  obtain d where d: "awdl_init sample_init sample_io ''wlan0'' ''awdl0'' CHAN_OPCLASS_6 False 1000 = Some (0, Some d)" "wlan_opened (ds_io d)"
    "io_host_fd (ds_io d) = 6" "\<not> io_wlan_is_file (ds_io d)"
    using sample_init_ok by blast
  moreover have "st_channel (ds_awdl d) = \<lparr>ch_enc = AWDL_CHAN_ENC_OPCLASS, ch_sequence = awdl_chanseq_init_static CHAN_OPCLASS_6,
      ch_master = CHAN_OPCLASS_6, ch_current = CHAN_NULL\<rparr>"
    by (rule init_ok(5) [OF d(1), where L = 256]) (use sample_state_ok in \<open>simp_all add: sample_init_def INITIAL_SIZE_def state_ok_def\<close>)
  moreover have "sample_io\<lparr>io_wlan_no_monitor_mode := False\<rparr> = sample_io" by (simp add: sample_io_def)
  ultimately show thesis
    using that assms unfolding main_def start_def by (simp add: default_options_def sample_main_def channel_of_def DEFAULT_AWDL_DEVICE_def Let_def)
qed

lemma sample_main_ok:
  "0 \<in> set (take 64 (ie_hostname (me_init sample_main)))" "length (st_name (ie_junk (me_init sample_main))) = HOST_NAME_LENGTH_MAX + 1"
  "INITIAL_SIZE \<le> 256" "radiotap_header_ok (ce_radiotap sample_core)"
  using sample_state_ok sample_radiotap_ok by (simp_all add: sample_main_def sample_init_def sample_core_def INITIAL_SIZE_def state_ok_def)

theorem main_runs_safely_witness:
  "\<exists>d0 watchers d' effects i. main sample_main [(CHR ''i'', ''wlan0''), (CHR ''f'', [])] = Some (Run d0 watchers) \<and>
     \<not> st_filter_rssi (ds_awdl d0) \<and> handle sample_core (Ev_channel 1000) d0 = Some (d', effects) \<and> Set_channel i 6 \<in> set effects \<and>
     run_event (sample_core, \<lambda>_. sample_os, Ev_channel 1000) (d0, initial_args) \<noteq> None"
proof -
  let ?args = "[(CHR ''i'', ''wlan0''), (CHR ''f'', [])]" and ?o = "default_options\<lparr>op_wlan := ''wlan0'', op_filter_rssi := False\<rparr>"
  have o': "parse_options ?args default_options = Some (Parsed ?o)" by (simp add: PATH_MAX_def default_options_def)
  obtain d0 watchers where r: "main sample_main ?args = Some (Run d0 watchers)" and opened: "wlan_opened (ds_io d0)"
    and d0: "\<not> io_wlan_is_file (ds_io d0)" "st_channel (ds_awdl d0) = \<lparr>ch_enc = AWDL_CHAN_ENC_OPCLASS,
      ch_sequence = awdl_chanseq_init_static CHAN_OPCLASS_6, ch_master = CHAN_OPCLASS_6, ch_current = CHAN_NULL\<rparr>"
    by (rule sample_main_run [OF o']) simp
  note safe = main_runs_safely [OF r o' sample_main_ok(1-3) opened reach.start sample_main_ok(4), of "Ev_channel 1000" "\<lambda>_. sample_os"]
  obtain d' effects where h: "handle sample_core (Ev_channel 1000) d0 = Some (d', effects)"
      "Set_channel (io_wlan_ifindex (ds_io d0)) 6 \<in> set effects"
    using d0 by (simp add: awdl_switch_channel_def Let_def AWDL_CHANSEQ_LENGTH_def awdl_chan_num_def CHAN_OPCLASS_6_def CHAN_NULL_def)
  from safe h(1) sample_os_served have "run_event (sample_core, \<lambda>_. sample_os, Ev_channel 1000) (d0, initial_args) \<noteq> None" by (simp del: handle.simps)
  moreover have "\<not> st_filter_rssi (ds_awdl d0)" using safe by simp
  ultimately show ?thesis using r h by blast
qed

end
