(* ===== verification/Print.thy ===== *)
theory Print
  imports Peers Frame
begin

text \<open>
  Model of the functions that print into a caller's buffer: \<^verbatim>\<open>awdl_version_to_str\<close> of \<^verbatim>\<open>src/src/version.c\<close>,
  \<^verbatim>\<open>awdl_election_tree_print\<close> of \<^verbatim>\<open>src/src/election.c\<close>, \<^verbatim>\<open>awdl_peer_print\<close> and \<^verbatim>\<open>awdl_peers_print\<close> of
  \<^verbatim>\<open>src/src/peers.c\<close>. The memory is the whole buffer, pointers are positions in it; positions behind
  the end, which the code computes when a text does not fit, are integers like any other, but a write outside of the buffer is
  undefined (\<^term>\<open>None\<close>), and a difference of pointers that is returned or passed as a length wraps to an \<^verbatim>\<open>int\<close>.
\<close>

section \<open>The standard library\<close>

definition ascii :: "string \<Rightarrow> u8 list" where
  "ascii s = map of_char s"

definition digit :: "nat \<Rightarrow> u8" where
  "digit d = (if d < 10 then 48 + of_nat d else 87 + of_nat d)"

text \<open>The conversions \<^verbatim>\<open>%d\<close>, \<^verbatim>\<open>%u\<close> (base ten) and \<^verbatim>\<open>%x\<close> (base sixteen) of a number that is not negative.\<close>

fun number :: "nat \<Rightarrow> nat \<Rightarrow> u8 list" where
  "number base n = (if base < 2 \<or> n < base then [digit n] else number base (n div base) @ [digit (n mod base)])"

declare number.simps [simp del]

primrec ether_ntoa :: "ether_addr \<Rightarrow> u8 list" where
  "ether_ntoa (EtherAddr a b c d e f) =
     number 16 (unat a) @ ascii '':'' @ number 16 (unat b) @ ascii '':'' @ number 16 (unat c) @ ascii '':'' @
     number 16 (unat d) @ ascii '':'' @ number 16 (unat e) @ ascii '':'' @ number 16 (unat f)"

text \<open>\<^verbatim>\<open>snprintf\<close> at a position with room for \<open>room\<close> bytes, of a text that is already formatted: the text cut to the room
  and a terminator, nothing if there is no room; the result is the length of the whole text. A write outside of the memory is
  undefined.\<close>

definition snprintf :: "u8 list \<Rightarrow> int \<Rightarrow> int \<Rightarrow> u8 list \<Rightarrow> (u8 list \<times> int) option" where
  "snprintf mem cur room text =
     (if room \<le> 0 then Some (mem, int (length text))
      else let out = take (nat room - 1) text @ [0] in
        if cur < 0 \<or> int (length mem) < cur + int (length out) then None
        else Some (take (nat cur) mem @ out @ drop (nat cur + length out) mem, int (length text)))"

text \<open>The conversion of a difference of pointers to \<^verbatim>\<open>int\<close>, for the results and for the lengths that are passed on.\<close>

definition to_int :: "int \<Rightarrow> int" where
  "to_int x = (x + 2 ^ 31) mod 2 ^ 32 - 2 ^ 31"

section \<open>The code\<close>

text \<open>The statement all functions repeat: \<^verbatim>\<open>cur += snprintf(cur, cur < end ? end - cur : 0, ...)\<close>.\<close>

definition put_text :: "int \<Rightarrow> u8 list \<Rightarrow> (u8 list \<times> int) option \<Rightarrow> (u8 list \<times> int) option" where
  "put_text end' text p =
     (case p of
        None \<Rightarrow> None
      | Some (mem, cur) \<Rightarrow>
          (case snprintf mem cur (if cur < end' then end' - cur else 0) text of
             None \<Rightarrow> None
           | Some (mem', n) \<Rightarrow> Some (mem', cur + n)))"

text \<open>The same without the test for the end, as in \<^verbatim>\<open>awdl_version_to_str\<close>: the difference becomes a \<^verbatim>\<open>size_t\<close>.\<close>

definition put_raw :: "int \<Rightarrow> u8 list \<Rightarrow> (u8 list \<times> int) option \<Rightarrow> (u8 list \<times> int) option" where
  "put_raw end' text p =
     (case p of
        None \<Rightarrow> None
      | Some (mem, cur) \<Rightarrow>
          (case snprintf mem cur ((end' - cur) mod 2 ^ 64) text of
             None \<Rightarrow> None
           | Some (mem', n) \<Rightarrow> Some (mem', cur + n)))"

definition awdl_version_to_str :: "u8 list \<Rightarrow> u8 \<Rightarrow> u8 list option" where
  "awdl_version_to_str str version =
     map_option fst (put_raw 64 (number 10 (nat (awdl_version_minor version)))
       (put_raw 64 (ascii ''.'') (put_raw 64 (number 10 (nat (awdl_version_major version))) (Some (str, 0)))))"

fun print_dashes :: "nat \<Rightarrow> int \<Rightarrow> (u8 list \<times> int) option \<Rightarrow> (u8 list \<times> int) option" where
  "print_dashes 0 end' p = p"
| "print_dashes (Suc n) end' p = print_dashes n end' (put_text end' (ascii ''-'') p)"

definition awdl_election_tree_print :: "awdl_election_state \<Rightarrow> u8 list \<Rightarrow> int \<Rightarrow> int \<Rightarrow> (u8 list \<times> int) option" where
  "awdl_election_tree_print state mem str len =
     (let end' = str + len;
          p = put_text end' (ether_ntoa (el_self_addr state)) (Some (mem, str));
          p = (if el_height state > 0 then put_text end' (ascii '' -> '' @ ether_ntoa (el_sync_addr state)) p else p);
          p = (if el_height state > 1
               then put_text end' (ascii ''> '' @ ether_ntoa (el_master_addr state))
                      (print_dashes (unat (el_height state) - 1) end' (put_text end' (ascii '' '') p))
               else p);
          p = put_text end' (ascii '' (met '' @ number 10 (unat (el_master_metric state)) @ ascii '', ctr '' @
                number 10 (unat (el_master_counter state)) @ ascii '')'') p in
      map_option (\<lambda>(mem, cur). (mem, to_int (cur - str))) p)"

text \<open>A name without terminator is read behind its end.\<close>

definition awdl_peer_print :: "awdl_peer \<Rightarrow> u8 list \<Rightarrow> int \<Rightarrow> int \<Rightarrow> (u8 list \<times> int) option" where
  "awdl_peer_print peer mem str len =
     (if 0 \<notin> set (p_name peer) then None
      else
        (let end' = str + len;
             name = c_string (p_name peer) in
         case (if length name \<noteq> 0 then put_text end' (name @ ascii '': '') (Some (mem, str))
               else put_text end' (ascii ''<UNNAMED>: '') (Some (mem, str))) of
           None \<Rightarrow> None
         | Some (mem, cur) \<Rightarrow>
             map_option (\<lambda>(mem, n). (mem, to_int (cur + n - str)))
               (awdl_election_tree_print (p_election peer) mem cur (to_int (end' - cur)))))"

definition peers_print_body :: "int \<Rightarrow> awdl_peer option \<Rightarrow> (u8 list \<times> int) option \<Rightarrow> bool \<times> (u8 list \<times> int) option" where
  "peers_print_body end' v p =
     (False,
      case p of
        None \<Rightarrow> None
      | Some (mem, cur) \<Rightarrow>
          (case v of
             None \<Rightarrow> None
           | Some peer \<Rightarrow>
               put_text end' [10]
                 (map_option (\<lambda>(mem, n). (mem, cur + n)) (awdl_peer_print peer mem cur (to_int (end' - cur))))))"

definition awdl_peers_print :: "awdl_peers \<Rightarrow> u8 list \<Rightarrow> int \<Rightarrow> int \<Rightarrow> (u8 list \<times> int) option" where
  "awdl_peers_print peers mem str len =
     map_option (\<lambda>(mem, cur). (mem, to_int (cur - str)))
       (snd (it_loop (peers_print_body (str + len)) peers hashmap_it_new (Some (mem, str))))"

section \<open>Appending text\<close>

text \<open>The memory and the position after a text that is cut to the room up to the end.\<close>

definition shown :: "int \<Rightarrow> u8 list \<Rightarrow> u8 list \<times> int \<Rightarrow> u8 list \<times> int" where
  "shown end' text p =
     (case p of (mem, cur) \<Rightarrow>
        (if cur < end'
         then let out = take (nat (end' - cur) - 1) text @ [0] in take (nat cur) mem @ out @ drop (nat cur + length out) mem
         else mem, cur + int (length text)))"

lemma to_int_id: "int_range x \<Longrightarrow> to_int x = x"
  by (simp add: to_int_def int_range_simps)

lemma put_text_shown:
  assumes "0 \<le> cur" and "end' \<le> int (length mem)"
  shows "put_text end' text (Some (mem, cur)) = Some (shown end' text (mem, cur))"
  using assms by (auto simp: put_text_def snprintf_def shown_def Let_def)

lemma shown_cur: "snd (shown end' text (mem, cur)) = cur + int (length text)"
  by (simp add: shown_def)

text \<open>Two texts printed one after the other are printed like their concatenation.\<close>

lemma shown_append:
  assumes "0 \<le> cur" and "end' \<le> int (length mem)"
  shows "shown end' u (shown end' t (mem, cur)) = shown end' (t @ u) (mem, cur)"
proof (cases "cur < end'")
  case False
  then show ?thesis by (simp add: shown_def)
next
  case True
  define c n where "c = nat cur" and "n = nat (end' - cur)"
  have cur: "cur = int c" "end' = int (c + n)" "0 < n" "c + n \<le> length mem" using assms True by (simp_all add: c_def n_def)
  have w: "shown end' x (mem, cur) =
      (take c mem @ take (n - 1) x @ [0] @ drop (c + Suc (min (length x) (n - 1))) mem, int (c + length x))" for x
    using cur by (simp add: shown_def Let_def nat_diff_distrib min.commute)
  show ?thesis
  proof (cases "length t < n")
    case True
    then have "shown end' t (mem, cur) = (take c mem @ t @ [0] @ drop (c + Suc (length t)) mem, int (c + length t))"
      unfolding w using cur(3) by simp
    moreover have "take (n - 1) (t @ u) = t @ take (n - 1 - length t) u" using True by simp
    moreover have "int (c + length t) < end'" "nat (end' - int (c + length t)) = n - length t" using True cur(2) by simp_all
    moreover have "min (length t + length u) (n - 1) = length t + min (length u) (n - 1 - length t)" using True by simp
    ultimately show ?thesis
      unfolding w using cur True
      by (simp add: shown_def Let_def min.commute add.assoc nat_int_add Suc_diff_le add_ac)
  next
    case False
    then have "\<not> int (c + length t) < end'" using cur(2) by simp
    moreover have "take (n - 1) (t @ u) = take (n - 1) t" "min (length t + length u) (n - 1) = min (length t) (n - 1)" using False by simp_all
    ultimately show ?thesis unfolding w by (simp add: shown_def)
  qed
qed

lemma shown_length:
  assumes "0 \<le> cur" and "end' \<le> int (length mem)"
  shows "length (fst (shown end' text (mem, cur))) = length mem"
  using assms by (auto simp: shown_def Let_def)

lemma put_text_append:
  assumes "0 \<le> cur" and "end' \<le> int (length mem)"
  shows "put_text end' u (Some (shown end' t (mem, cur))) = Some (shown end' (t @ u) (mem, cur))"
proof -
  obtain m c where p: "shown end' t (mem, cur) = (m, c)" by fastforce
  then have "0 \<le> c" "length m = length mem" using shown_cur [of end' t mem cur] shown_length [OF assms, of t] assms(1) by simp_all
  then show ?thesis using put_text_shown [of c end' m u] shown_append [OF assms, of u t] assms(2) p by simp
qed

lemma print_dashes:
  assumes "0 \<le> cur" and "end' \<le> int (length mem)"
  shows "print_dashes n end' (Some (shown end' t (mem, cur))) = Some (shown end' (t @ replicate n 45) (mem, cur))"
proof (induction n arbitrary: t)
  case (Suc n)
  have "print_dashes (Suc n) end' (Some (shown end' t (mem, cur))) = print_dashes n end' (Some (shown end' (t @ ascii ''-'') (mem, cur)))"
    by (simp add: put_text_append [OF assms])
  also have "\<dots> = Some (shown end' (t @ replicate (Suc n) 45) (mem, cur))"
    unfolding Suc by (simp add: ascii_def)
  finally show ?case .
qed simp

lemma put_raw_append:
  assumes "0 \<le> cur" and "end' \<le> int (length mem)" and "cur + int (length t) < end'" and "end' \<le> 64"
  shows "put_raw end' u (Some (shown end' t (mem, cur))) = Some (shown end' (t @ u) (mem, cur))"
proof -
  obtain m c where p: "shown end' t (mem, cur) = (m, c)" by fastforce
  then have c: "c = cur + int (length t)" using shown_cur [of end' t mem cur] by simp
  then have "(end' - c) mod 2 ^ 64 = end' - c" using assms by (intro mod_pos_pos_trivial) simp_all
  then have "put_raw end' u (Some (m, c)) = put_text end' u (Some (m, c))"
    using c assms(3) by (simp add: put_raw_def put_text_def)
  then show ?thesis using put_text_append [OF assms(1,2), of u t] p by simp
qed

section \<open>The printed texts\<close>

definition tree_text :: "awdl_election_state \<Rightarrow> u8 list" where
  "tree_text state =
     ether_ntoa (el_self_addr state) @
     (if el_height state > 0 then ascii '' -> '' @ ether_ntoa (el_sync_addr state) else []) @
     (if el_height state > 1
      then ascii '' '' @ replicate (unat (el_height state) - 1) 45 @ ascii ''> '' @ ether_ntoa (el_master_addr state) else []) @
     ascii '' (met '' @ number 10 (unat (el_master_metric state)) @ ascii '', ctr '' @ number 10 (unat (el_master_counter state)) @ ascii '')''"

definition peer_label :: "awdl_peer \<Rightarrow> u8 list" where
  "peer_label p = (if c_string (p_name p) = [] then ascii ''<UNNAMED>'' else c_string (p_name p)) @ ascii '': ''"

definition peer_text :: "awdl_peer \<Rightarrow> u8 list" where
  "peer_text p = peer_label p @ tree_text (p_election p)"

lemma tree_print:
  assumes "0 \<le> str" and "str + len \<le> int (length mem)"
  shows "awdl_election_tree_print state mem str len =
    Some (fst (shown (str + len) (tree_text state) (mem, str)), to_int (int (length (tree_text state))))"
proof -
  have "awdl_election_tree_print state mem str len =
      map_option (\<lambda>(mem, cur). (mem, to_int (cur - str))) (Some (shown (str + len) (tree_text state) (mem, str)))"
    by (simp add: awdl_election_tree_print_def Let_def put_text_shown [OF assms] put_text_append [OF assms] print_dashes [OF assms]
        tree_text_def del: map_option_eq_Some)
  then show ?thesis using shown_cur [of "str + len" "tree_text state" mem str] by (simp add: case_prod_unfold)
qed

lemma ascii_append: "ascii (s @ t) = ascii s @ ascii t"
  by (simp add: ascii_def)

lemma shown_then:
  assumes "0 \<le> str" and "end' \<le> int (length mem)" and "shown end' t (mem, str) = (mem', cur)"
  shows "shown end' u (mem', cur) = shown end' (t @ u) (mem, str)" and "0 \<le> cur" and "length mem' = length mem"
    and "cur = str + int (length t)"
  using shown_append [OF assms(1,2), of u t] shown_cur [of end' t mem str] shown_length [OF assms(1,2), of t] assms(1,3)
  by simp_all

lemma to_int_add: "to_int (a + to_int b) = to_int (a + b)"
proof -
  have "a + ((b + 2 ^ 31) mod 2 ^ 32 - 2 ^ 31) + 2 ^ 31 = a + (b + 2 ^ 31) mod 2 ^ 32" by simp
  then show ?thesis by (simp only: to_int_def mod_add_right_eq add.assoc)
qed

lemma peer_print:
  assumes "0 \<le> str" and "str + len \<le> int (length mem)" and "0 \<in> set (p_name p)" and "int_range (len - int (length (peer_label p)))"
  shows "awdl_peer_print p mem str len = Some (fst (shown (str + len) (peer_text p) (mem, str)), to_int (int (length (peer_text p))))"
proof -
  obtain mem' cur where l: "shown (str + len) (peer_label p) (mem, str) = (mem', cur)" by fastforce
  note nxt = shown_then [OF assms(1,2) l]
  have label: "(if length (c_string (p_name p)) \<noteq> 0 then put_text (str + len) (c_string (p_name p) @ ascii '': '') (Some (mem, str))
      else put_text (str + len) (ascii ''<UNNAMED>: '') (Some (mem, str))) = Some (mem', cur)"
    using ascii_append [of "''<UNNAMED>''" "'': ''"] l by (auto simp: put_text_shown [OF assms(1,2)] peer_label_def split: if_splits)
  have rest: "to_int (str + len - cur) = str + len - cur" using assms(4) by (intro to_int_id) (simp add: nxt(4))
  have "awdl_peer_print p mem str len =
      Some (fst (shown (str + len) (tree_text (p_election p)) (mem', cur)), to_int (cur + to_int (int (length (tree_text (p_election p)))) - str))"
    using assms(3) label tree_print [of cur "str + len - cur" mem' "p_election p"] nxt(2,3) assms(2)
    by (simp add: awdl_peer_print_def Let_def rest del: length_0_conv)
  moreover have "cur + to_int x - str = int (length (peer_label p)) + to_int x" for x by (simp add: nxt(4))
  ultimately show ?thesis by (simp add: nxt(1) peer_text_def to_int_add)
qed

definition peers_text :: "awdl_peer list \<Rightarrow> u8 list" where
  "peers_text ps = concat (map (\<lambda>p. peer_text p @ [10]) ps)"

lemma peers_print_step:
  assumes "0 \<le> cur" and "end' \<le> int (length mem)" and "0 \<in> set (p_name p)" and "end' \<le> INT_MAX"
    and "cur + int (length (peer_text p)) \<le> INT_MAX" and "0 \<le> end'"
  shows "snd (peers_print_body end' (Some p) (Some (mem, cur))) = Some (shown end' (peer_text p @ [10]) (mem, cur))"
proof -
  obtain mem' cur' where l: "shown end' (peer_text p) (mem, cur) = (mem', cur')" by fastforce
  note nxt = shown_then [OF assms(1,2) l]
  have range: "int_range (end' - cur)" "int_range (end' - cur - int (length (peer_label p)))" "int_range (int (length (peer_text p)))"
    using assms(1,4-6) by (simp_all add: int_range_simps peer_text_def)
  then have "awdl_peer_print p mem cur (to_int (end' - cur)) = Some (mem', int (length (peer_text p)))"
    using peer_print [of cur "end' - cur" mem p] assms(1-3) l by (simp add: to_int_id)
  then show ?thesis
    using put_text_append [OF assms(1,2), of "[10]" "peer_text p"] l nxt(4) by (simp add: peers_print_body_def)
qed

lemma peers_print_fold:
  assumes "0 \<le> str" and "end' \<le> int (length mem)" and "\<forall>p\<in>set ps. 0 \<in> set (p_name p)" and "0 \<le> end'" and "end' \<le> INT_MAX"
    and "str + int (length (t @ peers_text ps)) \<le> INT_MAX"
  shows "foldl (\<lambda>s p. snd (peers_print_body end' (Some p) s)) (Some (shown end' t (mem, str))) ps =
    Some (shown end' (t @ peers_text ps) (mem, str))"
  using assms(3,6)
proof (induction ps arbitrary: t)
  case (Cons p ps)
  obtain mem' cur where l: "shown end' t (mem, str) = (mem', cur)" by fastforce
  note nxt = shown_then [OF assms(1,2) l]
  have "snd (peers_print_body end' (Some p) (Some (mem', cur))) = Some (shown end' (t @ peer_text p @ [10]) (mem, str))"
    using peers_print_step [OF nxt(2), of end' mem' p] nxt(1,3,4) assms(2,4,5) Cons.prems by (simp add: peers_text_def)
  then show ?case using Cons.IH [of "t @ peer_text p @ [10]"] Cons.prems l by (simp add: peers_text_def)
qed (simp add: peers_text_def)

text \<open>A loop over the table as a fold over its peers.\<close>

lemma peers_print_loop:
  assumes "peers_inv L m"
  shows "awdl_peers_print m mem 0 (int (length mem)) = map_option (\<lambda>(mem, cur). (mem, to_int cur))
    (foldl (\<lambda>s p. snd (peers_print_body (int (length mem)) (Some p) s)) (Some (mem, 0)) (peers_list m))"
proof -
  have inv: "hm_inv m" using assms by (simp add: peers_inv_def hm_ok_def)
  have body: "\<not> fst (peers_print_body (int (length mem)) v s)" for v s by (simp add: peers_print_body_def)
  have "foldl (\<lambda>s e. snd (peers_print_body (int (length mem)) (snd e) s)) z (hm_entries m) =
      foldl (\<lambda>s p. snd (peers_print_body (int (length mem)) (Some p) s)) z (peers_list m)" for z
    by (subst peers_list_entries [OF assms]) (simp add: foldl_map)
  then show ?thesis by (simp add: awdl_peers_print_def it_loop_read [OF inv body])
qed

section \<open>Properties\<close>

text \<open>C30. Printing the peers into a buffer, both shorter than the largest \<^verbatim>\<open>int\<close>, is defined and never writes outside of
  the buffer. With names that are terminated and at least one
  peer, the buffer then holds the listing (one line per peer in table order, with its name or a place holder, its own
  address, the path to its master and the metrics) as a terminated string, cut to the size of the buffer, the bytes behind it
  unchanged; and the result is the length of the whole listing, so it tells whether the buffer was large enough. For an empty
  table nothing is written, not even a terminator.\<close>

theorem awdl_peers_print_correct:
  assumes "peers_inv L m" and "\<forall>p\<in>set (peers_list m). 0 \<in> set (p_name p)" and "0 < length mem"
    and "int (length mem) \<le> INT_MAX" and "int (length (peers_text (peers_list m))) \<le> INT_MAX"
  shows "let text = peers_text (peers_list m); shown = take (length mem - 1) text in
    awdl_peers_print m mem 0 (int (length mem)) =
      Some (if peers_list m = [] then mem else shown @ [0] @ drop (length shown + 1) mem, int (length text))"
proof (cases "peers_list m")
  case Nil
  then show ?thesis by (simp add: peers_print_loop [OF assms(1)] peers_text_def to_int_id int_range_simps)
next
  case (Cons p ps)
  let ?text = "peers_text (peers_list m)" and ?stop = "int (length mem)"
  have names: "0 \<in> set (p_name p)" "\<forall>p\<in>set ps. 0 \<in> set (p_name p)" using assms(2) Cons by simp_all
  have "foldl (\<lambda>s p. snd (peers_print_body ?stop (Some p) s)) (Some (mem, 0)) (peers_list m) = Some (shown ?stop ?text (mem, 0))"
    using peers_print_step [of 0 ?stop mem p] peers_print_fold [of 0 ?stop mem ps "peer_text p @ [10]"] names assms(4,5)
    by (simp add: Cons peers_text_def)
  then show ?thesis
    using Cons assms(3,5) by (simp add: peers_print_loop [OF assms(1)] shown_def Let_def to_int_id int_range_simps)
qed

text \<open>The bound is needed: a peer announces its height in the tree, and a height close to the largest value of 32 bits makes its line
  longer than the largest \<^verbatim>\<open>int\<close>. The length of the line is then returned as a negative number, the
  position moves in front of the buffer, and the line break is written there.\<close>

theorem awdl_peers_print_wraps:
  assumes "peers_inv L m" and "peers_list m = [p]" and "0 \<in> set (p_name p)" and "int (length mem) \<le> INT_MAX"
    and "int (length (peer_label p)) \<le> INT_MAX" and "INT_MAX < int (length (peer_text p))" and "length (peer_text p) < 2 ^ 32"
  shows "awdl_peers_print m mem 0 (int (length mem)) = None"
proof -
  let ?n = "int (length (peer_text p))"
  have "?n < 2 ^ 32" using assms(7) by (metis of_nat_less_iff of_nat_numeral of_nat_power)
  moreover have "(?n + 2 ^ 31) mod 2 ^ 32 = ?n + 2 ^ 31 - 2 ^ 32"
    using calculation assms(6) by (subst mod_pos_geq) (simp_all add: INT_MAX_def)
  ultimately have neg: "to_int ?n < 0" by (simp add: to_int_def)
  have "awdl_peer_print p mem 0 (int (length mem)) = Some (fst (shown (int (length mem)) (peer_text p) (mem, 0)), to_int ?n)"
    using peer_print [of 0 "int (length mem)" mem p] assms(3-5) by (simp add: int_range_simps)
  moreover have "to_int (int (length mem)) = int (length mem)" using assms(4) by (intro to_int_id) (simp add: int_range_simps)
  moreover have "put_text (int (length mem)) [10] (Some (x, to_int ?n)) = None" for x
    using neg by (simp add: put_text_def snprintf_def Let_def)
  ultimately show ?thesis by (simp add: peers_print_loop [OF assms(1)] assms(2) peers_print_body_def)
qed

theorem awdl_peers_print_correct_witness:
  "awdl_peers_print sample_table (replicate 30 0xff) 0 30 =
     Some (ascii ''<UNNAMED>: 2:0:0:0:0:2 (met 6'' @ [0], 39)"
proof -
  let ?p = "peer_refresh 42 (the (awdl_peer_new (Some sample_junk) sample_peer_addr))"
  have addr: "p_addr ?p = sample_peer_addr" by (simp add: awdl_peer_new_def)
  have "p \<in> set (peers_list sample_table) \<longleftrightarrow> p = ?p" for p
    unfolding peers_list_set [OF sample_table_ok(1)] sample_table_ok(2) using addr by (cases "p_addr p = sample_peer_addr") (simp, rule eq_commute, force)
  then have "set (peers_list sample_table) = {?p}" by blast
  moreover have "distinct (peers_list sample_table)" using peers_list_distinct [OF sample_table_ok(1)] by (simp add: distinct_map)
  ultimately have "length (peers_list sample_table) = 1" "set (peers_list sample_table) = {?p}" using distinct_card by fastforce+
  then have ps: "peers_list sample_table = [?p]" by (auto simp: length_Suc_conv)
  have name: "p_name ?p = 0 # replicate 64 0xff" by (simp add: peer_refresh_def awdl_peer_new_def sample_junk_def)
  have lines: "peers_text [?p] = ascii ''<UNNAMED>: 2:0:0:0:0:2 (met 60, ctr 0)'' @ [10]"
    unfolding peers_text_def peer_text_def peer_label_def name by code_simp
  have "length (peers_text [?p]) = 39" "take 29 (peers_text [?p]) = ascii ''<UNNAMED>: 2:0:0:0:0:2 (met 6''"
    unfolding lines by code_simp+
  then show ?thesis
    using awdl_peers_print_correct [OF sample_table_ok(1), of "replicate 30 0xff"] by (simp add: ps name Let_def INT_MAX_def)
qed

text \<open>The version string is the decimal major and minor number with a dot between them, terminated, within
  the static buffer, for every version byte.\<close>

theorem awdl_version_to_str_correct:
  assumes "length str = 64"
  shows "\<exists>rest. awdl_version_to_str str version =
    Some (number 10 (unat version div 16) @ ascii ''.'' @ number 10 (unat version mod 16) @ [0] @ rest) \<and>
    length (number 10 (unat version div 16) @ ascii ''.'' @ number 10 (unat version mod 16) @ [0] @ rest) = 64"
proof -
  let ?text = "number 10 (unat version div 16) @ ascii ''.'' @ number 10 (unat version mod 16)"
  have masks: "version AND 0xf = take_bit 4 version" "drop_bit 4 version AND 0xf = take_bit 4 (drop_bit 4 version)"
    by (simp_all add: take_bit_eq_mask mask_eq_exp_minus_1)
  have "unat version div 16 < 16" using unat_u8_less [of version] by simp
  then have parts: "nat (awdl_version_major version) = unat version div 16" "nat (awdl_version_minor version) = unat version mod 16"
    unfolding awdl_version_major_def awdl_version_minor_def masks
    by (simp_all add: unsigned_take_bit_eq unsigned_drop_bit_eq take_bit_eq_mod drop_bit_eq_div nat_mod_distrib nat_div_distrib unat_mod unat_div flip: unat_eq_nat_uint)
  have short: "length (number 10 n) \<le> 2" if "n < 100" for n
  proof -
    have "n div 10 < 10" using that by (simp add: less_mult_imp_div_less)
    then show ?thesis by (simp add: number.simps [of 10 n] number.simps [of 10 "n div 10"])
  qed
  have "unat version mod 16 < 100" using mod_less_divisor [of 16 "unat version"] by linarith
  then have len: "length ?text \<le> 5"
    using short [of "unat version div 16"] short [of "unat version mod 16"] \<open>unat version div 16 < 16\<close> by (simp add: ascii_def)
  have "put_raw 64 t (Some (str, 0)) = Some (shown 64 t (str, 0))" for t
    using put_text_shown [of 0 64 str t] assms by (simp add: put_raw_def put_text_def)
  then have "awdl_version_to_str str version = Some (fst (shown 64 ?text (str, 0)))"
    using assms len by (simp add: awdl_version_to_str_def parts put_raw_append)
  also have "fst (shown 64 ?text (str, 0)) = ?text @ [0] @ drop (Suc (length ?text)) str"
    using len by (simp add: shown_def Let_def)
  finally show ?thesis using len assms by (intro exI [of _ "drop (Suc (length ?text)) str"]) simp
qed

theorem awdl_version_to_str_correct_witness:
  "map_option (take 4) (awdl_version_to_str (replicate 64 0xff) 0x34) = Some (ascii ''3.4'' @ [0])"
proof -
  have "number 10 3 = ascii ''3''" "number 10 4 = ascii ''4''" by code_simp+
  then show ?thesis using awdl_version_to_str_correct [of "replicate 64 0xff" "0x34"] by (auto simp: ascii_def)
qed

end
