(* ===== verification/Log.thy ===== *)
theory Log
  imports Owl Print
begin

text \<open>
  Model of \<^verbatim>\<open>src/src/log.c\<close>, built without \<^verbatim>\<open>LOG_USE_COLOR\<close>, and of the statistics that \<^verbatim>\<open>awdl_print_stats\<close> of
  \<^verbatim>\<open>src/daemon/core.c\<close> writes with it. The logger's static struct is a record; streams and the lock hook are
  identified by numbers, and the calls of the lock hook and of the standard output functions, one by one, are the list of its
  outputs. A message is the text that \<^verbatim>\<open>vfprintf\<close> makes of the format and its arguments.
\<close>

section \<open>The state of the logger\<close>

record log_state =
  lg_udata :: int
  lg_lock :: "nat option"
  lg_fp :: "nat option"
  lg_level :: int
  lg_quiet :: bool






definition log_set_udata :: "int \<Rightarrow> log_state \<Rightarrow> log_state" where
  "log_set_udata udata L = L\<lparr>lg_udata := udata\<rparr>"

definition log_set_lock :: "nat option \<Rightarrow> log_state \<Rightarrow> log_state" where
  "log_set_lock fn L = L\<lparr>lg_lock := fn\<rparr>"

definition log_set_fp :: "nat option \<Rightarrow> log_state \<Rightarrow> log_state" where
  "log_set_fp fp L = L\<lparr>lg_fp := fp\<rparr>"


definition log_set_quiet :: "int \<Rightarrow> log_state \<Rightarrow> log_state" where
  "log_set_quiet enable L = L\<lparr>lg_quiet := (enable \<noteq> 0)\<rparr>"

section \<open>Writing a message\<close>











section \<open>The statistics\<close>





section \<open>The levels\<close>










section \<open>Properties\<close>




end
