(* ===== verification/Exchange.thy ===== *)
theory Exchange
  imports Rx_Action
begin

text \<open>
  What a node learns from an action frame of another node: the frame that \<^verbatim>\<open>src/src/tx.c\<close> builds from the sender's
  state, received by \<^verbatim>\<open>src/src/rx.c\<close>, leaves in the receiver's peer table the sender's election state, channel sequence,
  version, device class and, after a MIF, name.
\<close>

section \<open>The values of the TLVs\<close>

lemma version_value: "drop 3 (awdl_init_version_tlv s) = [st_version s, st_dev_class s]"
  by (simp add: awdl_init_version_tlv_def awdl_version_tlv_bytes_def le16_bytes_def)

lemma election_value:
  "drop 3 (awdl_init_election_params_tlv s) =
     [0, 0, 0, ucast (el_height (st_election s)), 0] @ ether_bytes (el_master_addr (st_election s)) @
     le32_bytes (el_master_metric (st_election s)) @ le32_bytes (el_self_metric (st_election s)) @ [0, 0]"
  by (simp add: awdl_init_election_params_tlv_def awdl_election_params_tlv_bytes_def le16_bytes_def)

lemma election_v2_value:
  "drop 3 (awdl_init_election_params_v2_tlv s) =
     (let e = st_election s in
      ether_bytes (el_master_addr e) @ ether_bytes (el_sync_addr e) @ le32_bytes (el_master_counter e) @ le32_bytes (el_height e) @
      le32_bytes (el_master_metric e) @ le32_bytes (el_self_metric e) @ le32_bytes 0 @ le32_bytes 0 @ le32_bytes (el_self_counter e))"
  by (simp add: awdl_init_election_params_v2_tlv_def awdl_election_params_v2_tlv_bytes_def le16_bytes_def Let_def)

lemma data_path_value:
  "\<exists>rest. drop 3 (awdl_init_data_path_state_tlv s) = le16_bytes 0x8f24 @ [0x58, 0x30, 0] @ rest \<and> 8 \<le> length rest"
  by (auto simp: awdl_init_data_path_state_tlv_def awdl_data_path_state_tlv_bytes_def le16_bytes_def Let_def)

section \<open>The handlers on these values\<close>

text \<open>The handler of a TLV turns a record and a state into others, whatever buffer holds the value.\<close>

definition handles ::
  "rx_env \<Rightarrow> u64 \<Rightarrow> awdl_tlvs \<Rightarrow> u8 list \<Rightarrow> awdl_peer \<Rightarrow> awdl_state \<Rightarrow> awdl_peer \<Rightarrow> awdl_state \<Rightarrow> bool" where
  "handles env tsft t bs p r p' r' \<longleftrightarrow>
     (\<forall>val. buf_wf val \<and> buf_bytes val = drop 3 bs \<longrightarrow>
        (\<exists>result. awdl_handle_tlv env p (awdl_tlv_code t) val r tsft = Some (result, p', r') \<and> 0 \<le> rx_code result))"

lemma handle_cases:
  "awdl_handle_tlv env p (awdl_tlv_code AWDL_SYNCHRONIZATON_PARAMETERS_TLV) val r tsft =
     map_option (\<lambda>(result, state). (result, p, state)) (awdl_handle_sync_params_tlv p val r tsft)"
  "awdl_handle_tlv env p (awdl_tlv_code AWDL_CHAN_SEQ_TLV) val r tsft = with_state r (awdl_handle_chanseq_tlv env p val r)"
  "awdl_handle_tlv env p (awdl_tlv_code AWDL_ELECTION_PARAMETERS_TLV) val r tsft = with_state r (awdl_handle_election_params_tlv p val r)"
  "awdl_handle_tlv env p (awdl_tlv_code AWDL_ELECTION_PARAMETERS_V2_TLV) val r tsft = with_state r (awdl_handle_election_params_v2_tlv p val r)"
  "awdl_handle_tlv env p (awdl_tlv_code AWDL_ARPA_TLV) val r tsft = with_state r (awdl_handle_arpa_tlv p val r)"
  "awdl_handle_tlv env p (awdl_tlv_code AWDL_DATA_PATH_STATE_TLV) val r tsft = with_state r (awdl_handle_data_path_state_tlv p val r)"
  "awdl_handle_tlv env p (awdl_tlv_code AWDL_VERSION_TLV) val r tsft = with_state r (awdl_handle_version_tlv p val r)"
  "awdl_handle_tlv env p (awdl_tlv_code AWDL_SERVICE_PARAMETERS_TLV) val r tsft = Some (RX_IGNORE, p, r)"
  "awdl_handle_tlv env p (awdl_tlv_code AWDL_ENHANCED_DATA_RATE_CAPABILITIES_TLV) val r tsft = Some (RX_IGNORE, p, r)"
  unfolding awdl_handle_tlv_def awdl_tlv_of_code by simp_all

lemma handlesI:
  assumes "\<And>val. buf_wf val \<Longrightarrow> buf_bytes val = drop 3 bs \<Longrightarrow> awdl_handle_tlv env p (awdl_tlv_code t) val r tsft = Some (result, p', r')"
    and "0 \<le> rx_code result"
  shows "handles env tsft t bs p r p' r'"
  using assms by (auto simp: handles_def)

lemma handles_version:
  "handles env tsft AWDL_VERSION_TLV (awdl_init_version_tlv s) p r (p\<lparr>p_version := st_version s, p_devclass := st_dev_class s\<rparr>) r"
  by (rule handlesI [where result = RX_OK], unfold handle_cases)
    (simp_all add: with_state_def awdl_handle_version_tlv_def checked_fields INT_MAX_def version_value)

lemma handles_ignored:
  "handles env tsft AWDL_SERVICE_PARAMETERS_TLV bs p r p r"
  "handles env tsft AWDL_ENHANCED_DATA_RATE_CAPABILITIES_TLV bs p r p r"
  by (rule handlesI [where result = RX_IGNORE], unfold handle_cases, simp_all)+

lemma handles_election:
  "\<exists>e. el_self_addr e = el_self_addr (p_election p) \<and>
     handles env tsft AWDL_ELECTION_PARAMETERS_TLV (awdl_init_election_params_tlv s) p r (p\<lparr>p_election := e\<rparr>) r"
proof (cases "p_supports_v2 p")
  case True
  show ?thesis
    by (rule exI [of _ "p_election p"], rule conjI [OF refl], rule handlesI [where result = RX_OK], unfold handle_cases)
      (simp_all add: True with_state_def awdl_handle_election_params_tlv_def)
next
  case False
  let ?e = "st_election s"
  show ?thesis
    by (rule exI [of _ "(p_election p)\<lparr>el_height := ucast (ucast (el_height ?e) :: u8), el_master_addr := el_master_addr ?e,
          el_master_metric := el_master_metric ?e, el_self_metric := el_self_metric ?e\<rparr>"],
        rule conjI, simp, rule handlesI [where result = RX_OK], unfold handle_cases)
      (simp_all add: False with_state_def awdl_handle_election_params_tlv_def Let_def checked_fields INT_MAX_def
        election_value nth_append)
qed

lemma handles_election_v2:
  "handles env tsft AWDL_ELECTION_PARAMETERS_V2_TLV (awdl_init_election_params_v2_tlv s) p r
     (p\<lparr>p_election := (st_election s)\<lparr>el_self_addr := el_self_addr (p_election p)\<rparr>, p_supports_v2 := True\<rparr>) r"
  by (rule handlesI [where result = RX_OK], unfold handle_cases)
    (simp_all add: with_state_def awdl_handle_election_params_v2_tlv_def Let_def checked_fields INT_MAX_def
      election_v2_value)

lemma handles_data_path:
  assumes "length (p_country_code p) = 3"
  shows "handles env tsft AWDL_DATA_PATH_STATE_TLV (awdl_init_data_path_state_tlv s) p r (p\<lparr>p_country_code := [0x58, 0x30, 0]\<rparr>) r"
proof -
  obtain rest where v: "drop 3 (awdl_init_data_path_state_tlv s) = le16_bytes 0x8f24 @ [0x58, 0x30, 0] @ rest" "8 \<le> length rest"
    using data_path_value by blast
  show ?thesis
    by (rule handlesI [where result = RX_OK], unfold handle_cases)
      (use v(2) assms in \<open>simp_all add: with_state_def awdl_handle_data_path_state_tlv_def optional_field_def
        checked_fields checked_read_bytes INT_MAX_def v(1) AWDL_DATA_PATH_FLAG_COUNTRY_CODE_def AWDL_DATA_PATH_FLAG_SOCIAL_CHANNEL_MAP_def
        AWDL_DATA_PATH_FLAG_INFRA_INFO_def AWDL_DATA_PATH_FLAG_INFRA_ADDRESS_def AWDL_DATA_PATH_FLAG_AWDL_ADDRESS_def\<close>)
qed

text \<open>What the clock becomes on a frame of the synchronisation master.\<close>

definition adopt_clock :: "u64 \<Rightarrow> awdl_sync_state \<Rightarrow> u64 \<Rightarrow> awdl_sync_state \<Rightarrow> awdl_sync_state" where
  "adopt_clock now master tsft sync =
     (let ttn = awdl_sync_next_aw_tu now master; aw = awdl_sync_current_aw now master;
          sync = sync\<lparr>sy_meas_total := sy_meas_total sync + 1\<rparr>;
          err = awdl_sync_error_tu tsft ttn aw sync in
      awdl_sync_update_last tsft ttn aw
        (if err > AWDL_SYNC_THRESHOLD \<or> err < - AWDL_SYNC_THRESHOLD then sync\<lparr>sy_meas_err := sy_meas_err sync + 1\<rparr> else sync))"

lemma sync_value:
  "\<exists>a b c. drop 3 (awdl_init_sync_params_tlv now s) =
     [a] @ le16_bytes (awdl_sync_next_aw_tu now (st_sync s)) @ b @ le16_bytes (awdl_sync_current_aw now (st_sync s)) @ c \<and> length b = 26"
proof -
  have fields: "\<exists>a b c. drop 3 (awdl_sync_params_tlv_bytes p @ rest) =
      [a] @ le16_bytes (sp_tx_down_counter p) @ b @ le16_bytes (sp_next_aw_seq p) @ c \<and> length b = 26" for p rest
    by (rule exI [of _ "sp_next_aw_channel p"],
        rule exI [of _ "[sp_master_channel p, sp_guard_time p] @ le16_bytes (sp_aw_period p) @ le16_bytes (sp_af_period p) @
          le16_bytes (sp_flags p) @ le16_bytes (sp_aw_ext_length p) @ le16_bytes (sp_aw_com_length p) @
          le16_bytes (sp_remaining_aw_length p) @ [sp_min_ext p, sp_max_ext_multicast p, sp_max_ext_unicast p, sp_max_ext_af p] @
          ether_bytes (sp_master_addr p) @ [sp_presence_mode p, sp_reserved p]"],
        rule exI [of _ "le16_bytes (sp_ap_alignment p) @ rest"])
      (simp add: awdl_sync_params_tlv_bytes_def le16_bytes_def [of "sp_length p"])
  have "\<exists>p rest. awdl_init_sync_params_tlv now s = awdl_sync_params_tlv_bytes p @ rest \<and>
      sp_tx_down_counter p = awdl_sync_next_aw_tu now (st_sync s) \<and> sp_next_aw_seq p = awdl_sync_current_aw now (st_sync s)"
    unfolding awdl_init_sync_params_tlv_def Let_def by (intro exI conjI, rule refl, simp_all)
  with fields show ?thesis by metis
qed

lemma handles_sync:
  "handles env tsft AWDL_SYNCHRONIZATON_PARAMETERS_TLV (awdl_init_sync_params_tlv now s) p r p
     (if el_sync_addr (st_election r) = p_addr p then r\<lparr>st_sync := adopt_clock now (st_sync s) tsft (st_sync r)\<rparr> else r)"
proof (cases "el_sync_addr (st_election r) = p_addr p")
  case True
  obtain a b c where v: "drop 3 (awdl_init_sync_params_tlv now s) =
     [a] @ le16_bytes (awdl_sync_next_aw_tu now (st_sync s)) @ b @ le16_bytes (awdl_sync_current_aw now (st_sync s)) @ c" "length b = 26"
    using sync_value by blast
  show ?thesis
    by (rule handlesI [where result = RX_OK], unfold handle_cases)
      (use True v(2) in \<open>simp_all add: awdl_handle_sync_params_tlv_def checked_fields INT_MAX_def v(1) Let_def adopt_clock_def\<close>)
next
  case False
  show ?thesis
    by (rule handlesI [where result = RX_IGNORE], unfold handle_cases)
      (use False in \<open>simp_all add: awdl_handle_sync_params_tlv_def\<close>)
qed

lemma read_chanseq_chunks:
  assumes "buf_wf val" and "buf_bytes val = pre @ concat (map awdl_chan_bytes cs) @ rest" and "offset = int (length pre)"
    and "length pre + 2 * length cs < 1000"
  shows "read_chanseq val 2 junk (length cs) i offset acc err continue = continue (acc @ cs)"
  using assms(2-4)
proof (induction cs arbitrary: pre offset acc i)
  case (Cons c cs)
  have rd: "checked (read_bytes_copy val offset 2) err k = k (awdl_chan_bytes c)" for k
    using Cons.prems assms(1) by (simp add: checked_read_bytes INT_MAX_def awdl_chan_bytes_def)
  have "read_chanseq val 2 junk (length cs) (i + 1) (offset + 2) (acc @ [c]) err continue = continue ((acc @ [c]) @ cs)"
    using Cons.prems by (intro Cons.IH [of "pre @ awdl_chan_bytes c"]) (simp_all add: awdl_chan_bytes_def)
  moreover have "\<lparr>chan_val0 = awdl_chan_bytes c ! 0, chan_val1 = awdl_chan_bytes c ! 1\<rparr> = c"
    by (simp add: awdl_chan_bytes_def)
  ultimately show ?case by (simp add: rd)
qed simp

lemma chanseq_value:
  assumes "ch_enc (st_channel s) = AWDL_CHAN_ENC_OPCLASS" and "length (ch_sequence (st_channel s)) = AWDL_CHANSEQ_LENGTH"
  shows "drop 3 (awdl_init_chanseq_tlv s) =
    ([15, 3, 0, 3] @ le16_bytes 0xffff) @ concat (map awdl_chan_bytes (ch_sequence (st_channel s))) @ [0, 0, 0]"
proof -
  have "map (\<lambda>i. take 2 (awdl_chan_bytes (ch_sequence (st_channel s) ! i))) [0..<AWDL_CHANSEQ_LENGTH] =
      map awdl_chan_bytes (map (\<lambda>i. ch_sequence (st_channel s) ! i) [0..<length (ch_sequence (st_channel s))])"
    unfolding assms(2) by (simp add: awdl_chan_bytes_def comp_def)
  also have "\<dots> = map awdl_chan_bytes (ch_sequence (st_channel s))" unfolding map_nth ..
  finally show ?thesis
    by (simp add: awdl_init_chanseq_tlv_def awdl_chanseq_tlv_bytes_def awdl_init_chanseq_def awdl_chanseq_bytes_def assms(1) Let_def
        awdl_chan_encoding_length_def le16_bytes_def [of "of_nat _"] AWDL_CHANSEQ_LENGTH_def)
qed

lemma handles_chanseq:
  assumes "ch_enc (st_channel s) = AWDL_CHAN_ENC_OPCLASS" and "length (ch_sequence (st_channel s)) = AWDL_CHANSEQ_LENGTH"
    and "sy_presence_mode (st_sync r) = 4"
  shows "handles env tsft AWDL_CHAN_SEQ_TLV (awdl_init_chanseq_tlv s) p r (p\<lparr>p_sequence := ch_sequence (st_channel s)\<rparr>) r"
proof (rule handlesI [where result = RX_OK], unfold handle_cases)
  fix val
  assume val: "buf_wf val" "buf_bytes val = drop 3 (awdl_init_chanseq_tlv s)"
  note v = val(2) [unfolded chanseq_value [OF assms(1,2)]]
  have len: "length (buf_bytes val) = 41"
    unfolding v using length_concat_const [of "ch_sequence (st_channel s)" awdl_chan_bytes 2] assms(2)
    by (simp add: awdl_chan_bytes_def AWDL_CHANSEQ_LENGTH_def)
  have enc: "awdl_chan_encoding_size (awdl_chan_encoding_of 3) = 2"
    by (simp add: awdl_chan_encoding_of_def awdl_chan_encoding_size_def)
  have seq: "read_chanseq val 2 junk AWDL_CHANSEQ_LENGTH 0 6 [] err k = k (ch_sequence (st_channel s))" for junk err k
    using read_chanseq_chunks [OF val(1) v, of 6 junk 0 "[]" err k] assms(2) by (simp add: AWDL_CHANSEQ_LENGTH_def)
  have hd: "buf_bytes val ! 0 = 15" "buf_bytes val ! 1 = 3" "buf_bytes val ! 2 = 0" "buf_bytes val ! 3 = 3"
    "take 2 (drop 4 (buf_bytes val)) = le16_bytes 0xffff"
    unfolding v by (simp_all add: nth_append)
  show "with_state r (awdl_handle_chanseq_tlv env p val r) = Some (RX_OK, p\<lparr>p_sequence := ch_sequence (st_channel s)\<rparr>, r)"
    using val(1) len hd assms(3)
    by (simp add: awdl_handle_chanseq_tlv_def with_state_def checked_fields INT_MAX_def Let_def
        seq [unfolded AWDL_CHANSEQ_LENGTH_def] enc AWDL_CHANSEQ_LENGTH_def)
qed simp

lemma handles_arpa:
  assumes "awdl_init_arpa_tlv s = Some bs" and "length (st_name s) = HOST_NAME_LENGTH_MAX + 1" and "length (p_name p) = HOST_NAME_LENGTH_MAX + 1"
  shows "handles env tsft AWDL_ARPA_TLV bs p r
    (p\<lparr>p_name := c_string (st_name s) @ 0 # drop (length (c_string (st_name s)) + 1) (p_name p)\<rparr>) r"
proof (rule handlesI [where result = RX_OK], unfold handle_cases)
  fix val
  assume val: "buf_wf val" "buf_bytes val = drop 3 bs"
  let ?name = "c_string (st_name s)"
  from assms(1) have "0 \<in> set (st_name s)" by (auto simp: awdl_init_arpa_tlv_def awdl_arpa_tlv_bytes_def split: if_splits)
  then have len: "length ?name \<le> 64" using c_string_short [of 65 "st_name s"] assms(2) by (simp add: HOST_NAME_LENGTH_MAX_def)
  have v: "buf_bytes val = 3 # of_nat (length ?name) # ?name @ be16_bytes AWDL_DNS_SHORT_LOCAL"
    using assms(1) val(2) by (auto simp: awdl_init_arpa_tlv_def awdl_arpa_tlv_bytes_def Let_def le16_bytes_def split: if_splits)
  have n: "unat (of_nat (length ?name) :: u8) = length ?name" using len by (simp add: unat_of_nat)
  have "read_int_string val 1 (p_name p) 64 = Ret (int (length ?name) + 1) (?name @ 0 # drop (length ?name + 1) (p_name p))"
    using read_int_string_wf [OF val(1), of 1 64 "p_name p"] assms(3) len
    by (simp add: Let_def v n HOST_NAME_LENGTH_MAX_def INT_MAX_def)
  then show "with_state r (awdl_handle_arpa_tlv p val r) =
      Some (RX_OK, p\<lparr>p_name := ?name @ 0 # drop (length ?name + 1) (p_name p)\<rparr>, r)"
    by (simp add: with_state_def awdl_handle_arpa_tlv_def checked_def HOST_NAME_LENGTH_MAX_def)
qed simp

section \<open>A sequence of TLVs\<close>

inductive handles_all ::
  "rx_env \<Rightarrow> u64 \<Rightarrow> (awdl_tlvs \<times> u8 list) list \<Rightarrow> awdl_peer \<Rightarrow> awdl_state \<Rightarrow> awdl_peer \<Rightarrow> awdl_state \<Rightarrow> bool"
  for env tsft where
  none: "handles_all env tsft [] p r p r"
| more: "handles env tsft t bs p r p1 r1 \<Longrightarrow> tlv_framed t bs \<Longrightarrow> handles_all env tsft ts p1 r1 p2 r2 \<Longrightarrow>
    handles_all env tsft ((t, bs) # ts) p r p2 r2"

lemma rx_tlvs_handles_all:
  assumes "handles_all env tsft ts p r p' r'" and "buf_wf frame" and "buf_bytes frame = concat (map snd ts)"
  shows "\<exists>frame' events'. rx_tlvs env tsft frame p r events = Some (False, frame', p', r', events') \<and> buf_len frame' = 0"
  using assms
proof (induction arbitrary: frame events rule: handles_all.induct)
  case (none p r)
  then have "read_tlv frame 0 = Err OUT_OF_BOUNDS" by (intro read_tlv_None) (simp_all add: tlv_view_def)
  moreover have "buf_len frame = 0" using none b_len_eq [of frame] by (simp add: buf_len_def)
  ultimately show ?case by (simp add: rx_tlvs.simps [of _ _ frame])
next
  case (more t bs p r p1 r1 ts p2 r2)
  let ?v = "drop 3 bs"
  have view: "tlv_view (buf_bytes frame) = Some (awdl_tlv_code t, ?v, concat (map snd ts))"
    using tlv_framed_view [OF more.hyps(2)] more.prems(2) by simp
  note rd = read_tlv_Some [OF more.prems(1) view]
  have len: "length ?v < 65536" using tlv_view_length [OF view] by simp
  obtain val where val: "buf_new_const (drop 3 (buf_data frame)) (int (length ?v)) = Some val" "buf_wf val" "buf_bytes val = ?v"
    using rd(2,3) len buf_new_const_wf [of "drop 3 (buf_data frame)" "int (length ?v)"]
    by (auto simp: buf_new_const_def INT_MAX_def)
  obtain result where h: "awdl_handle_tlv env p (awdl_tlv_code t) val r tsft = Some (result, p1, r1)" "0 \<le> rx_code result"
    using more.hyps(1) val(2,3) by (auto simp: handles_def)
  have "length ?v + 3 \<le> length (buf_bytes frame)" using tlv_view_length [OF view] by simp
  from buf_strip_ok [OF more.prems(1) this] obtain frame1 where
    strip: "buf_strip frame (int (length ?v) + 3) = Ret (int (length ?v) + 3) frame1" "buf_wf frame1"
      "buf_bytes frame1 = concat (map snd ts)"
    using tlv_view_rest [OF view] by (auto simp: add.commute)
  have "uint (of_nat (length ?v) :: u16) = int (length ?v)" using len by (simp add: uint_nat unat_of_nat)
  with rd(1) val(1) h strip(1) obtain events1 where
    "rx_tlvs env tsft frame p r events = rx_tlvs env tsft frame1 p1 r1 events1"
    by (auto simp: rx_tlvs.simps [of _ _ frame] Let_def)
  with more.IH [OF strip(2,3)] show ?case by simp
qed

section \<open>An action frame\<close>

text \<open>What the receiver knows of the sender after the frame.\<close>

definition learned :: "awdl_state \<Rightarrow> awdl_action_type \<Rightarrow> awdl_peer \<Rightarrow> awdl_peer" where
  "learned s type p =
     p\<lparr>p_election := (st_election s)\<lparr>el_self_addr := el_self_addr (p_election p)\<rparr>, p_supports_v2 := True,
       p_sequence := ch_sequence (st_channel s), p_version := st_version s, p_devclass := st_dev_class s,
       p_country_code := [0x58, 0x30, 0],
       p_name := (if type = AWDL_ACTION_MIF
         then c_string (st_name s) @ 0 # drop (length (c_string (st_name s)) + 1) (p_name p) else p_name p)\<rparr>"

definition synced :: "u64 \<Rightarrow> awdl_state \<Rightarrow> u64 \<Rightarrow> ether_addr \<Rightarrow> awdl_state \<Rightarrow> awdl_state" where
  "synced now s tsft src r =
     (if el_sync_addr (st_election r) = src then r\<lparr>st_sync := adopt_clock now (st_sync s) tsft (st_sync r)\<rparr> else r)"

lemma adopt_clock_presence: "sy_presence_mode (adopt_clock now master tsft sync) = sy_presence_mode sync"
  by (simp add: adopt_clock_def Let_def awdl_sync_update_last_def)

lemma adopt_clock_update:
  assumes "sync_ok sync"
  shows "\<exists>sync'. sync_ok sync' \<and>
    adopt_clock now master tsft sync = awdl_sync_update_last tsft (awdl_sync_next_aw_tu now master) (awdl_sync_current_aw now master) sync'"
  unfolding adopt_clock_def Let_def using assms by (intro exI conjI, rule_tac [2] refl) simp

text \<open>A sender as the daemon sets it up: the channels are written with their operating class, and the name is a string.\<close>

definition sender_ok :: "awdl_state \<Rightarrow> bool" where
  "sender_ok s \<longleftrightarrow> ch_enc (st_channel s) = AWDL_CHAN_ENC_OPCLASS \<and> length (ch_sequence (st_channel s)) = AWDL_CHANSEQ_LENGTH \<and>
     length (st_name s) = HOST_NAME_LENGTH_MAX + 1 \<and> el_self_addr (st_election s) = st_self_address s"

lemma action_handles_all:
  assumes "sender_ok s" and "peer_ok p" and "sy_presence_mode (st_sync r) = 4"
    and "type = AWDL_ACTION_MIF \<Longrightarrow> awdl_init_arpa_tlv s = Some arpa"
  shows "handles_all env tsft (action_tlvs now s type arpa) p r (learned s type p) (synced now s tsft (p_addr p) r)"
proof -
  let ?r = "synced now s tsft (p_addr p) r"
  note s = assms(1) [unfolded sender_ok_def] and p = assms(2) [unfolded peer_ok_def]
  obtain e where e: "el_self_addr e = el_self_addr (p_election p)"
    "handles env tsft AWDL_ELECTION_PARAMETERS_TLV (awdl_init_election_params_tlv s) p ?r (p\<lparr>p_election := e\<rparr>) ?r"
    using handles_election by blast
  have mode: "sy_presence_mode (st_sync ?r) = 4" using assms(3) by (simp add: synced_def adopt_clock_presence)
  define p1 where "p1 = p\<lparr>p_election := e, p_sequence := ch_sequence (st_channel s)\<rparr>"
  define p2 where "p2 = p1\<lparr>p_election := (st_election s)\<lparr>el_self_addr := el_self_addr (p_election p1)\<rparr>, p_supports_v2 := True\<rparr>"
  define p3 where "p3 = (if type = AWDL_ACTION_MIF
    then p2\<lparr>p_name := c_string (st_name s) @ 0 # drop (length (c_string (st_name s)) + 1) (p_name p2)\<rparr> else p2)"
  define p4 where "p4 = p3\<lparr>p_country_code := [0x58, 0x30, 0]\<rparr>"
  have fields: "length (p_name p2) = HOST_NAME_LENGTH_MAX + 1" "length (p_country_code p3) = 3" using p by (simp_all add: p1_def p2_def p3_def)
  have last: "learned s type p = p4\<lparr>p_version := st_version s, p_devclass := st_dev_class s\<rparr>"
    by (cases p) (simp add: learned_def p1_def p2_def p3_def p4_def e(1))
  have tail: "handles_all env tsft [(AWDL_DATA_PATH_STATE_TLV, awdl_init_data_path_state_tlv s), (AWDL_VERSION_TLV, awdl_init_version_tlv s)]
      p3 ?r (learned s type p) ?r"
    using handles_data_path [OF fields(2)] handles_version [of env tsft s p4 ?r] tlvs_framed unfolding last p4_def
    by (blast intro: handles_all.intros)
  have mid: "handles_all env tsft ((if type = AWDL_ACTION_MIF
      then [(AWDL_ENHANCED_DATA_RATE_CAPABILITIES_TLV, awdl_init_ht_capabilities_tlv s), (AWDL_ARPA_TLV, arpa)] else []) @
      [(AWDL_DATA_PATH_STATE_TLV, awdl_init_data_path_state_tlv s), (AWDL_VERSION_TLV, awdl_init_version_tlv s)])
      p2 ?r (learned s type p) ?r"
  proof (cases "type = AWDL_ACTION_MIF")
    case True
    have "handles env tsft AWDL_ARPA_TLV arpa p2 ?r p3 ?r" "tlv_framed AWDL_ARPA_TLV arpa"
      using handles_arpa [OF assms(4) _ fields(1)] framed_arpa [OF assms(4)] s True by (simp_all add: p3_def)
    with tail True handles_ignored(2) framed_ht show ?thesis by (simp, blast intro: handles_all.intros)
  next
    case False
    with tail show ?thesis by (simp add: p3_def)
  qed
  have seq: "handles env tsft AWDL_CHAN_SEQ_TLV (awdl_init_chanseq_tlv s) (p\<lparr>p_election := e\<rparr>) ?r p1 ?r"
    unfolding p1_def using handles_chanseq [OF _ _ mode, of s env tsft "p\<lparr>p_election := e\<rparr>"] s by simp
  have v2: "handles env tsft AWDL_ELECTION_PARAMETERS_V2_TLV (awdl_init_election_params_v2_tlv s) p1 ?r p2 ?r"
    unfolding p2_def by (rule handles_election_v2)
  have sy: "handles env tsft AWDL_SYNCHRONIZATON_PARAMETERS_TLV (awdl_init_sync_params_tlv now s) p r p ?r"
    unfolding synced_def by (rule handles_sync)
  show ?thesis
    unfolding action_tlvs_def append_Cons append_Nil
    by (intro handles_all.more [OF sy] handles_all.more [OF e(2)] handles_all.more [OF seq] handles_all.more [OF v2]
        handles_all.more [OF handles_ignored(1)] tlvs_framed mid)
qed

lemma parse_own_action:
  assumes "buf_wf b" and "buf_bytes b = awdl_init_action now type @ rest"
  shows "awdl_parse_action_hdr b = Some (uint (awdl_action_code type))"
    and "buf_wf (strip_ignore b 16)" and "buf_bytes (strip_ignore b 16) = rest"
proof -
  have len: "16 \<le> length (buf_bytes b)" unfolding assms(2) by (simp add: length_tlvs)
  have bytes: "take 16 (buf_data b) = awdl_init_action now type"
    using take_buf_data [OF assms(1) len] unfolding assms(2) by (simp add: length_tlvs)
  have nth: "buf_data b ! i = awdl_init_action now type ! i" if "i < 16" for i
    using that by (metis bytes nth_take)
  have oui: "take 3 (drop 1 (buf_data b)) = AWDL_OUI"
  proof -
    have "take 3 (drop 1 (buf_data b)) = take 3 (drop 1 (take 16 (buf_data b)))" by (simp add: drop_take)
    then show ?thesis unfolding bytes by (simp add: awdl_init_action_def awdl_action_bytes_def Let_def AWDL_OUI_def)
  qed
  have "read_bytes b 0 16 = Ret 16 (buf_data b)"
    using assms(1) len by (simp add: read_bytes_wf INT_MAX_def)
  then show "awdl_parse_action_hdr b = Some (uint (awdl_action_code type))"
    by (cases type)
      (simp_all add: awdl_parse_action_hdr_def checked_def nth oui [simplified, unfolded AWDL_OUI_def] awdl_init_action_def awdl_action_bytes_def
        Let_def AWDL_OUI_def)
  show "buf_wf (strip_ignore b 16)" using assms(1) by (rule strip_ignore_wf) simp
  show "buf_bytes (strip_ignore b 16) = rest"
    using buf_strip_ok [OF assms(1) len] by (auto simp: strip_ignore_def assms(2) length_tlvs)
qed

lemma rx_action_learns:
  assumes "sender_ok s" and "type = AWDL_ACTION_MIF \<Longrightarrow> awdl_init_arpa_tlv s = Some arpa"
    and "buf_wf b" and "buf_bytes b = awdl_init_action now1 type @ concat (map snd (action_tlvs now2 s type arpa))"
    and "alloc_ok L (env_mem env)" and "junk_ok (env_peer env)" and "state_ok L r" and "\<not> rssi_too_low r (st_self_address s) rssi"
  shows "\<exists>result r' events. awdl_rx_action env b rssi tsft (st_self_address s) dst r = Some (result, r', events) \<and>
    state_ok L r' \<and> rx_frame_rule r r' \<and>
    (result = RX_IGNORE \<and> peer_lookup (peers_of r) (st_self_address s) = None \<and> peer_lookup (peers_of r') \<subseteq>\<^sub>m peer_lookup (peers_of r) \<and>
       (\<exists>m. awdl_peer_add (env_mem env) (env_peer env) (peers_of r) (st_self_address s) tsft (st_peer_cb r) = Some (PEERS_INTERNAL, m, [])) \<or>
     result = RX_OK \<and> st_sync r' = st_sync (synced now2 s tsft (st_self_address s) r) \<and>
     (\<exists>p. peer_lookup (peers_of r') = (peer_lookup (peers_of r))(st_self_address s \<mapsto> p) \<and>
        p_election p = st_election s \<and> p_sequence p = ch_sequence (st_channel s) \<and> p_version p = st_version s \<and>
        p_devclass p = st_dev_class s \<and> p_country_code p = [0x58, 0x30, 0] \<and> p_last_update p = tsft \<and>
        (type = AWDL_ACTION_MIF \<longrightarrow> c_string (p_name p) = c_string (st_name s) \<and> p_sent_mif p) \<and>
        (type = AWDL_ACTION_MIF \<and> st_version s \<noteq> 0 \<and> st_dev_class s \<noteq> 0 \<longrightarrow> p_is_valid p)))"
proof -
  let ?src = "st_self_address s" and ?k = "peer_refresh tsft (peer_known (env_peer env) (peers_of r) (st_self_address s))"
  note hdr = parse_own_action [OF assms(3,4)]
  have k: "peer_ok ?k" "p_addr ?k = ?src" using peer_known_ok [OF state_ok_peers [OF assms(7)] assms(6)] by simp_all
  have mode: "sy_presence_mode (st_sync r) = 4" using assms(7) by (simp add: state_ok_def sync_ok_def)
  have el: "el_self_addr (st_election s) = ?src" using assms(1) by (simp add: sender_ok_def)
  show ?thesis
  proof (rule rx_action_total [OF assms(5,6,7,3) hdr(1) _ assms(8), of tsft dst], goal_cases)
    case (2 result r' events p err f t s' events0 events1)
    have "handles_all env tsft (action_tlvs now2 s type arpa) ?k t (learned s type ?k) (synced now2 s tsft ?src t)"
      using action_handles_all [OF assms(1) k(1) _ assms(2), where r = t] mode 2(8) k(2) by simp
    from rx_tlvs_handles_all [OF this hdr(2,3)] have res: "\<not> err" "buf_len f = 0" "p = learned s type ?k" "s' = synced now2 s tsft ?src t"
      using 2(7) by (metis option.inject prod.inject)+
    have ok: "result = RX_OK" using 2(10) res(1,2) by simp
    have "st_sync r' = st_sync (synced now2 s tsft ?src r)" using 2(8,9,11) res(4) by (simp add: synced_def)
    moreover have "p_election p = st_election s" using k el unfolding res(3) by (simp add: learned_def peer_ok_def)
    moreover have "c_string (c_string (st_name s)) = c_string (st_name s)" by (rule c_string_id) (auto simp: c_string_def dest: set_takeWhileD)
    ultimately show ?case
      using 2(1,2,3,6) ok unfolding res(3) by (auto simp: peer_after_def peer_refresh_def learned_def awdl_peer_is_valid_def)
  next
    case (3 m)
    moreover have "rx_frame_rule r (set_peers (count_rx_action r) m)"
      using rx_frame_rule_trans rx_frame_rule_step(1,2) by blast
    ultimately show ?case using assms(7) by (simp add: set_peers_ok)
  qed simp
qed

lemma rx_own_hdr:
  assumes "ieee80211_init_awdl_hdr src dst ie type = (hdr, ie')" and "buf_wf b" and "buf_bytes b = hdr @ rest"
  shows "\<exists>b'. buf_wf b' \<and> buf_bytes b' = rest \<and> rx_ieee80211 env cap now rssi b r =
    (if src = st_self_address r then Some (RX_IGNORE_FROM_SELF, [], r, []) else rx_dispatch env cap now rssi type src dst b' r)"
proof -
  obtain seq where hdr: "hdr = ieee80211_hdr_bytes \<lparr>h_frame_control = type, h_duration_id = 0, h_addr1 = dst, h_addr2 = src,
      h_addr3 = AWDL_BSSID, h_seq_ctrl = seq\<rparr>"
    using assms(1) by (auto simp: ieee80211_init_awdl_hdr_def split: prod.splits)
  have len: "24 \<le> length (buf_bytes b)" unfolding assms(3) hdr by simp
  have bytes: "take 24 (buf_data b) = hdr"
    using take_buf_data [OF assms(2) len] unfolding assms(3) hdr by simp
  have sub: "take n (drop i (buf_data b)) = take n (drop i hdr)" if "i + n \<le> 24" for i n
    using that by (simp add: bytes [symmetric] drop_take min_absorb1)
  have fields: "take 2 (buf_data b) = le16_bytes type"
    "take 6 (drop 4 (buf_data b)) = ether_bytes dst" "take 6 (drop 10 (buf_data b)) = ether_bytes src"
    using sub [of 0 2] sub [of 4 6] sub [of 10 6] by (simp_all add: hdr ieee80211_hdr_bytes_def)
  obtain b' where b': "buf_strip b 24 = Ret 24 b'" "buf_wf b'" "buf_bytes b' = rest"
    using buf_strip_ok [OF assms(2) len] unfolding assms(3) by (auto simp: hdr)
  have "read_bytes b 0 24 = Ret 24 (buf_data b)" using assms(2) len by (simp add: read_bytes_wf INT_MAX_def)
  moreover have "memcmp (ether_bytes src) (ether_bytes (st_self_address r)) = 0 \<longleftrightarrow> src = st_self_address r" by (simp add: memcmp_eq_0)
  ultimately show ?thesis
    using b' by (auto simp: rx_ieee80211_def checked_def Let_def fields)
qed

lemma dispatch_action:
  "rx_dispatch env cap now rssi (IEEE80211_FTYPE_MGMT OR IEEE80211_STYPE_ACTION) src dst b r =
     rx_result_of (awdl_rx_action env b rssi now src dst r)"
  by (simp add: rx_dispatch_def Let_def IEEE80211_FTYPE_MGMT_def IEEE80211_STYPE_ACTION_def IEEE80211_FCTL_FTYPE_def
      IEEE80211_FCTL_STYPE_def)

lemma dispatch_data:
  "rx_dispatch env cap now rssi (IEEE80211_FTYPE_DATA OR IEEE80211_STYPE_DATA) src dst b r =
     rx_result_data (awdl_rx_data env cap b [] src dst r)"
  by (simp add: rx_dispatch_def Let_def IEEE80211_FTYPE_MGMT_def IEEE80211_STYPE_ACTION_def IEEE80211_FTYPE_DATA_def
      IEEE80211_STYPE_DATA_def IEEE80211_STYPE_QOS_DATA_def IEEE80211_FCTL_FTYPE_def IEEE80211_FCTL_STYPE_def)

lemma own_action_received:
  assumes "radiotap_header_ok rt" and "awdl_init_full_action_frame rt now1 now2 s ie type = Some (frame, ie')"
    and "buf_wf b" and "buf_bytes b = take (length frame - 9 - (if ie_fcs ie then 4 else 0)) (drop 9 frame)"
    and "st_self_address s \<noteq> st_self_address r"
  obtains arpa b' where "type = AWDL_ACTION_MIF \<longrightarrow> awdl_init_arpa_tlv s = Some arpa"
    and "buf_wf b'" and "buf_bytes b' = awdl_init_action now1 type @ concat (map snd (action_tlvs now2 s type arpa))"
    and "rx_ieee80211 env cap tsft rssi b r = rx_result_of (awdl_rx_action env b' rssi tsft (st_self_address s) (st_dst s) r)"
proof -
  obtain arpa hdr where arpa: "type = AWDL_ACTION_MIF \<longrightarrow> awdl_init_arpa_tlv s = Some arpa"
    and hdr: "ieee80211_init_awdl_action_hdr (st_self_address s) (st_dst s) ie = (hdr, ie')"
    and frame: "frame = (let body = ieee80211_init_radiotap_header rt @ hdr @ awdl_init_action now1 type @
        concat (map snd (action_tlvs now2 s type arpa)) in
      body @ (if ie_fcs ie then ieee80211_add_fcs body else []))"
    by (rule full_action_frame [OF assms(2)])
  have bytes: "buf_bytes b = hdr @ awdl_init_action now1 type @ concat (map snd (action_tlvs now2 s type arpa))"
    unfolding assms(4) frame by (simp add: Let_def length_radiotap [OF assms(1)] ieee80211_add_fcs_def)
  show thesis
    using rx_own_hdr [OF hdr [unfolded ieee80211_init_awdl_action_hdr_def] assms(3) bytes, of env cap tsft rssi r] assms(5) that [OF arpa]
    unfolding dispatch_action by auto
qed

section \<open>Properties\<close>

text \<open>C10. What a node learns from the action frame of another node. A frame built by the sender from its state, received without its
  radiotap header and checksum and with a sufficient signal, is accepted (unless the sender is new and the peer table cannot be doubled): the
  record of the sender then holds the election state, the channel sequence, the version and the device class of the sender, the
  country code of the frame and, after a MIF, its name and the mark that one was seen, which makes a sender with a version
  and a device class a valid peer. Nothing is learnt about other nodes,
  and the clock is adjusted to the sender's exactly when the sender is the synchronisation master of the receiver.\<close>

theorem action_frame_exchange:
  assumes "sender_ok s" and "radiotap_header_ok rt" and "awdl_init_full_action_frame rt now1 now2 s ie type = Some (frame, ie')"
    and "buf_wf b" and "buf_bytes b = take (length frame - 9 - (if ie_fcs ie then 4 else 0)) (drop 9 frame)"
    and "alloc_ok L (env_mem env)" and "junk_ok (env_peer env)" and "state_ok L r"
    and "st_self_address s \<noteq> st_self_address r" and "\<not> rssi_too_low r (st_self_address s) rssi"
  shows "\<exists>result r' events. rx_ieee80211 env cap tsft rssi b r = Some (result, [], r', events) \<and>
    (result = RX_IGNORE \<and> peer_lookup (peers_of r) (st_self_address s) = None \<and>
       (\<exists>m. awdl_peer_add (env_mem env) (env_peer env) (peers_of r) (st_self_address s) tsft (st_peer_cb r) = Some (PEERS_INTERNAL, m, []) \<and>
         \<not> env_mem env (2 * hm_table_size m)) \<or>
     result = RX_OK \<and> st_sync r' = st_sync (synced now2 s tsft (st_self_address s) r) \<and>
     (\<exists>p. peer_lookup (peers_of r') = (peer_lookup (peers_of r))(st_self_address s \<mapsto> p) \<and>
        p_election p = st_election s \<and> p_sequence p = ch_sequence (st_channel s) \<and> p_version p = st_version s \<and>
        p_devclass p = st_dev_class s \<and> p_country_code p = [0x58, 0x30, 0] \<and> p_last_update p = tsft \<and>
        (type = AWDL_ACTION_MIF \<longrightarrow> c_string (p_name p) = c_string (st_name s) \<and> p_sent_mif p) \<and>
        (type = AWDL_ACTION_MIF \<and> st_version s \<noteq> 0 \<and> st_dev_class s \<noteq> 0 \<longrightarrow> p_is_valid p)))"
proof -
  obtain arpa b' where arpa: "type = AWDL_ACTION_MIF \<longrightarrow> awdl_init_arpa_tlv s = Some arpa"
    and b': "buf_wf b'" "buf_bytes b' = awdl_init_action now1 type @ concat (map snd (action_tlvs now2 s type arpa))"
    and run: "rx_ieee80211 env cap tsft rssi b r = rx_result_of (awdl_rx_action env b' rssi tsft (st_self_address s) (st_dst s) r)"
    by (rule own_action_received [OF assms(2-5,9)])
  show ?thesis
    using rx_action_learns [OF assms(1) _ b' assms(6-8,10), of tsft "st_dst s"] arpa
      peer_add_internal [OF _ assms(6) state_ok_peers [OF assms(8)] assms(7)] unfolding run
    by (fastforce simp: rx_result_of_def)
qed

definition sample_sender :: awdl_state where
  "sample_sender = sample_state\<lparr>st_self_address := sample_peer_addr, st_name := [0x6f, 0x77, 0x6c] @ replicate 62 0,
     st_election := (st_election sample_state)\<lparr>el_self_addr := sample_peer_addr\<rparr>\<rparr>"

lemma sample_sender_ok: "sender_ok sample_sender"
  by (simp add: sender_ok_def sample_sender_def sample_state_def HOST_NAME_LENGTH_MAX_def AWDL_CHANSEQ_LENGTH_def)

lemma sample_sent:
  obtains frame ie' b where
    "awdl_init_full_action_frame sample_radiotap 7 8 sample_sender ieee80211_init_state AWDL_ACTION_MIF = Some (frame, ie')" "buf_wf b"
    "buf_bytes b = take (length frame - 9 - (if ie_fcs ieee80211_init_state then 4 else 0)) (drop 9 frame)"
proof -
  have zero: "0 \<in> set (st_name sample_sender)" by (simp add: sample_sender_def)
  obtain frame ie' where f: "awdl_init_full_action_frame sample_radiotap 7 8 sample_sender ieee80211_init_state AWDL_ACTION_MIF = Some (frame, ie')"
    using zero by (cases "ieee80211_init_awdl_action_hdr (st_self_address sample_sender) (st_dst sample_sender) ieee80211_init_state")
      (simp add: awdl_init_full_action_frame_def Let_def awdl_init_arpa_tlv_def)
  define body where "body = take (length frame - 9 - (if ie_fcs ieee80211_init_state then 4 else 0)) (drop 9 frame)"
  have "length body \<le> 357"
    using action_frame_bounds [OF sample_radiotap_ok _ f] sample_sender_ok by (auto simp: body_def sender_ok_def)
  then have "buf_wf \<lparr>b_orig = body, b_data = 0, b_len = int (length body), b_owned = False\<rparr>"
    "buf_bytes \<lparr>b_orig = body, b_data = 0, b_len = int (length body), b_owned = False\<rparr> = body"
    by (simp_all add: buf_wf_def buf_bytes_def INT_MAX_def)
  then show thesis using that [OF f] by (metis body_def)
qed

text \<open>A receiver that is synchronised to the sender.\<close>

definition sample_follower :: awdl_state where
  "sample_follower = (set_peers sample_state sample_table)
     \<lparr>st_election := (st_election sample_state)\<lparr>el_sync_addr := sample_peer_addr, el_master_addr := sample_peer_addr, el_height := 1\<rparr>\<rparr>"

theorem action_frame_exchange_witness:
  "\<exists>frame ie' b result r' events p.
     awdl_init_full_action_frame sample_radiotap 7 8 sample_sender ieee80211_init_state AWDL_ACTION_MIF = Some (frame, ie') \<and>
     buf_bytes b = take (length frame - 9 - (if ie_fcs ieee80211_init_state then 4 else 0)) (drop 9 frame) \<and>
     rx_ieee80211 sample_env 16 9 (- 40) b (set_peers sample_state sample_table) = Some (result, [], r', events) \<and> result = RX_OK \<and>
     peer_lookup (peers_of r') sample_peer_addr = Some p \<and> c_string (p_name p) = [0x6f, 0x77, 0x6c] \<and> p_is_valid p \<and>
     p_election p = st_election sample_sender"
proof -
  let ?r = "set_peers sample_state sample_table"
  have name: "c_string (st_name sample_sender) = [0x6f, 0x77, 0x6c]" by (simp add: sample_sender_def c_string_def)
  obtain frame ie' b where f: "awdl_init_full_action_frame sample_radiotap 7 8 sample_sender ieee80211_init_state AWDL_ACTION_MIF = Some (frame, ie')"
    and b: "buf_wf b" "buf_bytes b = take (length frame - 9 - (if ie_fcs ieee80211_init_state then 4 else 0)) (drop 9 frame)"
    by (rule sample_sent)
  have r: "state_ok 256 ?r" by (rule set_peers_ok [OF sample_state_ok sample_table_ok(1)])
  have rssi: "\<not> rssi_too_low ?r (st_self_address sample_sender) (- 40)"
    unfolding rssi_too_low_eq [OF r] by (simp add: set_peers_def sample_state_def)
  have addr: "st_self_address sample_sender = sample_peer_addr" by (simp add: sample_sender_def)
  have other: "st_self_address sample_sender \<noteq> st_self_address ?r"
    by (simp add: addr set_peers_def sample_state_def sample_peer_addr_def sample_addr_def)
  have announced: "st_version sample_sender \<noteq> 0" "st_dev_class sample_sender \<noteq> 0" by (simp_all add: sample_sender_def sample_state_def)
  from action_frame_exchange [OF sample_sender_ok sample_radiotap_ok f b sample_action_ok(3,4) r other rssi, of 16 9]
  obtain r' events p where "rx_ieee80211 sample_env 16 9 (- 40) b ?r = Some (RX_OK, [], r', events)"
    "peer_lookup (peers_of r') sample_peer_addr = Some p" "c_string (p_name p) = [0x6f, 0x77, 0x6c]" "p_is_valid p"
    "p_election p = st_election sample_sender"
    unfolding addr name using announced by (auto simp: sample_table_ok(2))
  with f b(2) show ?thesis by blast
qed

text \<open>C11. The frames of the synchronisation master carry its windows to the receiver. After a node has received an action frame of
  the node it is synchronised to, the time to its next window exceeds that of the sender at the moment of sending by less than a time
  unit, and from then on both are in the same extended window, except within the first time unit of a window of the sender.\<close>

theorem action_frame_aligns:
  assumes "sender_ok s" and "radiotap_header_ok rt" and "awdl_init_full_action_frame rt now1 now2 s ie type = Some (frame, ie')"
    and "buf_wf b" and "buf_bytes b = take (length frame - 9 - (if ie_fcs ie then 4 else 0)) (drop 9 frame)"
    and "alloc_ok L (env_mem env)" and "junk_ok (env_peer env)" and "state_ok L r"
    and "st_self_address s \<noteq> st_self_address r" and "\<not> rssi_too_low r (st_self_address s) rssi"
    and "sync_ok (st_sync s)" and "el_sync_addr (st_election r) = st_self_address s" and "peer_lookup (peers_of r) (st_self_address s) \<noteq> None"
  shows "\<exists>r' events. rx_ieee80211 env cap tsft rssi b r = Some (RX_OK, [], r', events) \<and>
    awdl_sync_next_aw_us now2 (st_sync s) \<le> awdl_sync_next_aw_us tsft (st_sync r') \<and>
    awdl_sync_next_aw_us tsft (st_sync r') < awdl_sync_next_aw_us now2 (st_sync s) + 1024 \<and>
    (\<forall>d. awdl_sync_next_aw_us (now2 + d) (st_sync s) \<le> 64 * 1024 - 1024 \<longrightarrow>
      awdl_sync_current_eaw (tsft + d) (st_sync r') = awdl_sync_current_eaw (now2 + d) (st_sync s))"
proof -
  have ok: "sync_ok (st_sync r)" using assms(8) by (simp add: state_ok_def)
  obtain arpa b' where arpa: "type = AWDL_ACTION_MIF \<longrightarrow> awdl_init_arpa_tlv s = Some arpa"
    and b': "buf_wf b'" "buf_bytes b' = awdl_init_action now1 type @ concat (map snd (action_tlvs now2 s type arpa))"
    and rx: "rx_ieee80211 env cap tsft rssi b r = rx_result_of (awdl_rx_action env b' rssi tsft (st_self_address s) (st_dst s) r)"
    by (rule own_action_received [OF assms(2-5,9)])
  obtain r' events where run: "rx_ieee80211 env cap tsft rssi b r = Some (RX_OK, [], r', events)"
    and sync: "st_sync r' = adopt_clock now2 (st_sync s) tsft (st_sync r)"
    using rx_action_learns [OF assms(1) _ b' assms(6-8,10), of tsft "st_dst s"] arpa assms(13) unfolding rx
    by (auto simp: rx_result_of_def synced_def assms(12))
  obtain sync' where "sync_ok sync'" "st_sync r' =
      awdl_sync_update_last tsft (awdl_sync_next_aw_tu now2 (st_sync s)) (awdl_sync_current_aw now2 (st_sync s)) sync'"
    using adopt_clock_update [OF ok] sync by metis
  with awdl_sync_update_converges [OF assms(11) _ refl refl, of sync' tsft now2] run show ?thesis by simp
qed

theorem action_frame_aligns_witness:
  "\<exists>b r' events. rx_ieee80211 sample_env 16 70000 (- 40) b sample_follower = Some (RX_OK, [], r', events) \<and>
     awdl_sync_current_eaw (70000 + 3000) (st_sync r') = awdl_sync_current_eaw (8 + 3000) (st_sync sample_sender) \<and>
     awdl_sync_current_eaw (70000 + 3000) (st_sync sample_follower) \<noteq> awdl_sync_current_eaw (8 + 3000) (st_sync sample_sender)"
proof -
  obtain frame ie' b where f: "awdl_init_full_action_frame sample_radiotap 7 8 sample_sender ieee80211_init_state AWDL_ACTION_MIF = Some (frame, ie')"
    and b: "buf_wf b" "buf_bytes b = take (length frame - 9 - (if ie_fcs ieee80211_init_state then 4 else 0)) (drop 9 frame)"
    by (rule sample_sent)
  have r: "state_ok 256 sample_follower"
    using set_peers_ok [OF sample_state_ok sample_table_ok(1)] by (simp add: sample_follower_def state_ok_def set_peers_def)
  have rssi: "\<not> rssi_too_low sample_follower (st_self_address sample_sender) (- 40)"
    unfolding rssi_too_low_eq [OF r] by (simp add: sample_follower_def set_peers_def sample_state_def)
  have other: "st_self_address sample_sender \<noteq> st_self_address sample_follower"
    by (simp add: sample_sender_def sample_follower_def set_peers_def sample_state_def sample_peer_addr_def sample_addr_def)
  have sync: "sync_ok (st_sync sample_sender)" "el_sync_addr (st_election sample_follower) = st_self_address sample_sender"
    using sample_state_ok by (simp_all add: sample_sender_def sample_follower_def state_ok_def)
  have known: "peer_lookup (peers_of sample_follower) (st_self_address sample_sender) \<noteq> None"
    by (simp add: sample_follower_def sample_sender_def peers_of_def set_peers_def sample_table_ok(2))
  have late: "awdl_sync_next_aw_us (8 + 3000) (st_sync sample_sender) \<le> 64 * 1024 - 1024"
    "awdl_sync_current_eaw (70000 + 3000) (st_sync sample_follower) \<noteq> awdl_sync_current_eaw (8 + 3000) (st_sync sample_sender)"
    by (simp_all add: sample_sender_def sample_follower_def set_peers_def sample_state_def sample_sync_def awdl_sync_next_aw_us_def awdl_sync_current_eaw_def
        awdl_sync_current_aw_def awdl_sync_state_init_def eaw_period_def ieee80211_tu_to_usec_def ieee80211_usec_to_tu_def)
  from action_frame_aligns [OF sample_sender_ok sample_radiotap_ok f b sample_action_ok(3,4) r other rssi sync known, of 16 70000] late show ?thesis
    by blast
qed

end
