(* ===== verification/Sending.thy ===== *)
theory Sending
  imports Daemon
begin

text \<open>
  What the senders and the poll of the host device of \<^verbatim>\<open>src/daemon/core.c\<close> do with the frames of the host:
  multicast frames leave in order and always leave, unicast frames only leave on a common channel, and no frame
  that was read is lost on its way to the senders.
\<close>

section \<open>Data frames\<close>

lemma send_data_frame:
  assumes "radiotap_header_ok (ce_radiotap env)" and "frame_ok b" and "14 \<le> length (buf_bytes b)" and "io_wlan_handle io"
  obtains frame s1 s' ie' where "awdl_send_data env io b s ie =
      Some (if ce_inject env frame < 0 then TX_FAIL else TX_OK, s', ie', [Wlan_frame frame])"
    and "awdl_init_full_data_frame (ce_radiotap env) (ether_of_bytes (take 6 (drop 6 (buf_bytes b))))
      (ether_of_bytes (take 6 (buf_bytes b))) (drop 14 (buf_bytes b)) s ie = (frame, s1, ie')"
    and "length frame \<le> length (buf_bytes b) + 39"
proof -
  let ?src = "ether_of_bytes (take 6 (drop 6 (buf_bytes b)))" and ?dst = "ether_of_bytes (take 6 (buf_bytes b))"
  have wf: "buf_wf b" "length (buf_bytes b) \<le> 1518" using assms(2) by (simp_all add: frame_ok_def)
  have strip: "buf_bytes (strip_ignore b 14) = drop 14 (buf_bytes b)" using strip_ignore_spec(2) [OF wf(1) assms(3)] by simp
  obtain frame s1 ie' where f: "awdl_init_full_data_frame (ce_radiotap env) ?src ?dst (drop 14 (buf_bytes b)) s ie = (frame, s1, ie')"
    using prod_cases3 by blast
  have len: "length frame \<le> length (buf_bytes b) + 39" using full_data_frame(1) [OF assms(1) f] assms(3) by simp
  with wf(2) have "length frame \<le> 65535" by simp
  then show thesis
    using that [OF _ f len] assms(3,4) wf(1) strip f
    by (simp add: awdl_send_data_def checked_fields ETHER_ETHERTYPE_OFFSET_def ETHER_DST_OFFSET_def ETHER_SRC_OFFSET_def
        ETHER_LENGTH_def INT_MAX_def Let_def TX_BUFFER_SIZE_def wlan_send_def)
qed

text \<open>The frame on the WLAN for a frame of the host.\<close>

definition data_frame :: "core_env \<Rightarrow> buf \<Rightarrow> daemon_state \<Rightarrow> u8 list" where
  "data_frame env b d =
     fst (awdl_init_full_data_frame (ce_radiotap env) (ether_of_bytes (take 6 (drop 6 (buf_bytes b))))
       (ether_of_bytes (take 6 (buf_bytes b))) (drop 14 (buf_bytes b)) (ds_awdl d) (ds_ieee80211 d))"

section \<open>Multicast frames\<close>

lemma daemon_ok_sync: "daemon_ok L d \<Longrightarrow> sync_ok (st_sync (ds_awdl d))"
  by (simp add: daemon_ok_def state_ok_def)

lemma send_multicast_now:
  assumes "radiotap_header_ok (ce_radiotap env)" and "daemon_ok L d" and "\<not> circular_buf_empty (ds_queue d)"
    and "awdl_is_multicast_eaw (ds_awdl d) now" and "awdl_can_send_in (ds_awdl d) now AWDL_MULTICAST_GUARD_TU = 0"
  shows "\<exists>b d' effects. awdl_send_multicast env now d = Some (d', effects) \<and> cb_items (ds_queue d) = b # cb_items (ds_queue d') \<and>
    ds_next d' = ds_next d \<and> (\<exists>result s ie sent rest. awdl_send_data env (ds_io d) b (ds_awdl d) (ds_ieee80211 d) = Some (result, s, ie, sent) \<and>
      effects = sent @ rest \<and> rest = (if cb_items (ds_queue d') = [] then [Feed_event Read_host] else ev_timer_rearm Tx_mcast_timer 0))"
proof -
  have st: "state_ok L (ds_awdl d)" and inv: "cb_inv (ds_queue d)" using assms(2) by (simp_all add: daemon_ok_def)
  let ?q = "retreat_pointer (ds_queue d)" and ?b = "cb_buffer (ds_queue d) ! cb_tail (ds_queue d)"
  have items: "cb_items (ds_queue d) = ?b # cb_items ?q" by (rule cb_items_retreat [OF inv assms(3)])
  have empty: "circular_buf_empty ?q \<longleftrightarrow> cb_items ?q = []"
    using cb_empty_size [OF cb_inv_retreat [OF inv]] length_cb_items [of ?q] by (metis length_0_conv)
  have "frame_ok ?b" using assms(2) by (simp add: daemon_ok_def items)
  then obtain result s ie sent where sent: "awdl_send_data env (ds_io d) ?b (ds_awdl d) (ds_ieee80211 d) = Some (result, s, ie, sent)"
    using send_data_total [OF assms(1) _ st] by blast
  moreover obtain u where "sec_to_usec 0 = Some u" using sec_to_usec_defined [of 0] by auto
  ultimately show ?thesis
    using assms(3-5) items empty
    by (auto simp: awdl_send_multicast_def circular_buf_get_def tx_rearm_def Let_def)
qed

text \<open>The delay after which the sender tries again.\<close>

definition mcast_retry :: "rat \<Rightarrow> rat" where
  "mcast_retry delay = (if delay = 0 then usec_to_sec (ieee80211_tu_to_usec 64) else retry_delay delay AWDL_MULTICAST_GUARD_TU)"

lemma send_multicast_later:
  assumes "\<not> circular_buf_empty (ds_queue d)"
    and "\<not> (awdl_is_multicast_eaw (ds_awdl d) now \<and> awdl_can_send_in (ds_awdl d) now AWDL_MULTICAST_GUARD_TU = 0)"
    and "sec_to_usec (mcast_retry (awdl_can_send_in (ds_awdl d) now AWDL_MULTICAST_GUARD_TU)) = Some u"
  shows "awdl_send_multicast env now d = Some (d, ev_timer_rearm Tx_mcast_timer (mcast_retry (awdl_can_send_in (ds_awdl d) now AWDL_MULTICAST_GUARD_TU)))"
  using assms by (auto simp: awdl_send_multicast_def tx_rearm_def Let_def mcast_retry_def retry_delay_def)

text \<open>The first frame of the queue is handed to the WLAN device and taken from the queue.\<close>

definition mcast_sent :: "core_env \<Rightarrow> daemon_state \<Rightarrow> daemon_state \<Rightarrow> effect list \<Rightarrow> bool" where
  "mcast_sent env d d' effects =
     (case cb_items (ds_queue d) of
        [] \<Rightarrow> False
      | b # rest \<Rightarrow> cb_items (ds_queue d') = rest \<and> take 1 effects = [Wlan_frame (data_frame env b d)])"

text \<open>The sender called again and again at the moments for which it sets its timer, until it hands the first frame of the queue to
  the WLAN device and takes it from the queue; at most \<open>n\<close> calls, those before the last change nothing.\<close>

fun retry_of :: "effect list \<Rightarrow> rat option" where
  "retry_of [Timer_stop _, Timer_set _ delay _, Timer_start _] = Some delay"
| "retry_of _ = None"

fun mcast_within :: "nat \<Rightarrow> core_env \<Rightarrow> u64 \<Rightarrow> daemon_state \<Rightarrow> bool" where
  "mcast_within 0 env now d = False"
| "mcast_within (Suc n) env now d =
     (case awdl_send_multicast env now d of
        None \<Rightarrow> False
      | Some (d', effects) \<Rightarrow>
          mcast_sent env d d' effects \<or>
          (d' = d \<and>
           (case retry_of effects of
              None \<Rightarrow> False
            | Some delay \<Rightarrow> effects = ev_timer_rearm Tx_mcast_timer delay \<and>
                (case sec_to_usec delay of None \<Rightarrow> False | Some u \<Rightarrow> mcast_within n env (now + u) d))))"

text \<open>The first frame of the queue is a complete Ethernet frame, and the WLAN device is open.\<close>

definition sendable :: "daemon_state \<Rightarrow> bool" where
  "sendable d \<longleftrightarrow> (\<exists>b rest. cb_items (ds_queue d) = b # rest \<and> 14 \<le> length (buf_bytes b)) \<and> io_wlan_handle (ds_io d)"

lemma sendable_queue: "daemon_ok L d \<Longrightarrow> sendable d \<Longrightarrow> \<not> circular_buf_empty (ds_queue d)"
  using cb_empty_size [of "ds_queue d"] length_cb_items [of "ds_queue d"]
  by (auto simp: daemon_ok_def sendable_def simp del: length_cb_items)

lemma mcast_within_now:
  assumes "radiotap_header_ok (ce_radiotap env)" and "daemon_ok L d" and "sendable d"
    and "awdl_is_multicast_eaw (ds_awdl d) now" and "awdl_can_send_in (ds_awdl d) now AWDL_MULTICAST_GUARD_TU = 0"
  shows "mcast_within (Suc n) env now d"
proof -
  obtain b d' effects result s ie sent rest where run: "awdl_send_multicast env now d = Some (d', effects)"
      "cb_items (ds_queue d) = b # cb_items (ds_queue d')" "effects = sent @ rest"
    and send: "awdl_send_data env (ds_io d) b (ds_awdl d) (ds_ieee80211 d) = Some (result, s, ie, sent)"
    using send_multicast_now [OF assms(1,2) sendable_queue [OF assms(2,3)] assms(4,5)] by blast
  have "frame_ok b" "14 \<le> length (buf_bytes b)" "io_wlan_handle (ds_io d)"
    using assms(2,3) run(2) by (auto simp: daemon_ok_def sendable_def)
  then obtain frame s1 s' ie' where f: "awdl_send_data env (ds_io d) b (ds_awdl d) (ds_ieee80211 d) =
      Some (if ce_inject env frame < 0 then TX_FAIL else TX_OK, s', ie', [Wlan_frame frame])"
    "awdl_init_full_data_frame (ce_radiotap env) (ether_of_bytes (take 6 (drop 6 (buf_bytes b))))
      (ether_of_bytes (take 6 (buf_bytes b))) (drop 14 (buf_bytes b)) (ds_awdl d) (ds_ieee80211 d) = (frame, s1, ie')"
    by (rule send_data_frame [OF assms(1)])
  have "data_frame env b d = frame" using f(2) by (simp add: data_frame_def)
  then have "mcast_sent env d d' effects" using send f(1) run(2,3) by (auto simp: mcast_sent_def)
  with run(1) show ?thesis by simp
qed

lemma mcast_within_later:
  assumes "awdl_send_multicast env now d = Some (d, ev_timer_rearm Tx_mcast_timer delay)" and "sec_to_usec delay = Some u"
    and "mcast_within n env (now + u) d"
  shows "mcast_within (Suc n) env now d"
  using assms by (simp add: ev_timer_rearm_def)

text \<open>The slot of the channel sequence at a moment, and how many slots later multicast frames may be sent.\<close>

definition slot :: "u64 \<Rightarrow> awdl_state \<Rightarrow> nat" where
  "slot now state = unat (awdl_sync_current_eaw now (st_sync state)) mod 16"

fun mcast_distance :: "nat \<Rightarrow> nat" where
  "mcast_distance s = (if s = 0 then 0 else if s \<le> 10 then 10 - s else 16 - s)"

lemma is_multicast_slot: "awdl_is_multicast_eaw state now \<longleftrightarrow> slot now state = 0 \<or> slot now state = 10"
  by (simp add: awdl_is_multicast_eaw_def slot_def AWDL_CHANSEQ_LENGTH_def Let_def)

lemma slot_later:
  assumes "sync_ok (st_sync state)"
  shows "slot (now + u) state = (slot now state + (eaw_offset now state + unat u) div 65536) mod 16"
proof -
  let ?t = "since now (st_sync state)" and ?c = "unat (sy_aw_counter (st_sync state)) div 4"
  have m: "x mod 16384 mod 16 = x mod 16" for x :: nat by (rule mod_mod_cancel) simp
  have "?t + unat u = ?t mod 65536 + unat u + 65536 * (?t div 65536)" by simp
  then have "(?t + unat u) div 65536 = ?t div 65536 + (?t mod 65536 + unat u) div 65536" by (metis add.commute div_mult_self2 zero_neq_numeral)
  then show ?thesis
    by (simp add: slot_def current_eaw_later [OF assms] current_eaw_since [OF assms, of now] eaw_offset_def m mod_simps add.assoc)
qed

text \<open>One call of the sender: what it computes from the position in the extended window.\<close>

lemma mcast_delay:
  fixes now :: u64
  assumes "sync_ok (st_sync state)"
  defines "x \<equiv> eaw_offset now state" and "delay \<equiv> awdl_can_send_in state now AWDL_MULTICAST_GUARD_TU"
  shows "delay = 0 \<longleftrightarrow> 16384 \<le> x \<and> x \<le> 49152"
    and "x < 16384 \<Longrightarrow> mcast_retry delay = usec_to_sec (usec (16384 - x))"
    and "49152 < x \<Longrightarrow> mcast_retry delay = usec_to_sec (usec (x - 32768))"
    and "delay = 0 \<Longrightarrow> mcast_retry delay = usec_to_sec 65536"
proof -
  have x: "x < 65536" by (simp add: x_def eaw_offset_less)
  have "65536 - x < 16384 \<longleftrightarrow> 49152 < x" "16384 - (65536 - x) = x - 49152" using x by linarith+
  then have cases: "delay = (if 49152 < x then - usec_to_sec (usec (x - 49152))
      else if x < 16384 then usec_to_sec (usec (16384 - x)) else 0)"
    using can_send_in_cases [OF assms(1), of AWDL_MULTICAST_GUARD_TU now] by (simp add: delay_def x_def AWDL_MULTICAST_GUARD_TU_def)
  have pos: "0 < usec_to_sec (usec k)" if "0 < k" "k \<le> 65536" for k
    using usec_to_sec_pos(2,3) [of "usec k"] usec_eq_0 [OF that(2)] that(1) by linarith
  have pos1: "x < 16384 \<Longrightarrow> 0 < usec_to_sec (usec (16384 - x))" and pos2: "49152 < x \<Longrightarrow> 0 < usec_to_sec (usec (x - 49152))"
    using x by (simp_all add: pos)
  show "delay = 0 \<longleftrightarrow> 16384 \<le> x \<and> x \<le> 49152"
  proof -
    consider "x < 16384" | "49152 < x" | "16384 \<le> x" "x \<le> 49152" by linarith
    then show ?thesis
      using pos1 pos2 by cases (simp_all add: cases)
  qed
  show "mcast_retry delay = usec_to_sec (usec (16384 - x))" if "x < 16384"
    using that pos1 by (simp add: cases mcast_retry_def retry_delay_def)
  show "mcast_retry delay = usec_to_sec 65536" if "delay = 0"
    using that by (simp add: mcast_retry_def ieee80211_tu_to_usec_def)
  show "mcast_retry delay = usec_to_sec (usec (x - 32768))" if "49152 < x"
  proof -
    have "usec_to_sec (usec (x - 49152)) + usec_to_sec 16384 = usec_to_sec (usec (x - 32768))"
    proof -
      have "usec (x - 49152) + 16384 = usec (x - 32768)"
        using that x by (simp add: usec_def)
      moreover have "usec_to_sec (usec (x - 49152)) + usec_to_sec 16384 = usec_to_sec (usec (x - 49152) + 16384)"
        using that x by (intro usec_to_sec_add) (simp add: unat_usec)
      ultimately show ?thesis by simp
    qed
    moreover have "delay < 0" "delay \<noteq> 0" "delay = - usec_to_sec (usec (x - 49152))"
      using that pos2 by (simp_all add: cases)
    ultimately show ?thesis
      by (simp add: mcast_retry_def retry_delay_def AWDL_MULTICAST_GUARD_TU_def ieee80211_tu_to_usec_def)
  qed
qed

lemma mcast_distance_step: "s < 16 \<Longrightarrow> s \<noteq> 0 \<Longrightarrow> s \<noteq> 10 \<Longrightarrow> mcast_distance s = Suc (mcast_distance ((s + 1) mod 16))"
  by (cases "s = 15") auto

lemma mcast_distance_zero: "mcast_distance 0 = 0" "mcast_distance 10 = 0"
  by simp_all

declare mcast_distance.simps [simp del]

lemma slot_less: "slot now state < 16"
  by (simp add: slot_def)

lemma mcast_within_mono: "mcast_within m env now d \<Longrightarrow> m \<le> n \<Longrightarrow> mcast_within n env now d"
proof (induction m arbitrary: n now)
  case (Suc m)
  then obtain k where n: "n = Suc k" "m \<le> k" by (cases n) auto
  have "mcast_within m env t d \<Longrightarrow> mcast_within k env t d" for t using Suc.IH n(2) by blast
  with Suc.prems(1) show ?case
    unfolding n(1) mcast_within.simps by (auto split: option.splits list.splits effect.splits)
qed simp

lemma mcast_free:
  assumes "radiotap_header_ok (ce_radiotap env)" and "daemon_ok L d" and "sendable d"
    and "16384 \<le> eaw_offset now (ds_awdl d)" and "eaw_offset now (ds_awdl d) \<le> 49152"
  shows "mcast_within (Suc (mcast_distance (slot now (ds_awdl d)))) env now d"
  using assms(4,5)
proof (induction "mcast_distance (slot now (ds_awdl d))" arbitrary: now)
  case 0
  note sync = daemon_ok_sync [OF assms(2)]
  have "slot now (ds_awdl d) = 0 \<or> slot now (ds_awdl d) = 10"
    using 0(1) mcast_distance_step [OF slot_less, of now "ds_awdl d"] by (metis nat.distinct(1))
  then have "awdl_is_multicast_eaw (ds_awdl d) now" by (simp add: is_multicast_slot)
  moreover have "awdl_can_send_in (ds_awdl d) now AWDL_MULTICAST_GUARD_TU = 0" using mcast_delay(1) [OF sync, of now] 0(2,3) by simp
  ultimately show ?case by (rule mcast_within_now [OF assms(1-3)])
next
  case (Suc n)
  note sync = daemon_ok_sync [OF assms(2)]
  let ?s = "ds_awdl d"
  have free: "awdl_can_send_in ?s now AWDL_MULTICAST_GUARD_TU = 0" using mcast_delay(1) [OF sync, of now] Suc.prems by simp
  have away: "slot now ?s \<noteq> 0" "slot now ?s \<noteq> 10" using Suc.hyps(2) by (metis mcast_distance_zero nat.distinct(1))+
  have off: "eaw_offset (now + 65536) ?s = eaw_offset now ?s" using eaw_offset_less [of now ?s] by (simp add: eaw_offset_later)
  have "slot (now + 65536) ?s = (slot now ?s + 1) mod 16" using eaw_offset_less [of now ?s] by (simp add: slot_later [OF sync])
  then have dist: "n = mcast_distance (slot (now + 65536) ?s)"
    using mcast_distance_step [OF slot_less away] Suc.hyps(2) by simp
  have "mcast_within (Suc n) env (now + 65536) d" using Suc.hyps(1) [OF dist] Suc.prems off dist by simp
  moreover have "awdl_send_multicast env now d = Some (d, ev_timer_rearm Tx_mcast_timer (usec_to_sec 65536))"
    using send_multicast_later [OF sendable_queue [OF assms(2,3)], of now 65536 env] away mcast_delay(4) [OF sync free]
    by (simp add: is_multicast_slot usec_to_sec_inverse)
  ultimately show ?case using mcast_within_later [OF _ usec_to_sec_inverse] Suc.hyps(2) by metis
qed

lemma mcast_distance_le: "s < 16 \<Longrightarrow> mcast_distance s \<le> 9"
  by (auto simp: mcast_distance.simps)

lemma mcast_guard:
  assumes "daemon_ok L d" and "sendable d"
    and "awdl_can_send_in (ds_awdl d) now AWDL_MULTICAST_GUARD_TU \<noteq> 0"
    and "mcast_retry (awdl_can_send_in (ds_awdl d) now AWDL_MULTICAST_GUARD_TU) = usec_to_sec u"
    and "mcast_within n env (now + u) d"
  shows "mcast_within (Suc n) env now d"
  using send_multicast_later [OF sendable_queue [OF assms(1,2)], of now u env] assms(3,4)
  by (intro mcast_within_later [OF _ usec_to_sec_inverse assms(5)]) (simp add: usec_to_sec_inverse)

lemma mcast_start:
  assumes "radiotap_header_ok (ce_radiotap env)" and "daemon_ok L d" and "sendable d"
    and "eaw_offset now (ds_awdl d) \<le> 49152"
  shows "mcast_within 11 env now d"
proof -
  let ?s = "ds_awdl d"
  have free: "mcast_within 10 env t d" if "16384 \<le> eaw_offset t ?s" "eaw_offset t ?s \<le> 49152" for t
    by (rule mcast_within_mono [OF mcast_free [OF assms(1-3) that]]) (use mcast_distance_le [OF slot_less] in simp)
  show ?thesis
  proof (cases "16384 \<le> eaw_offset now ?s")
    case True
    show ?thesis by (rule mcast_within_mono [OF free [OF True assms(4)]]) simp
  next
    case False
    note sync = daemon_ok_sync [OF assms(2)]
    let ?u = "usec (16384 - eaw_offset now ?s)"
    have "eaw_offset (now + ?u) ?s = 16384" using False by (simp add: eaw_offset_later unat_usec)
    then have "mcast_within 10 env (now + ?u) d" by (intro free) simp_all
    from mcast_guard [OF assms(2,3) _ mcast_delay(2) [OF sync] this] mcast_delay(1) [OF sync, of now] False show ?thesis by simp
  qed
qed

lemma mcast_all:
  assumes "radiotap_header_ok (ce_radiotap env)" and "daemon_ok L d" and "sendable d"
  shows "mcast_within 12 env now d"
proof (cases "eaw_offset now (ds_awdl d) \<le> 49152")
  case True
  show ?thesis by (rule mcast_within_mono [OF mcast_start [OF assms True]]) simp
next
  case False
  note sync = daemon_ok_sync [OF assms(2)]
  let ?s = "ds_awdl d"
  let ?x = "eaw_offset now ?s"
  let ?u = "usec (?x - 32768)"
  have "eaw_offset (now + ?u) ?s = (2 * ?x - 32768) mod 65536"
    using False eaw_offset_less [of now ?s] by (simp add: eaw_offset_later unat_usec mult_2)
  also have "\<dots> = 2 * ?x - 98304"
    using False eaw_offset_less [of now ?s] by (subst mod_if, subst mod_if) simp
  finally have "mcast_within 11 env (now + ?u) d"
    using eaw_offset_less [of now ?s] by (intro mcast_start [OF assms]) simp
  from mcast_guard [OF assms(2,3) _ mcast_delay(3) [OF sync] this] mcast_delay(1) [OF sync, of now] False show ?thesis by simp
qed

section \<open>Properties\<close>

text \<open>C5. A multicast frame of the host is always sent. With a complete Ethernet frame (at least its 14 bytes of header) at the
  head of the queue and an open WLAN device, whatever the moment at which the sender runs, and if the timer fires at the
  moments for which the sender sets it, then after at most twelve calls the sender hands the frame, in the format of AWDL data frames, to
  the WLAN device and takes it, and only it, from the queue; the calls before change nothing. The first two calls may be needed to leave the guard
  intervals (the code's delay from the guard at the end of a window may lead to the one at the start of the
  next), the others to step to a slot for multicast.\<close>

theorem awdl_send_multicast_live:
  assumes "radiotap_header_ok (ce_radiotap env)" and "daemon_ok L d" and "io_wlan_handle (ds_io d)"
    and "cb_items (ds_queue d) = b # rest" and "14 \<le> length (buf_bytes b)"
  shows "mcast_within 12 env now d"
proof -
  have "sendable d" using assms(3-5) by (simp add: sendable_def)
  then show ?thesis by (rule mcast_all [OF assms(1,2)])
qed

text \<open>A daemon with one multicast frame for the witnesses.\<close>

definition sample_mcast :: buf where
  "sample_mcast = \<lparr>b_orig = [0x33, 0x33, 0, 0, 0, 1, 2, 0, 0, 0, 0, 1, 0x86, 0xdd, 0x60, 0], b_data = 0, b_len = 16, b_owned = True\<rparr>"

definition sample_daemon :: daemon_state where
  "sample_daemon = \<lparr>ds_io = sample_io\<lparr>io_wlan_handle := True, io_host_fd := 6\<rparr>, ds_awdl = sample_known, ds_ieee80211 = ieee80211_init_state,
     ds_next = None, ds_queue = \<lparr>cb_buffer = replicate 16 sample_mcast, cb_head = 1, cb_tail = 0, cb_max = 16, cb_full = False\<rparr>,
     ds_dump = False\<rparr>"

lemma sample_daemon_ok: "daemon_ok 256 sample_daemon" "\<not> circular_buf_empty (ds_queue sample_daemon)"
  "cb_items (ds_queue sample_daemon) = [sample_mcast]"
proof -
  have "frame_ok sample_mcast" by (simp add: frame_ok_def sample_mcast_def buf_wf_def buf_bytes_def INT_MAX_def)
  moreover have "0 \<in> set (st_name sample_known)" by (simp add: sample_known_def set_peers_def sample_state_def)
  moreover show "cb_items (ds_queue sample_daemon) = [sample_mcast]" by (simp add: sample_daemon_def cb_items_def circular_buf_size_def)
  ultimately show "daemon_ok 256 sample_daemon" "\<not> circular_buf_empty (ds_queue sample_daemon)"
    using sample_known_ok(1) by (simp_all add: daemon_ok_def sample_daemon_def cb_inv_def circular_buf_empty_def)
qed

theorem awdl_send_multicast_live_witness:
  "mcast_within 12 sample_core 5000 sample_daemon"
proof (rule awdl_send_multicast_live [OF _ sample_daemon_ok(1) _ sample_daemon_ok(3)])
  show "radiotap_header_ok (ce_radiotap sample_core)" using sample_radiotap_ok by (simp add: sample_core_def)
qed (simp_all add: sample_daemon_def sample_mcast_def buf_bytes_def)

text \<open>C8. Multicast frames are sent in the order in which they were queued, and only in the windows for
  multicast outside the guard intervals: then exactly the first frame leaves the queue and is handed to the
  transmission of data, and the sender continues at once while frames are left and asks the host for more
  otherwise. In every other moment the state is unchanged and nothing is sent.\<close>

theorem awdl_send_multicast_order:
  assumes "radiotap_header_ok (ce_radiotap env)" and "daemon_ok L d" and "\<not> circular_buf_empty (ds_queue d)"
  shows "\<exists>d' effects. awdl_send_multicast env now d = Some (d', effects) \<and>
    (if slot now (ds_awdl d) \<in> {0, 10} \<and> 16384 \<le> eaw_offset now (ds_awdl d) \<and> eaw_offset now (ds_awdl d) \<le> 49152
     then \<exists>b result s ie sent. cb_items (ds_queue d) = b # cb_items (ds_queue d') \<and>
       awdl_send_data env (ds_io d) b (ds_awdl d) (ds_ieee80211 d) = Some (result, s, ie, sent) \<and>
       effects = sent @ (if cb_items (ds_queue d') = [] then [Feed_event Read_host] else ev_timer_rearm Tx_mcast_timer 0)
     else d' = d \<and> (\<forall>f. Wlan_frame f \<notin> set effects))"
proof -
  note sync = daemon_ok_sync [OF assms(2)]
  let ?s = "ds_awdl d" and ?delay = "awdl_can_send_in (ds_awdl d) now AWDL_MULTICAST_GUARD_TU"
  have now: "slot now ?s \<in> {0, 10} \<and> 16384 \<le> eaw_offset now ?s \<and> eaw_offset now ?s \<le> 49152 \<longleftrightarrow>
      awdl_is_multicast_eaw ?s now \<and> ?delay = 0"
    using mcast_delay(1) [OF sync, of now] by (simp add: is_multicast_slot)
  show ?thesis
  proof (cases "awdl_is_multicast_eaw ?s now \<and> ?delay = 0")
    case True
    then show ?thesis using send_multicast_now [OF assms, of now] unfolding now by fastforce
  next
    case False
    have "\<exists>u. mcast_retry ?delay = usec_to_sec u"
      using mcast_delay [OF sync, of now] not_le by blast
    then obtain u where "sec_to_usec (mcast_retry ?delay) = Some u" using usec_to_sec_inverse by metis
    from send_multicast_later [OF assms(3) False this, of env] False show ?thesis
      unfolding now by (simp add: ev_timer_rearm_def)
  qed
qed

theorem awdl_send_multicast_order_witness:
  "\<exists>d' effects. awdl_send_multicast sample_core 564288 sample_daemon = Some (d', effects) \<and> cb_items (ds_queue d') = [] \<and>
     Feed_event Read_host \<in> set effects"
proof -
  have sync: "st_sync (ds_awdl sample_daemon) = sample_sync"
    by (simp add: sample_daemon_def sample_known_def set_peers_def sample_state_def)
  have off: "eaw_offset 564288 (ds_awdl sample_daemon) = 39000" by (simp add: eaw_offset_def since_def sync sample_sync_def)
  have "slot 564288 (ds_awdl sample_daemon) = 10"
    using current_eaw_since [OF sample_sync_ok, of 564288] by (simp add: slot_def sync since_def sample_sync_def)
  moreover have "cb_items (ds_queue sample_daemon) = [sample_mcast]" by (simp add: sample_daemon_def cb_items_def circular_buf_size_def)
  ultimately show ?thesis
    using awdl_send_multicast_order [of sample_core 256 sample_daemon 564288] sample_daemon_ok sample_radiotap_ok off
    by (auto simp: sample_core_def)
qed

section \<open>Unicast frames\<close>

lemma unicast_delay_channel:
  assumes "sync_ok (st_sync state)" and "awdl_can_send_unicast_in state peer now guard = 0"
  shows "awdl_same_channel_as_peer state now peer"
proof -
  have "awdl_sync_next_aw_us now (st_sync state) \<noteq> 0"
    using next_aw_offset [OF assms(1), of now] eaw_offset_less [of now state] by (auto simp: unat_eq_zero [symmetric])
  with assms(2) show ?thesis by (auto simp: awdl_can_send_unicast_in_def Let_def usec_to_sec_pos split: if_splits)
qed

text \<open>C9. What happens to a waiting unicast frame, case by case: one to the own address is given back to the
  host; one to an address that is no peer is dropped; one to a peer is transmitted when no delay is required,
  and then node and peer are on the same channel; and otherwise the frame keeps waiting, nothing is sent, and the
  timer is set to a moment within the next second. In the first three cases the host is asked for more frames.\<close>

theorem awdl_send_unicast_correct:
  assumes "radiotap_header_ok (ce_radiotap env)" and "daemon_ok L d" and "ds_next d = Some b"
  shows "let dst = ether_of_bytes (take 6 (buf_bytes b)); more = [Feed_event Read_host]; s = ds_awdl d in
    if dst = st_self_address s
        then awdl_send_unicast env hwrite now d =
          Some (d\<lparr>ds_next := None\<rparr>, (if io_host_fd (ds_io d) = 0 then [] else [Host_frame (buf_bytes b)]) @ more)
        else (case peer_lookup (peers_of s) dst of
            None \<Rightarrow> awdl_send_unicast env hwrite now d = Some (d\<lparr>ds_next := None\<rparr>, more)
          | Some peer \<Rightarrow>
              if awdl_can_send_unicast_in s peer now AWDL_UNICAST_GUARD_TU = 0
              then awdl_same_channel_as_peer s now peer \<and>
                (\<exists>result s' ie sent d'. awdl_send_data env (ds_io d) b s (ds_ieee80211 d) = Some (result, s', ie, sent) \<and>
                   awdl_send_unicast env hwrite now d = Some (d', sent @ more) \<and> ds_next d' = None \<and> ds_queue d' = ds_queue d \<and>
                   stats_tx_data_unicast (st_stats (ds_awdl d')) = stats_tx_data_unicast (st_stats s') + 1)
              else \<exists>delay. 0 \<le> delay \<and> delay \<le> 1 \<and> awdl_send_unicast env hwrite now d = Some (d, ev_timer_rearm Tx_timer delay))"
proof -
  have b: "frame_ok b" and st: "state_ok L (ds_awdl d)" using assms(2,3) by (simp_all add: daemon_ok_def)
  note sync = daemon_ok_sync [OF assms(2)]
  let ?dst = "ether_of_bytes (take 6 (buf_bytes b))"
  note simps = awdl_send_unicast_def assms(3) host_destination [OF b] tx_rearm_def
    awdl_peer_get_lookup [OF state_ok_peers [OF st]] host_send_def
  have later: "\<exists>delay. 0 \<le> delay \<and> delay \<le> 1 \<and> awdl_send_unicast env hwrite now d = Some (d, ev_timer_rearm Tx_timer delay)"
    if "?dst \<noteq> st_self_address (ds_awdl d)" "peer_lookup (peers_of (ds_awdl d)) ?dst = Some peer"
      "awdl_can_send_unicast_in (ds_awdl d) peer now AWDL_UNICAST_GUARD_TU \<noteq> 0" for peer
  proof -
    let ?delay = "awdl_can_send_unicast_in (ds_awdl d) peer now AWDL_UNICAST_GUARD_TU"
    have range: "0 \<le> retry_delay ?delay AWDL_UNICAST_GUARD_TU" "retry_delay ?delay AWDL_UNICAST_GUARD_TU \<le> 1"
      using delay_ranges(3,4) [OF sync, where guard = AWDL_UNICAST_GUARD_TU and now = now and peer = peer]
        retry_delay_range [of AWDL_UNICAST_GUARD_TU ?delay] by (simp_all add: AWDL_UNICAST_GUARD_TU_def)
    obtain u where "sec_to_usec (retry_delay ?delay AWDL_UNICAST_GUARD_TU) = Some u" using sec_to_usec_defined [OF range] by blast
    with that have "awdl_send_unicast env hwrite now d = Some (d, ev_timer_rearm Tx_timer (retry_delay ?delay AWDL_UNICAST_GUARD_TU))"
      by (simp add: simps Let_def retry_delay_def)
    with range show ?thesis by blast
  qed
  obtain result s ie sent where "awdl_send_data env (ds_io d) b (ds_awdl d) (ds_ieee80211 d) = Some (result, s, ie, sent)"
    using send_data_total [OF assms(1) b st] by blast
  then show ?thesis
    using later unicast_delay_channel [OF sync] by (auto simp: simps Let_def split: option.split)
qed

text \<open>A frame to the own address.\<close>

definition sample_loop :: buf where
  "sample_loop = \<lparr>b_orig = [2, 0, 0, 0, 0, 1, 2, 0, 0, 0, 0, 1, 0x86, 0xdd, 0x60, 0], b_data = 0, b_len = 16, b_owned = True\<rparr>"

theorem awdl_send_unicast_correct_witness:
  "awdl_send_unicast sample_core (\<lambda>_. 16) 40000 (sample_daemon\<lparr>ds_next := Some sample_loop\<rparr>) =
     Some (sample_daemon, [Host_frame (b_orig sample_loop), Feed_event Read_host])"
proof -
  let ?d = "sample_daemon\<lparr>ds_next := Some sample_loop\<rparr>"
  have "frame_ok sample_loop" by (simp add: frame_ok_def sample_loop_def buf_wf_def buf_bytes_def INT_MAX_def)
  then have ok: "daemon_ok 256 ?d" using sample_daemon_ok(1) by (simp add: daemon_ok_def)
  have "ether_of_bytes (take 6 (buf_bytes sample_loop)) = st_self_address (ds_awdl ?d)"
    by (simp add: sample_loop_def buf_bytes_def ether_of_bytes_def sample_daemon_def sample_known_def set_peers_def sample_state_def sample_addr_def)
  moreover have "buf_bytes sample_loop = b_orig sample_loop" by (simp add: sample_loop_def buf_bytes_def)
  moreover have "io_host_fd (ds_io ?d) \<noteq> 0" "ds_next sample_daemon = None" by (simp_all add: sample_daemon_def)
  ultimately show ?thesis
    using awdl_send_unicast_correct [OF _ ok, of sample_core sample_loop "\<lambda>_. 16" 40000] sample_radiotap_ok
    by (simp add: sample_core_def Let_def)
qed

section \<open>Frames of the host\<close>

text \<open>One frame for a group goes to the queue, one for a single receiver ends the poll.\<close>

lemma poll_group:
  assumes "daemon_ok L d" and "ds_next d = None" and "io_host_fd (ds_io d) \<noteq> 0" and "6 \<le> length bs"
    and "\<not> circular_buf_is_full (ds_queue d)" and "to_group bs" and "d' = d\<lparr>ds_queue := circular_buf_put (ds_queue d) (host_buf junk bs)\<rparr>"
  shows "cb_items (ds_queue d') = cb_items (ds_queue d) @ [host_buf junk bs]" and "daemon_ok L d'"
    and "poll_host_device junk (map Inr (bs # frames)) d (if m then POLL_NEW_MULTICAST else 0) =
      poll_host_device junk (map Inr frames) d' POLL_NEW_MULTICAST"
proof -
  have inv: "cb_inv (ds_queue d)" "cb_max (ds_queue d) = 16" using assms(1) by (simp_all add: daemon_ok_def)
  show items: "cb_items (ds_queue d') = cb_items (ds_queue d) @ [host_buf junk bs]"
    using cb_items_put [OF inv(1)] assms(5,7) by (simp add: circular_buf_is_full_def)
  show "daemon_ok L d'" using assms(1,4,7) host_buf_ok [of bs junk] cb_inv_put [OF inv(1)] items by (simp add: daemon_ok_def)
  show "poll_host_device junk (map Inr (bs # frames)) d (if m then POLL_NEW_MULTICAST else 0) =
      poll_host_device junk (map Inr frames) d' POLL_NEW_MULTICAST"
    using assms(2-7) by (simp add: poll_Cons POLL_NEW_MULTICAST_def)
qed

lemma poll_single:
  assumes "ds_next d = None" and "io_host_fd (ds_io d) \<noteq> 0" and "6 \<le> length bs" and "\<not> circular_buf_is_full (ds_queue d)" and "\<not> to_group bs"
  shows "poll_host_device junk (map Inr (bs # frames)) d r = Some (or r POLL_NEW_UNICAST, d\<lparr>ds_next := Some (host_buf junk bs)\<rparr>)"
  using assms by (cases frames) (simp_all add: poll_Cons poll_Nil)

lemma poll_frames:
  assumes "daemon_ok L d" and "ds_next d = None" and "io_host_fd (ds_io d) \<noteq> 0" and "\<forall>bs\<in>set frames. 6 \<le> length bs"
    and "ms = takeWhile to_group (take (16 - length (cb_items (ds_queue d))) frames)"
    and "next = (if length ms < length frames \<and> length (cb_items (ds_queue d)) + length ms < 16 then Some (frames ! length ms) else None)"
  shows "\<exists>d'. poll_host_device junk (map Inr frames) d (if m then POLL_NEW_MULTICAST else 0) =
      Some ((if m \<or> ms \<noteq> [] then POLL_NEW_MULTICAST else 0) + (if next \<noteq> None then POLL_NEW_UNICAST else 0), d') \<and>
    cb_items (ds_queue d') = cb_items (ds_queue d) @ map (host_buf junk) ms \<and> ds_next d' = map_option (host_buf junk) next \<and>
    ds_awdl d' = ds_awdl d \<and> ds_io d' = ds_io d"
  using assms
proof (induction frames arbitrary: d ms m)
  case Nil
  then show ?case by (simp add: poll_Nil)
next
  case (Cons bs frames)
  have inv: "cb_inv (ds_queue d)" "cb_max (ds_queue d) = 16" using Cons.prems(1) by (simp_all add: daemon_ok_def)
  note full = cb_full_size [OF inv(1)]
  show ?case
  proof (cases "circular_buf_is_full (ds_queue d)")
    case True
    then have "length (cb_items (ds_queue d)) = 16" using full inv(2) by (simp add: circular_buf_is_full_def)
    with True Cons.prems show ?thesis by (simp add: poll_Cons)
  next
    case False
    then have room: "length (cb_items (ds_queue d)) < 16"
      using full inv cb_size_le [OF inv(1)] by (simp add: circular_buf_is_full_def)
    show ?thesis
    proof (cases "to_group bs")
      case True
      let ?d = "d\<lparr>ds_queue := circular_buf_put (ds_queue d) (host_buf junk bs)\<rparr>"
      have six: "6 \<le> length bs" using Cons.prems(4) by simp
      note items = poll_group(1) [OF Cons.prems(1-3) six False True refl, of junk]
      note ok = poll_group(2) [OF Cons.prems(1-3) six False True refl, of junk]
      obtain k where k: "16 - length (cb_items (ds_queue d)) = Suc k" using room by (metis Suc_diff_Suc)
      then have k': "16 - length (cb_items (ds_queue ?d)) = k" by (simp only: items) simp
      have ms: "ms = bs # takeWhile to_group (take k frames)" using Cons.prems(5) True unfolding k by simp
      have "next = (if length (tl ms) < length frames \<and> length (cb_items (ds_queue ?d)) + length (tl ms) < 16 then Some (frames ! length (tl ms)) else None)"
        using Cons.prems(6) ms by (simp only: items) simp
      moreover have "ds_next ?d = None" "io_host_fd (ds_io ?d) \<noteq> 0" "\<forall>bs\<in>set frames. 6 \<le> length bs"
        using Cons.prems(2-4) by simp_all
      moreover have "tl ms = takeWhile to_group (take (16 - length (cb_items (ds_queue ?d))) frames)" unfolding k' ms by simp
      ultimately have IH: "\<exists>d'. poll_host_device junk (map Inr frames) ?d POLL_NEW_MULTICAST =
          Some (POLL_NEW_MULTICAST + (if next \<noteq> None then POLL_NEW_UNICAST else 0), d') \<and>
          cb_items (ds_queue d') = cb_items (ds_queue ?d) @ map (host_buf junk) (tl ms) \<and> ds_next d' = map_option (host_buf junk) next \<and>
          ds_awdl d' = ds_awdl ?d \<and> ds_io d' = ds_io ?d"
        using Cons.IH [OF ok, of "tl ms" True] by (simp only: if_True simp_thms)
      with poll_group(3) [OF Cons.prems(1-3) six False True refl] show ?thesis unfolding items by (simp add: ms)
    next
      case u: False
      have "ms = []" using Cons.prems(5) u room by (cases "16 - length (cb_items (ds_queue d))") simp_all
      then have "next = Some bs" using Cons.prems(6) room by simp
      moreover note poll_single [OF Cons.prems(2,3) _ False u, of junk frames]
      ultimately show ?thesis using \<open>ms = []\<close> Cons.prems(4) by (simp add: POLL_NEW_MULTICAST_def POLL_NEW_UNICAST_def)
    qed
  qed
qed

text \<open>C12. Reading from the host loses and reorders nothing and overwrites no waiting frame. From a host
  device that delivers complete Ethernet frames, the poll takes the group-addressed frames up to the free room
  of the queue and appends them in order, cut to 1518 bytes each, behind those that wait; it stops at the first
  other frame, which becomes the waiting unicast frame, or when the queue is full; and its result tells which
  kinds of frames it read.\<close>

theorem poll_host_device_fifo:
  assumes "daemon_ok L d" and "ds_next d = None" and "io_host_fd (ds_io d) \<noteq> 0" and "\<forall>bs\<in>set frames. 6 \<le> length bs"
  shows "let queued = map buf_bytes (cb_items (ds_queue d));
      ms = takeWhile to_group (take (16 - length queued) frames);
      unicast = length ms < length frames \<and> length queued + length ms < 16 in
    \<exists>result d'. poll_host_device junk (map Inr frames) d 0 = Some (result, d') \<and>
      map buf_bytes (cb_items (ds_queue d')) = queued @ map (take 1518) ms \<and>
      map_option buf_bytes (ds_next d') = (if unicast then Some (take 1518 (frames ! length ms)) else None) \<and>
      result = (if ms \<noteq> [] then POLL_NEW_MULTICAST else 0) + (if unicast then POLL_NEW_UNICAST else 0)"
  using poll_frames [OF assms refl refl, of junk False]
  by (fastforce simp: Let_def host_buf_bytes)

theorem poll_host_device_fifo_witness:
  "\<exists>d'. poll_host_device (\<lambda>_. 0) [Inr (b_orig sample_mcast), Inr (b_orig sample_loop), Inr (b_orig sample_mcast)] sample_daemon 0 = Some (3, d') \<and>
     map buf_bytes (cb_items (ds_queue d')) = [b_orig sample_mcast, b_orig sample_mcast] \<and>
     map_option buf_bytes (ds_next d') = Some (b_orig sample_loop)"
proof -
  have group: "to_group (b_orig sample_mcast)" "\<not> to_group (b_orig sample_loop)"
    by (simp_all add: to_group_def sample_mcast_def sample_loop_def)
  have bytes: "buf_bytes sample_mcast = b_orig sample_mcast" "length (b_orig sample_mcast) = 16" "length (b_orig sample_loop) = 16"
    by (simp_all add: sample_mcast_def sample_loop_def buf_bytes_def)
  have d: "cb_items (ds_queue sample_daemon) = [sample_mcast]" "ds_next sample_daemon = None" "io_host_fd (ds_io sample_daemon) \<noteq> 0"
    by (simp_all add: sample_daemon_def cb_items_def circular_buf_size_def)
  from poll_host_device_fifo [OF sample_daemon_ok(1) d(2,3), of "[b_orig sample_mcast, b_orig sample_loop, b_orig sample_mcast]" "\<lambda>_. 0"]
  show ?thesis by (simp add: Let_def d group bytes POLL_NEW_MULTICAST_def POLL_NEW_UNICAST_def del: length_cb_items)
qed

end
