(* ===== verification/Link.thy ===== *)
theory Link
  imports Exchange Sending
begin

text \<open>
  One hop from node to node: what the radio makes of an injected frame, and that a frame of the host sent by
  \<^verbatim>\<open>src/daemon/core.c\<close> of one node is written to the host device by the same code on another node.
\<close>

section \<open>The radio\<close>

text \<open>Of an injected frame the card sends what stands between the radiotap header and the checksum, if the daemon wrote one.\<close>

definition on_air :: "ieee80211_state \<Rightarrow> u8 list \<Rightarrow> u8 list" where
  "on_air ie frame = take (length frame - 9 - (if ie_fcs ie then 4 else 0)) (drop 9 frame)"

text \<open>A captured packet has a radiotap header of the receiving card in front of these bytes, and the checksum behind them if the
  flags of that header say so. The frame is not marked as damaged.\<close>

definition captured :: "radiotap \<Rightarrow> rx_env \<Rightarrow> u8 list \<Rightarrow> u8 list \<Rightarrow> int \<Rightarrow> bool" where
  "captured rt rx packet air rssi \<longleftrightarrow>
     (\<exists>head trailer flags. packet = head @ air @ trailer \<and> int (length packet) \<le> INT_MAX \<and>
        unat (rt_it_len rt packet) = length head \<and>
        length trailer = (if flags AND rt_F_FCS rt \<noteq> 0 then 4 else 0) \<and> flags AND rt_F_BADFCS rt = 0 \<and>
        (\<exists>err found. rt_iterate rt packet (int (length packet)) = (err, found, True) \<and> 0 \<le> err \<and>
           fold (radiotap_field rt) found (env_rssi rx, env_flags rx) = (rssi, flags)))"

lemma rx_captured:
  assumes "captured rt rx packet air rssi"
  shows "\<exists>frame b. buf_new_const packet (int (length packet)) = Some frame \<and> buf_wf b \<and> buf_bytes b = air \<and>
    awdl_rx rt rx cap now frame s = rx_ieee80211 rx cap now rssi b s"
proof -
  obtain head trailer flags err found where c: "packet = head @ air @ trailer" "int (length packet) \<le> INT_MAX"
    "unat (rt_it_len rt packet) = length head" "length trailer = (if flags AND rt_F_FCS rt \<noteq> 0 then 4 else 0)"
    "flags AND rt_F_BADFCS rt = 0" "rt_iterate rt packet (int (length packet)) = (err, found, True)" "0 \<le> err"
    "fold (radiotap_field rt) found (env_rssi rx, env_flags rx) = (rssi, flags)"
    using assms unfolding captured_def by blast
  obtain frame where frame: "buf_new_const packet (int (length packet)) = Some frame" by (simp add: buf_new_const_def)
  have wf: "buf_wf frame" "buf_bytes frame = packet" using buf_new_const_wf [OF frame] c(2) by simp_all
  have data: "buf_data frame = packet" "buf_len frame = int (length packet)"
    using frame by (auto simp: buf_new_const_def buf_data_def buf_len_def)
  have parse: "radiotap_parse rt frame (env_rssi rx) (env_flags rx) = (RX_OK, rssi, flags)"
    using c(6-8) by (simp add: radiotap_parse_def data)
  obtain f1 where f1: "buf_strip frame (int (length head)) = Ret (int (length head)) f1" "buf_wf f1" "buf_bytes f1 = air @ trailer"
    using buf_strip_ok [OF wf(1), of "length head"] wf(2) c(1) by auto
  have len: "b_len f1 = int (length air + length trailer)" using b_len_eq [OF f1(2)] f1(3) by simp
  have "\<exists>b. check_fcs rt f1 flags = (0, b) \<and> buf_wf b \<and> buf_bytes b = air"
  proof (cases "flags AND rt_F_FCS rt = 0")
    case True
    then show ?thesis using c(4,5) f1(2,3) by (simp add: check_fcs_def)
  next
    case False
    then obtain b where "buf_take f1 4 = Ret 4 b" using len c(4) by (auto simp: buf_take_def)
    then show ?thesis using buf_take_wf [OF f1(2)] f1(3) False c(4,5) by (fastforce simp: check_fcs_def)
  qed
  then show ?thesis using frame parse f1(1) c(3) by (auto simp: awdl_rx_def data checked_def)
qed

section \<open>Data\<close>

lemma awdl_data_fields:
  "length (fst (awdl_init_data s)) = 8" "take 2 (drop 6 (fst (awdl_init_data s))) = be16_bytes ETH_P_IPV6"
  by (simp_all add: awdl_init_data_def awdl_state_next_sequence_number_def awdl_data_bytes_def)

lemma own_data_fields:
  assumes "bs = llc_init_awdl_hdr @ fst (awdl_init_data s) @ payload"
  shows "llc_ok bs" "16 \<le> length bs" "be16_value (take 2 (drop 14 bs)) = ETH_P_IPV6" "drop 16 bs = payload"
proof -
  have "take 3 llc_init_awdl_hdr = [0xaa, 0xaa, 0x03]" "take 2 (drop 6 llc_init_awdl_hdr) = be16_bytes AWDL_LLC_PROTOCOL_ID"
    by (simp_all add: llc_init_awdl_hdr_def llc_hdr_bytes_def AWDL_OUI_def numeral_3_eq_3)
  then show "llc_ok bs" "16 \<le> length bs" "be16_value (take 2 (drop 14 bs)) = ETH_P_IPV6" "drop 16 bs = payload"
    using awdl_data_fields [of s] by (simp_all add: assms llc_ok_def)
qed

lemma data_on_air:
  assumes "radiotap_header_ok rt" and "awdl_init_full_data_frame rt src dst payload s ie = (frame, s', ie')"
  shows "\<exists>hdr. ieee80211_init_awdl_hdr src dst ie (IEEE80211_FTYPE_DATA OR IEEE80211_STYPE_DATA) = (hdr, ie') \<and>
    on_air ie frame = hdr @ llc_init_awdl_hdr @ fst (awdl_init_data s) @ payload"
  using assms(2) length_radiotap [OF assms(1)]
  by (auto simp: awdl_init_full_data_frame_def ieee80211_init_awdl_data_hdr_def Let_def ieee80211_add_fcs_def on_air_def
      split: prod.splits)

lemma receive_data:
  assumes "state_ok L (ds_awdl d)" and "radiotap_header_ok rt" and "captured (ce_radiotap env) rx packet (on_air ie frame) rssi"
    and "awdl_init_full_data_frame rt src dst payload s ie = (frame, s1, ie')" and "src \<noteq> st_self_address (ds_awdl d)"
    and "peer_lookup (peers_of (ds_awdl d)) src \<noteq> None" and "io_host_fd (ds_io d) \<noteq> 0"
  shows "awdl_receive_frame env rx write now packet d =
    Some (d\<lparr>ds_awdl := count_rx_data (ds_awdl d)\<rparr>, [Host_frame (delivered (env_frame rx) src dst ETH_P_IPV6 payload)])"
proof -
  obtain hdr where hdr: "ieee80211_init_awdl_hdr src dst ie (IEEE80211_FTYPE_DATA OR IEEE80211_STYPE_DATA) = (hdr, ie')"
    "on_air ie frame = hdr @ llc_init_awdl_hdr @ fst (awdl_init_data s) @ payload"
    using data_on_air [OF assms(2,4)] by blast
  obtain f b where b: "buf_new_const packet (int (length packet)) = Some f" "buf_wf b" "buf_bytes b = on_air ie frame"
    "awdl_rx (ce_radiotap env) rx MAX_NUM_AMPDU now f (ds_awdl d) = rx_ieee80211 rx MAX_NUM_AMPDU now rssi b (ds_awdl d)"
    using rx_captured [OF assms(3)] by blast
  obtain b' where b': "buf_wf b'" "buf_bytes b' = llc_init_awdl_hdr @ fst (awdl_init_data s) @ payload"
    "rx_ieee80211 rx MAX_NUM_AMPDU now rssi b (ds_awdl d) = rx_result_data (awdl_rx_data rx MAX_NUM_AMPDU b' [] src dst (ds_awdl d))"
    using rx_own_hdr [OF hdr(1) b(2) b(3) [unfolded hdr(2)], of rx MAX_NUM_AMPDU now rssi "ds_awdl d"] assms(5)
    unfolding dispatch_data by auto
  note fields = own_data_fields [OF b'(2)]
  have "\<exists>o'. awdl_rx_data rx MAX_NUM_AMPDU b' [] src dst (ds_awdl d) = Some (RX_OK, [o'], count_rx_data (ds_awdl d)) \<and>
      buf_bytes o' = delivered (env_frame rx) src dst ETH_P_IPV6 payload"
    using rx_data_total [OF assms(1) b'(1), of src "[]" MAX_NUM_AMPDU rx dst] fields assms(6)
    by (auto simp: MAX_NUM_AMPDU_def split: if_split_asm)
  then show ?thesis
    using b(1,4) b'(3) assms(7) by (auto simp: awdl_receive_frame_def rx_result_data_def host_send_def Let_def)
qed

lemma delivered_host_frame:
  assumes "14 \<le> length bs" and "length bs \<le> 1518"
  shows "take (length bs) (delivered junk (ether_of_bytes (take 6 (drop 6 bs))) (ether_of_bytes (take 6 bs)) t (drop 14 bs)) =
    take 12 bs @ be16_bytes t @ drop 14 bs"
proof -
  have "take 6 bs @ take 6 (drop 6 bs) = take 12 bs" using take_add [of 6 6 bs] by simp
  moreover have "length (drop 14 bs) \<le> 1504" using assms(2) by simp
  ultimately show ?thesis
    using assms(1) by (simp add: delivered_def Let_def ether_bytes_of_bytes)
qed

section \<open>Properties\<close>

text \<open>C6. A frame of the host goes from node to node. The daemon injects one frame for it; whenever another node that knows the
  sender captures that frame, its daemon writes exactly one frame to its host device: both addresses and the payload are those of
  the original frame, the type is that of IPv6 whatever it was, and unspecified bytes fill the frame up to 1518 bytes.\<close>

theorem data_frame_exchange:
  assumes "radiotap_header_ok (ce_radiotap env)" and "frame_ok b" and "14 \<le> length (buf_bytes b)" and "io_wlan_handle io"
    and "src = ether_of_bytes (take 6 (drop 6 (buf_bytes b)))"
    and "daemon_ok L d" and "src \<noteq> st_self_address (ds_awdl d)" and "peer_lookup (peers_of (ds_awdl d)) src \<noteq> None"
    and "io_host_fd (ds_io d) \<noteq> 0"
  shows "\<exists>frame s' ie'. awdl_send_data env io b s ie =
      Some (if ce_inject env frame < 0 then TX_FAIL else TX_OK, s', ie', [Wlan_frame frame]) \<and>
    length frame \<le> length (buf_bytes b) + 39 \<and>
    (\<forall>env' rx packet rssi write now. captured (ce_radiotap env') rx packet (on_air ie frame) rssi \<longrightarrow>
      (\<exists>host. awdl_receive_frame env' rx write now packet d = Some (d\<lparr>ds_awdl := count_rx_data (ds_awdl d)\<rparr>, [Host_frame host]) \<and>
         take (length (buf_bytes b)) host = take 12 (buf_bytes b) @ be16_bytes ETH_P_IPV6 @ drop 14 (buf_bytes b) \<and>
         length host = 1518))"
proof -
  have len: "length (buf_bytes b) \<le> 1518" using assms(2) by (simp add: frame_ok_def)
  have ok: "state_ok L (ds_awdl d)" using assms(6) by (simp add: daemon_ok_def)
  obtain frame s1 s' ie' where sent: "awdl_send_data env io b s ie =
      Some (if ce_inject env frame < 0 then TX_FAIL else TX_OK, s', ie', [Wlan_frame frame])"
    and f: "awdl_init_full_data_frame (ce_radiotap env) src (ether_of_bytes (take 6 (buf_bytes b))) (drop 14 (buf_bytes b)) s ie =
      (frame, s1, ie')" and size: "length frame \<le> length (buf_bytes b) + 39"
    unfolding assms(5) by (rule send_data_frame [OF assms(1-4)])
  from sent size receive_data [OF ok assms(1) _ f assms(7-9)] delivered_host_frame [OF assms(3) len] show ?thesis
    unfolding assms(5) by fastforce
qed

text \<open>An IPv6 packet of the known peer, captured with the radiotap header of the sender.\<close>

definition sample_host :: buf where
  "sample_host = \<lparr>b_orig = ether_bytes sample_addr @ ether_bytes sample_peer_addr @ [0x86, 0xdd, 0x60, 1, 2], b_data = 0, b_len = 17,
     b_owned = False\<rparr>"

lemma sample_captured:
  assumes "length air \<le> 2000"
  shows "captured sample_radiotap sample_env ([0, 0, 9, 0, 4, 0, 0, 0, 24] @ air) air 0"
  unfolding captured_def using assms
  by (intro exI [of _ "[0, 0, 9, 0, 4, 0, 0, 0, 24] :: u8 list"] exI [of _ "[] :: u8 list"] exI [of _ 0])
    (simp add: sample_radiotap_def sample_env_def INT_MAX_def radiotap_field_def le16_value_def)

theorem data_frame_exchange_witness:
  "\<exists>frame s' ie' host d'. awdl_send_data sample_core (ds_io sample_daemon) sample_host sample_sender ieee80211_init_state =
      Some (TX_OK, s', ie', [Wlan_frame frame]) \<and>
     awdl_receive_frame sample_core sample_env (\<lambda>_. 0) 9
       ([0, 0, 9, 0, 4, 0, 0, 0, 24] @ on_air ieee80211_init_state frame) sample_daemon = Some (d', [Host_frame host]) \<and>
     take 17 host = buf_bytes sample_host"
proof -
  have bytes: "buf_bytes sample_host = ether_bytes sample_addr @ ether_bytes sample_peer_addr @ [0x86, 0xdd, 0x60, 1, 2]"
    by (simp add: sample_host_def buf_bytes_def)
  have b: "frame_ok sample_host" by (simp add: frame_ok_def bytes) (simp add: sample_host_def buf_wf_def INT_MAX_def)
  have rt: "radiotap_header_ok (ce_radiotap sample_core)" using sample_radiotap_ok by (simp add: sample_core_def)
  have src: "sample_peer_addr = ether_of_bytes (take 6 (drop 6 (buf_bytes sample_host)))" by (simp add: bytes)
  have dev: "io_wlan_handle (ds_io sample_daemon)" "io_host_fd (ds_io sample_daemon) \<noteq> 0" by (simp_all add: sample_daemon_def)
  have known: "sample_peer_addr \<noteq> st_self_address (ds_awdl sample_daemon)" "peer_lookup (peers_of (ds_awdl sample_daemon)) sample_peer_addr \<noteq> None"
    using sample_known_ok(2)
    by (simp_all add: sample_daemon_def sample_known_def set_peers_def sample_state_def sample_peer_addr_def sample_addr_def)
  have len: "14 \<le> length (buf_bytes sample_host)" by (simp add: bytes)
  from data_frame_exchange [OF rt b len dev(1) src sample_daemon_ok(1) known dev(2), of sample_sender ieee80211_init_state]
  obtain frame s' ie' where sent: "awdl_send_data sample_core (ds_io sample_daemon) sample_host sample_sender ieee80211_init_state =
      Some (if ce_inject sample_core frame < 0 then TX_FAIL else TX_OK, s', ie', [Wlan_frame frame])"
    and size: "length frame \<le> length (buf_bytes sample_host) + 39"
    and rx: "\<forall>env' rx packet rssi write now. captured (ce_radiotap env') rx packet (on_air ieee80211_init_state frame) rssi \<longrightarrow>
      (\<exists>host. awdl_receive_frame env' rx write now packet sample_daemon =
          Some (sample_daemon\<lparr>ds_awdl := count_rx_data (ds_awdl sample_daemon)\<rparr>, [Host_frame host]) \<and>
        take (length (buf_bytes sample_host)) host =
          take 12 (buf_bytes sample_host) @ be16_bytes ETH_P_IPV6 @ drop 14 (buf_bytes sample_host) \<and> length host = 1518)"
    by (elim exE conjE)
  from size have "length (on_air ieee80211_init_state frame) \<le> 2000" by (simp add: on_air_def bytes)
  then have "captured (ce_radiotap sample_core) sample_env ([0, 0, 9, 0, 4, 0, 0, 0, 24] @ on_air ieee80211_init_state frame)
      (on_air ieee80211_init_state frame) 0"
    unfolding sample_core_def core_env.simps by (rule sample_captured)
  with rx obtain host where "awdl_receive_frame sample_core sample_env (\<lambda>_. 0) 9
      ([0, 0, 9, 0, 4, 0, 0, 0, 24] @ on_air ieee80211_init_state frame) sample_daemon =
        Some (sample_daemon\<lparr>ds_awdl := count_rx_data (ds_awdl sample_daemon)\<rparr>, [Host_frame host])"
    "take 17 host = buf_bytes sample_host"
    unfolding bytes by (fastforce simp: ETH_P_IPV6_def be16_bytes_def)
  moreover have "awdl_send_data sample_core (ds_io sample_daemon) sample_host sample_sender ieee80211_init_state =
      Some (TX_OK, s', ie', [Wlan_frame frame])"
    using sent by (simp add: sample_core_def)
  ultimately show ?thesis by blast
qed

end
