(* ===== verification/Timers.thy ===== *)
theory Timers
  imports Sending
begin

text \<open>
  The timer handlers of \<^verbatim>\<open>src/daemon/core.c\<close> that follow the channel sequence and clean the peer table.
\<close>

lemma next_aw_boundary:
  assumes "sync_ok (st_sync state)"
  shows "eaw_offset (now + awdl_sync_next_aw_us now (st_sync state)) state = 0"
    and "slot (now + awdl_sync_next_aw_us now (st_sync state)) state = (slot now state + 1) mod 16"
  using next_aw_offset [OF assms, of now] eaw_offset_less [of now state]
  by (simp_all add: eaw_offset_later slot_later [OF assms])

section \<open>Properties\<close>

lemma sample_known_update: "peer_lookup (peers_of sample_known) sample_peer_addr = Some p \<Longrightarrow> p_last_update p = 42"
  by (auto simp: sample_known_def sample_table_ok(2) peer_refresh_def)

text \<open>C22. The radio follows the channel sequence. After the handler ran the current channel is that of the
  slot of the moment, unless the sequence has no channel there, and then it is the old one; the radio is
  tuned exactly when the channel number changes and the WLAN is a device; and the timer is set to
  the first moment of the next slot.\<close>

theorem awdl_switch_channel_follows:
  assumes "daemon_ok L d" and "awdl_switch_channel now d = (d', effects)"
  shows "let channel = st_channel (ds_awdl d);
      num = \<lambda>chan. awdl_chan_num chan (ch_enc channel);
      scheduled = num (ch_sequence channel ! slot now (ds_awdl d));
      old = num (ch_current channel);
      delay = awdl_sync_next_aw_us now (st_sync (ds_awdl d)) in
    num (ch_current (st_channel (ds_awdl d'))) = (if scheduled = 0 then old else scheduled) \<and>
    (\<forall>i c. Set_channel i c \<in> set effects \<longleftrightarrow>
       i = io_wlan_ifindex (ds_io d) \<and> c = uint scheduled \<and> scheduled \<noteq> 0 \<and> scheduled \<noteq> old \<and> \<not> io_wlan_is_file (ds_io d)) \<and>
    Timer_set Chan_timer (usec_to_sec delay) 0 \<in> set effects \<and>
    eaw_offset (now + delay) (ds_awdl d) = 0 \<and> slot (now + delay) (ds_awdl d) = (slot now (ds_awdl d) + 1) mod 16"
proof -
  have "unat (awdl_sync_current_eaw now (st_sync (ds_awdl d))) mod AWDL_CHANSEQ_LENGTH = slot now (ds_awdl d)"
    by (simp add: slot_def AWDL_CHANSEQ_LENGTH_def)
  with assms(2) next_aw_boundary [OF daemon_ok_sync [OF assms(1)], of now] show ?thesis
    by (auto simp: awdl_switch_channel_def Let_def ev_timer_rearm_def split: if_splits)
qed

theorem awdl_switch_channel_follows_witness:
  "\<exists>d' effects. awdl_switch_channel 40000 sample_daemon = (d', effects) \<and>
     awdl_chan_num (ch_current (st_channel (ds_awdl d'))) AWDL_CHAN_ENC_OPCLASS = 6 \<and> Set_channel 0 6 \<in> set effects"
proof -
  obtain d' effects where r: "awdl_switch_channel 40000 sample_daemon = (d', effects)" by fastforce
  have ch: "st_channel (ds_awdl sample_daemon) = st_channel sample_state" "io_wlan_ifindex (ds_io sample_daemon) = 0"
    "\<not> io_wlan_is_file (ds_io sample_daemon)"
    by (simp_all add: sample_daemon_def sample_known_def set_peers_def sample_io_def)
  have "ch_sequence (st_channel sample_state) ! i = CHAN_OPCLASS_6" if "i < 16" for i
    using that by (simp add: sample_state_def awdl_chanseq_init_static_def AWDL_CHANSEQ_LENGTH_def)
  then show ?thesis
    using awdl_switch_channel_follows [OF sample_daemon_ok(1) r] slot_less [of 40000 "ds_awdl sample_daemon"]
    by (auto simp: ch r Let_def sample_state_def awdl_chan_num_def CHAN_OPCLASS_6_def CHAN_NULL_def)
qed

text \<open>C23. Cleaning removes the peers that were silent for longer than the timeout, tells the host's
  neighbour table about the valid ones among them, runs the election over the others, and sets the timer again.
  The cutoff is computed in unsigned arithmetic: while the clock shows less than the timeout it wraps, and then
  every peer whose last frame is older than a moment close to the end of the range is removed, that is
  all of them.\<close>

theorem awdl_clean_peers_correct:
  assumes "daemon_ok L d" and "awdl_clean_peers now d = (d', effects)"
  shows "let timeout = unat (ps_timeout (st_peers (ds_awdl d)));
      end_of_time = (if timeout \<le> unat now then unat now else unat now + 2 ^ 64);
      stale = (\<lambda>p. unat (p_last_update p) + timeout < end_of_time);
      old = peer_lookup (peers_of (ds_awdl d)) in
    (\<forall>a. peer_lookup (peers_of (ds_awdl d')) a = (case old a of None \<Rightarrow> None | Some p \<Rightarrow> if stale p then None else Some p)) \<and>
    st_election (ds_awdl d') = awdl_election_run (st_election (ds_awdl d)) (peers_of (ds_awdl d')) \<and>
    (\<forall>i a. Neighbor_remove i a \<in> set effects \<longleftrightarrow>
       i = io_host_ifindex (ds_io d) \<and> st_peer_remove_cb (ds_awdl d) \<and> (\<exists>p. old a = Some p \<and> p_is_valid p \<and> stale p)) \<and>
    last effects = Timer_again Peer_timer"
proof -
  let ?s = "ds_awdl d"
  let ?cut = "now - ps_timeout (st_peers ?s)"
  obtain m called where r: "awdl_peers_remove (peers_of ?s) ?cut (st_peer_remove_cb ?s) = (m, called)" by fastforce
  have inv: "peers_inv L (peers_of ?s)" using state_ok_peers assms(1) by (simp add: daemon_ok_def)
  note spec = peers_remove_spec [OF inv r]
  have d': "d' = d\<lparr>ds_awdl := (set_peers ?s m)\<lparr>st_election := awdl_election_run (st_election ?s) m\<rparr>\<rparr>"
    and effects: "effects = map (awdl_neighbor_remove (ds_io d)) called @ [Timer_again Peer_timer]"
    using assms(2) by (simp_all add: awdl_clean_peers_def r Let_def) (simp_all add: set_peers_def)
  have peers: "peers_of (ds_awdl d') = m" by (simp add: d' set_peers_def peers_of_def)
  have stale: "p_last_update p < ?cut \<longleftrightarrow> unat (p_last_update p) + unat (ps_timeout (st_peers ?s)) <
      (if unat (ps_timeout (st_peers ?s)) \<le> unat now then unat now else unat now + 2 ^ 64)" for p
    by (simp add: word_less_nat_alt unat_sub_if' less_diff_conv word_le_nat_alt)
  have called: "set called = {p. st_peer_remove_cb ?s \<and> p_is_valid p \<and> p_last_update p < ?cut \<and> peer_lookup (peers_of ?s) (p_addr p) = Some p}"
    using peers_list_set [OF inv] by (auto simp: spec(3))
  have addr: "peer_lookup (peers_of ?s) a = Some p \<Longrightarrow> p_addr p = a" for a p using peer_lookup_ok [OF inv] by blast
  have "st_election (ds_awdl d') = awdl_election_run (st_election ?s) m" by (simp add: d')
  moreover have "Neighbor_remove i a \<in> set effects \<longleftrightarrow> i = io_host_ifindex (ds_io d) \<and> st_peer_remove_cb ?s \<and>
      (\<exists>p. peer_lookup (peers_of ?s) a = Some p \<and> p_is_valid p \<and> p_last_update p < ?cut)" for i a
    using called addr by (auto simp: effects awdl_neighbor_remove_def)
  ultimately show ?thesis
    unfolding Let_def peers stale [symmetric] by (simp add: spec(4) effects)
qed

theorem awdl_clean_peers_correct_witness:
  "peer_lookup (peers_of (ds_awdl (fst (awdl_clean_peers 1000000 sample_daemon)))) sample_peer_addr = None \<and>
   last (snd (awdl_clean_peers 1000000 sample_daemon)) = Timer_again Peer_timer"
proof -
  obtain d' effects where r: "awdl_clean_peers 1000000 sample_daemon = (d', effects)" by fastforce
  have "ps_timeout (st_peers (ds_awdl sample_daemon)) = 2000000" by (simp add: sample_daemon_def sample_known_def set_peers_def sample_state_def)
  moreover obtain p where "peer_lookup (peers_of (ds_awdl sample_daemon)) sample_peer_addr = Some p"
    using sample_known_ok(2) by (auto simp: sample_daemon_def)
  moreover have "p_last_update p = 42" if "peer_lookup (peers_of (ds_awdl sample_daemon)) sample_peer_addr = Some p" for p
    using that sample_known_update by (simp add: sample_daemon_def)
  ultimately show ?thesis
    using awdl_clean_peers_correct [OF sample_daemon_ok(1) r] by (simp add: r Let_def)
qed

end
