(* ===== verification/Mesh.thy ===== *)
theory Mesh
  imports Link Timers
begin

text \<open>
  A network of nodes that all run the daemon of \<^verbatim>\<open>src/daemon/core.c\<close>. Nodes take turns in any order, frames
  are lost, delayed and repeated at will, and every handler is the one of the event loop. The theory shows what the election of
  \<^verbatim>\<open>src/src/election.c\<close>, which each node runs over what it last heard of the others, achieves for the network.
\<close>

section \<open>Frames in the air\<close>

definition action_air :: "awdl_state \<Rightarrow> awdl_action_type \<Rightarrow> u8 list \<Rightarrow> bool" where
  "action_air s type bytes \<longleftrightarrow>
     (\<exists>now1 now2 ie ie' hdr arpa. ieee80211_init_awdl_action_hdr (st_self_address s) (st_dst s) ie = (hdr, ie') \<and>
        (type = AWDL_ACTION_MIF \<longrightarrow> awdl_init_arpa_tlv s = Some arpa) \<and>
        bytes = hdr @ awdl_init_action now1 type @ concat (map snd (action_tlvs now2 s type arpa)))"

definition data_air :: "u8 list \<Rightarrow> bool" where
  "data_air bytes \<longleftrightarrow>
     (\<exists>src dst ie ie' hdr s payload. ieee80211_init_awdl_data_hdr src dst ie = (hdr, ie') \<and>
        bytes = hdr @ llc_init_awdl_hdr @ fst (awdl_init_data s) @ payload)"

lemma action_on_air:
  assumes "radiotap_header_ok rt" and "awdl_init_full_action_frame rt now1 now2 s ie type = Some (frame, ie')"
  shows "action_air s type (on_air ie frame)"
proof (rule full_action_frame [OF assms(2)])
  fix arpa hdr
  let ?body = "hdr @ awdl_init_action now1 type @ concat (map snd (action_tlvs now2 s type arpa))"
  assume h: "ieee80211_init_awdl_action_hdr (st_self_address s) (st_dst s) ie = (hdr, ie')"
    "type = AWDL_ACTION_MIF \<longrightarrow> awdl_init_arpa_tlv s = Some arpa"
    and "frame = (let body = ieee80211_init_radiotap_header rt @ ?body in body @ (if ie_fcs ie then ieee80211_add_fcs body else []))"
  then have "on_air ie frame = ?body"
    by (simp add: on_air_def Let_def length_radiotap [OF assms(1)] ieee80211_add_fcs_def)
  with h show ?thesis unfolding action_air_def by blast
qed

lemma data_frame_on_air:
  assumes "radiotap_header_ok rt" and "awdl_init_full_data_frame rt src dst payload s ie = (frame, s', ie')"
  shows "data_air (on_air ie frame)"
  using data_on_air [OF assms] unfolding data_air_def ieee80211_init_awdl_data_hdr_def by blast

section \<open>What the handlers send\<close>

text \<open>What identifies a node, and a handler that changes neither that nor what concerns the election.\<close>

definition same_node :: "daemon_state \<Rightarrow> daemon_state \<Rightarrow> bool" where
  "same_node d d' \<longleftrightarrow> st_self_address (ds_awdl d') = st_self_address (ds_awdl d) \<and> st_name (ds_awdl d') = st_name (ds_awdl d) \<and>
     st_version (ds_awdl d') = st_version (ds_awdl d) \<and> st_dev_class (ds_awdl d') = st_dev_class (ds_awdl d) \<and>
     ch_enc (st_channel (ds_awdl d')) = ch_enc (st_channel (ds_awdl d)) \<and>
     ch_sequence (st_channel (ds_awdl d')) = ch_sequence (st_channel (ds_awdl d)) \<and>
     ie_fcs (ds_ieee80211 d') = ie_fcs (ds_ieee80211 d)"

definition quiet :: "daemon_state \<Rightarrow> daemon_state \<Rightarrow> bool" where
  "quiet d d' \<longleftrightarrow> same_node d d' \<and> st_election (ds_awdl d') = st_election (ds_awdl d) \<and> peers_of (ds_awdl d') = peers_of (ds_awdl d)"

lemmas quiet_defs = quiet_def same_node_def peers_of_def

lemma quiet_trans: "quiet a b \<Longrightarrow> quiet b c \<Longrightarrow> quiet a c"
  by (simp add: quiet_def same_node_def)

lemma quiet_refl [simp]: "quiet d d"
  by (simp add: quiet_def same_node_def)

lemma on_air_cong: "ie_fcs ie = ie_fcs ie' \<Longrightarrow> on_air ie frame = on_air ie' frame"
  by (simp add: on_air_def)

text \<open>A handler that is quiet and sends only data frames.\<close>

definition sends_data :: "daemon_state \<Rightarrow> (daemon_state \<times> effect list) option \<Rightarrow> bool" where
  "sends_data d r \<longleftrightarrow> (\<forall>d' effects. r = Some (d', effects) \<longrightarrow>
     quiet d d' \<and> (\<forall>frame. Wlan_frame frame \<in> set effects \<longrightarrow> data_air (on_air (ds_ieee80211 d) frame)))"

lemma next_fcs: "ieee80211_init_awdl_hdr src dst ie t = (hdr, ie') \<Longrightarrow> ie_fcs ie' = ie_fcs ie"
  by (auto simp: ieee80211_init_awdl_hdr_def ieee80211_state_next_sequence_number_def)

lemma send_data_run:
  assumes "awdl_send_data env io b s ie = Some (result, s', ie', effects)" and "\<not> (effects = [] \<and> s' = s \<and> ie' = ie)"
  obtains src dst payload frame s1 where "awdl_init_full_data_frame (ce_radiotap env) src dst payload s ie = (frame, s1, ie')"
    and "\<exists>stats. s' = s1\<lparr>st_stats := stats\<rparr>" and "set effects \<subseteq> {Wlan_frame frame}"
proof -
  let ?sent = "\<lambda>(frame, s1, ie1). length frame \<le> TX_BUFFER_SIZE \<and> ie' = ie1 \<and> (\<exists>stats. s' = s1\<lparr>st_stats := stats\<rparr>) \<and>
    effects = map Wlan_frame (snd (wlan_send (ce_inject env) io frame))"
  have "\<exists>src dst payload. ?sent (awdl_init_full_data_frame (ce_radiotap env) src dst payload s ie)"
    using assms(1) unfolding awdl_send_data_def Let_def
  proof (elim checked_Some, goal_cases)
    case (4 t dst src)
    then show ?case
      by (intro exI [of _ src] exI [of _ dst] exI [of _ "buf_bytes (strip_ignore b (int ETHER_LENGTH))"])
        (auto split: if_splits prod.splits)
  qed (use assms(2) in simp_all)
  then obtain src dst payload where sent: "?sent (awdl_init_full_data_frame (ce_radiotap env) src dst payload s ie)" by (elim exE)
  obtain frame s1 ie1 where f: "awdl_init_full_data_frame (ce_radiotap env) src dst payload s ie = (frame, s1, ie1)"
    using prod_cases3 by blast
  with sent have "ie' = ie1" "\<exists>stats. s' = s1\<lparr>st_stats := stats\<rparr>" "effects = map Wlan_frame (snd (wlan_send (ce_inject env) io frame))"
    by simp_all
  then show thesis using that [of src dst payload frame s1] f by (simp add: wlan_send_def)
qed

lemma send_data_sends:
  assumes "radiotap_header_ok (ce_radiotap env)" and "awdl_send_data env io b s ie = Some (result, s', ie', effects)"
  shows "(\<exists>n stats. s' = s\<lparr>st_sequence_number := n, st_stats := stats\<rparr>) \<and> ie_fcs ie' = ie_fcs ie \<and>
    (\<forall>frame. Wlan_frame frame \<in> set effects \<longrightarrow> data_air (on_air ie frame))"
proof (cases "effects = [] \<and> s' = s \<and> ie' = ie")
  case True
  then show ?thesis by (cases s) auto
next
  case False
  then obtain src dst payload frame s1 where f: "awdl_init_full_data_frame (ce_radiotap env) src dst payload s ie = (frame, s1, ie')"
    and s': "\<exists>stats. s' = s1\<lparr>st_stats := stats\<rparr>" and sent: "set effects \<subseteq> {Wlan_frame frame}"
    by (rule send_data_run [OF assms(2)])
  have "ie_fcs ie' = ie_fcs ie" using data_on_air [OF assms(1) f] next_fcs by blast
  then show ?thesis
    using s' sent data_frame_on_air [OF assms(1) f] full_data_frame(2) [OF assms(1) f] by auto
qed

lemma tx_rearm_silent: "tx_rearm pending timer delay = Some effects \<Longrightarrow> Wlan_frame frame \<notin> set effects"
  by (auto simp: tx_rearm_def ev_timer_rearm_def split: if_splits option.splits)

lemma sends_data_idle: "quiet d d' \<Longrightarrow> sends_data d (map_option (Pair d') (tx_rearm pending timer delay))"
  by (auto simp: sends_data_def tx_rearm_silent)

lemma sends_data_sent:
  assumes "radiotap_header_ok (ce_radiotap env)" and "awdl_send_data env (ds_io d) b (ds_awdl d) (ds_ieee80211 d) = Some (result, s, ie, sent)"
    and "ds_ieee80211 d' = ie" and "ds_awdl d' = s\<lparr>st_stats := stats\<rparr>"
  shows "sends_data d (map_option (\<lambda>effects. (d', sent @ effects)) (tx_rearm pending timer delay))"
  using send_data_sends [OF assms(1,2)] assms(3,4)
  by (auto simp: sends_data_def quiet_defs dest: tx_rearm_silent)

lemma send_unicast_sends:
  assumes "radiotap_header_ok (ce_radiotap env)"
  shows "sends_data d (awdl_send_unicast env hwrite now d)"
proof -
  have host: "sends_data d (map_option (\<lambda>effects. (d\<lparr>ds_next := None\<rparr>, map Host_frame fs @ effects)) (tx_rearm False Tx_timer 0))" for fs
    by (auto simp: sends_data_def quiet_defs dest: tx_rearm_silent)
  have next_frame: "quiet d (d\<lparr>ds_next := b\<rparr>)" for b by (simp add: quiet_defs)
  show ?thesis
    unfolding awdl_send_unicast_def Let_def
    by (auto simp: host sends_data_idle next_frame sends_data_def [of _ None] intro!: sends_data_sent [OF assms]
        split: option.splits wire_result.splits prod.splits)
qed

lemma send_multicast_sends:
  assumes "radiotap_header_ok (ce_radiotap env)"
  shows "sends_data d (awdl_send_multicast env now d)"
  unfolding awdl_send_multicast_def Let_def
  by (auto simp: sends_data_idle sends_data_def [of _ None] intro!: sends_data_sent [OF assms]
      split: option.splits prod.splits)

lemma poll_same:
  "poll_host_device junk reads d result = Some (result', d') \<Longrightarrow> ds_awdl d' = ds_awdl d \<and> ds_ieee80211 d' = ds_ieee80211 d"
proof (induction reads arbitrary: d result)
  case Nil
  then show ?case by (simp add: poll_Nil)
next
  case (Cons r reads)
  then show ?case by (fastforce simp: poll_Cons split: if_splits sum.splits)
qed

lemma sends_data_seq:
  assumes "sends_data d (Some (d1, e1))" and "sends_data d1 (Some (d2, e2))"
  shows "sends_data d (Some (d2, e1 @ e2))"
  using assms on_air_cong [of "ds_ieee80211 d1" "ds_ieee80211 d"] by (auto simp: sends_data_def quiet_def same_node_def)

lemma host_ready_sends:
  assumes "radiotap_header_ok (ce_radiotap env)"
  shows "sends_data d (host_device_ready env hwrite junk reads now1 now2 d)"
  unfolding sends_data_def
proof (intro allI impI)
  fix d' effects
  assume "host_device_ready env hwrite junk reads now1 now2 d = Some (d', effects)"
  then obtain r d1 d2 e1 e2 where p: "poll_host_device junk reads d 0 = Some (r, d1)"
    and m: "(if and r POLL_NEW_MULTICAST \<noteq> 0 then awdl_send_multicast env now1 d1 else Some (d1, [])) = Some (d2, e1)"
    and u: "(if and r POLL_NEW_UNICAST \<noteq> 0 then awdl_send_unicast env hwrite now2 d2 else Some (d2, [])) = Some (d', e2)"
    and e: "effects = e1 @ e2"
    by (auto simp: host_device_ready_def split: option.splits prod.splits if_splits)
  have "quiet d d1" using poll_same [OF p] by (simp add: quiet_defs)
  moreover have "sends_data d1 (Some (d2, e1))"
    using send_multicast_sends [OF assms, of d1 now1] m by (auto simp: sends_data_def split: if_splits)
  moreover have "sends_data d2 (Some (d', e2))"
    using send_unicast_sends [OF assms, of d2 hwrite now2] u by (auto simp: sends_data_def split: if_splits)
  ultimately have "sends_data d (Some (d', [] @ e1 @ e2))" by (intro sends_data_seq) (auto simp: sends_data_def)
  then show "quiet d d' \<and> (\<forall>frame. Wlan_frame frame \<in> set effects \<longrightarrow> data_air (on_air (ds_ieee80211 d) frame))"
    by (simp add: sends_data_def e)
qed

text \<open>A handler that is quiet and sends action frames of its own state.\<close>

definition sends_action :: "awdl_action_type \<Rightarrow> daemon_state \<Rightarrow> (daemon_state \<times> effect list) option \<Rightarrow> bool" where
  "sends_action type d r \<longleftrightarrow> (\<forall>d' effects. r = Some (d', effects) \<longrightarrow>
     quiet d d' \<and> (\<forall>frame. Wlan_frame frame \<in> set effects \<longrightarrow> action_air (ds_awdl d) type (on_air (ds_ieee80211 d) frame)))"

lemma send_action_sends:
  assumes "radiotap_header_ok (ce_radiotap env)"
  shows "sends_action type d (awdl_send_action env now1 now2 d type)"
  unfolding sends_action_def
proof (intro allI impI)
  fix d' effects
  assume run: "awdl_send_action env now1 now2 d type = Some (d', effects)"
  then obtain frame ie where f: "awdl_init_full_action_frame (ce_radiotap env) now1 now2 (ds_awdl d) (ds_ieee80211 d) type = Some (frame, ie)"
    by (auto simp: awdl_send_action_def split: option.splits)
  with run have d': "d' = d\<lparr>ds_ieee80211 := ie, ds_awdl := (ds_awdl d)\<lparr>st_stats := (st_stats (ds_awdl d))
      \<lparr>stats_tx_action := stats_tx_action (st_stats (ds_awdl d)) + 1\<rparr>\<rparr>\<rparr>"
    and e: "effects = map Wlan_frame (snd (wlan_send (ce_inject env) (ds_io d) frame))"
    by (simp_all add: awdl_send_action_def Let_def split: if_splits)
  obtain hdr where "ieee80211_init_awdl_action_hdr (st_self_address (ds_awdl d)) (st_dst (ds_awdl d)) (ds_ieee80211 d) = (hdr, ie)"
    by (rule full_action_frame [OF f])
  then have "ie_fcs ie = ie_fcs (ds_ieee80211 d)" unfolding ieee80211_init_awdl_action_hdr_def by (rule next_fcs)
  then have "quiet d d'" by (simp add: d' quiet_defs)
  moreover have "action_air (ds_awdl d) type (on_air (ds_ieee80211 d) sent)" if "Wlan_frame sent \<in> set effects" for sent
    using action_on_air [OF assms f] that by (auto simp: e wlan_send_def split: if_splits)
  ultimately show "quiet d d' \<and> (\<forall>frame. Wlan_frame frame \<in> set effects \<longrightarrow> action_air (ds_awdl d) type (on_air (ds_ieee80211 d) frame))"
    by blast
qed

lemma send_mif_sends:
  assumes "radiotap_header_ok (ce_radiotap env)"
  shows "sends_action AWDL_ACTION_MIF d (awdl_send_mif env now now1 now2 d)"
  using send_action_sends [OF assms, of AWDL_ACTION_MIF d now1 now2]
  by (auto simp: sends_action_def awdl_send_mif_def Let_def ev_timer_rearm_def split: if_splits)

lemma switch_channel_sends: "sends_data d (Some (awdl_switch_channel now d))"
  by (auto simp: sends_data_def awdl_switch_channel_def Let_def ev_timer_rearm_def quiet_defs split: if_splits)

text \<open>All events but the reception of a frame and the cleaning of the peer table.\<close>

lemma other_events:
  assumes "radiotap_header_ok (ce_radiotap env)" and "\<And>rx hwrite now packet. ev \<noteq> Ev_wlan rx hwrite now packet" and "\<And>now. ev \<noteq> Ev_clean now"
  shows "sends_data d (handle env ev d) \<or> (\<exists>type. sends_action type d (handle env ev d))"
proof -
  have stats: "sends_data d (Some (d, []))" by (simp add: sends_data_def)
  have action: "\<exists>type. sends_action type d (awdl_send_action env now1 now2 d t)" "\<exists>type. sends_action type d (awdl_send_mif env now now1 now2 d)"
    for now now1 now2 t
    using send_action_sends [OF assms(1)] send_mif_sends [OF assms(1)] by blast+
  show ?thesis
    using assms(2,3) stats host_ready_sends [OF assms(1)] send_unicast_sends [OF assms(1)] send_multicast_sends [OF assms(1)]
      action switch_channel_sends
    by (cases ev) (auto simp add: awdl_send_psf_def)
qed

section \<open>What a node hears\<close>

lemma air_action:
  assumes "action_air s type (buf_bytes b)" and "sender_ok s" and "buf_wf b"
    and "alloc_ok L (env_mem rx)" and "junk_ok (env_peer rx)" and "state_ok L r"
  shows "\<exists>result r' events. rx_ieee80211 rx cap tsft rssi b r = Some (result, [], r', events) \<and> state_ok L r' \<and> rx_frame_rule r r' \<and>
    (peer_lookup (peers_of r') \<subseteq>\<^sub>m peer_lookup (peers_of r) \<and>
       (st_self_address s = st_self_address r \<or> rssi_too_low r (st_self_address s) rssi \<or>
        (\<exists>m. awdl_peer_add (env_mem rx) (env_peer rx) (peers_of r) (st_self_address s) tsft (st_peer_cb r) = Some (PEERS_INTERNAL, m, []))) \<or>
     (\<exists>p. peer_lookup (peers_of r') = (peer_lookup (peers_of r))(st_self_address s \<mapsto> p) \<and> p_election p = st_election s \<and>
        p_last_update p = tsft \<and> (type = AWDL_ACTION_MIF \<and> st_version s \<noteq> 0 \<and> st_dev_class s \<noteq> 0 \<longrightarrow> p_is_valid p)))"
proof -
  let ?src = "st_self_address s"
  obtain now1 now2 ie ie' hdr arpa where
    hdr: "ieee80211_init_awdl_hdr ?src (st_dst s) ie (IEEE80211_FTYPE_MGMT OR IEEE80211_STYPE_ACTION) = (hdr, ie')"
    and arpa: "type = AWDL_ACTION_MIF \<Longrightarrow> awdl_init_arpa_tlv s = Some arpa"
    and bytes: "buf_bytes b = hdr @ awdl_init_action now1 type @ concat (map snd (action_tlvs now2 s type arpa))"
    using assms(1) unfolding action_air_def ieee80211_init_awdl_action_hdr_def by blast
  obtain b' where b': "buf_wf b'" "buf_bytes b' = awdl_init_action now1 type @ concat (map snd (action_tlvs now2 s type arpa))"
    and run: "rx_ieee80211 rx cap tsft rssi b r = (if ?src = st_self_address r then Some (RX_IGNORE_FROM_SELF, [], r, [])
      else rx_result_of (awdl_rx_action rx b' rssi tsft ?src (st_dst s) r))"
    using rx_own_hdr [OF hdr assms(3) bytes, of rx cap tsft rssi r] unfolding dispatch_action by blast
  show ?thesis
  proof (cases "?src = st_self_address r \<or> rssi_too_low r ?src rssi")
    case True
    have "awdl_rx_action rx b' rssi tsft ?src (st_dst s) r = Some (RX_IGNORE_RSSI, r, [])" if "rssi_too_low r ?src rssi"
      using that parse_own_action(1) [OF b'] by (simp add: awdl_rx_action_def Let_def)
    with True assms(6) show ?thesis by (auto simp: run rx_result_of_def)
  next
    case False
    then show ?thesis
      using rx_action_learns [OF assms(2) arpa b' assms(4-6), of rssi tsft "st_dst s"]
      by (auto simp: run rx_result_of_def)
  qed
qed

lemma air_data:
  assumes "data_air (buf_bytes b)" and "buf_wf b" and "state_ok L r" and "0 < cap"
  shows "\<exists>result out r'. rx_ieee80211 rx cap tsft rssi b r = Some (result, out, r', []) \<and> (r' = r \<or> r' = count_rx_data r)"
proof -
  obtain src dst ie ie' hdr s payload where hdr: "ieee80211_init_awdl_hdr src dst ie (IEEE80211_FTYPE_DATA OR IEEE80211_STYPE_DATA) = (hdr, ie')"
    and bytes: "buf_bytes b = hdr @ llc_init_awdl_hdr @ fst (awdl_init_data s) @ payload"
    using assms(1) unfolding data_air_def ieee80211_init_awdl_data_hdr_def by blast
  obtain b' where b': "buf_wf b'" and run: "rx_ieee80211 rx cap tsft rssi b r =
      (if src = st_self_address r then Some (RX_IGNORE_FROM_SELF, [], r, []) else rx_result_data (awdl_rx_data rx cap b' [] src dst r))"
    using rx_own_hdr [OF hdr assms(2) bytes, of rx cap tsft rssi r] unfolding dispatch_data by blast
  show ?thesis
    using rx_data_total [OF assms(3) b', of src "[]" cap rx dst] assms(4) by (auto simp: run rx_result_data_def)
qed

lemma rx_effects_silent: "Wlan_frame frame \<notin> set (rx_effects io events)"
  by (induction io events rule: rx_effects.induct) (simp_all add: awdl_neighbor_add_def)

text \<open>What the daemon does around the reception: it counts a bad frame, and it sends nothing.\<close>

lemma receive_frame_run:
  assumes "buf_new_const packet (int (length packet)) = Some frame"
    and "awdl_rx (ce_radiotap env) rx MAX_NUM_AMPDU now frame (ds_awdl d) = Some (result, out, s, events)"
  shows "\<exists>s' effects. awdl_receive_frame env rx hwrite now packet d = Some (d\<lparr>ds_awdl := s'\<rparr>, effects) \<and>
    (s' = s \<or> (\<exists>stats. s' = s\<lparr>st_stats := stats\<rparr>)) \<and> (\<forall>frame. Wlan_frame frame \<notin> set effects)"
proof -
  let ?e = "rx_effects (ds_io d) events"
  let ?host = "concat (map (\<lambda>b. map Host_frame (snd (host_send hwrite (ds_io d) (buf_bytes b)))) out)"
  have "awdl_receive_frame env rx hwrite now packet d =
      (if result = RX_OK then Some (d\<lparr>ds_awdl := s\<rparr>, ?e @ ?host)
       else if rx_code result < 0
       then Some (d\<lparr>ds_awdl := s\<lparr>st_stats := (st_stats s)\<lparr>stats_rx_unknown := stats_rx_unknown (st_stats s) + 1\<rparr>\<rparr>\<rparr>,
          ?e @ dump_frame (ds_dump d) packet)
       else Some (d\<lparr>ds_awdl := s\<rparr>, ?e))"
    using assms by (simp add: awdl_receive_frame_def Let_def)
  moreover have "Wlan_frame f \<notin> set (?e @ ?host)" "Wlan_frame f \<notin> set (?e @ dump_frame (ds_dump d) packet)" for f
    using rx_effects_silent [of f "ds_io d" events] by (auto simp: dump_frame_def)
  ultimately show ?thesis using rx_effects_silent [of _ "ds_io d" events] by (simp split: if_split) blast
qed

section \<open>The network\<close>

record mesh =
  m_nodes :: "ether_addr \<Rightarrow> daemon_state option"
  m_air :: "u8 list set"

text \<open>A node can only receive what was sent, any number of times and in any order.\<close>

fun hears :: "core_env \<Rightarrow> u8 list set \<Rightarrow> event \<Rightarrow> bool" where
  "hears env air (Ev_wlan rx hwrite now (Some packet)) \<longleftrightarrow> (\<exists>bytes\<in>air. \<exists>rssi. captured (ce_radiotap env) rx packet bytes rssi)"
| "hears env air ev \<longleftrightarrow> True"

text \<open>One event at one node. An event without its node, or without the frame it needs, does not occur.\<close>

definition mesh_step :: "(ether_addr \<Rightarrow> core_env) \<Rightarrow> ether_addr \<times> event \<Rightarrow> mesh \<Rightarrow> (mesh \<times> effect list) option" where
  "mesh_step env step net =
     (case step of (a, ev) \<Rightarrow>
        (case m_nodes net a of
           None \<Rightarrow> Some (net, [])
         | Some d \<Rightarrow>
             if \<not> hears (env a) (m_air net) ev then Some (net, [])
             else map_option (\<lambda>(d', effects).
               (\<lparr>m_nodes = (m_nodes net)(a \<mapsto> d'),
                 m_air = m_air net \<union> {on_air (ds_ieee80211 d) frame |frame. Wlan_frame frame \<in> set effects}\<rparr>, effects))
               (handle (env a) ev d)))"

fun mesh_event :: "nat \<Rightarrow> ether_addr \<times> event \<Rightarrow> bool" where
  "mesh_event L (a, Ev_wlan rx hwrite now packet) \<longleftrightarrow> alloc_ok L (env_mem rx) \<and> junk_ok (env_peer rx)"
| "mesh_event L (a, ev) \<longleftrightarrow> True"

lemma reset_self_run [simp]: "awdl_election_reset_self (awdl_election_run e m) = awdl_election_reset_self e"
  by (simp add: awdl_election_run_def Let_def awdl_election_reset_self_def split: option.split)

lemma reset_self_fields [simp]:
  "el_self_addr (awdl_election_reset_self e) = el_self_addr e" "el_height (awdl_election_reset_self e) = 0"
  "el_sync_addr (awdl_election_reset_self e) = el_self_addr e" "el_master_addr (awdl_election_reset_self e) = el_self_addr e"
  "el_master_metric (awdl_election_reset_self e) = el_self_metric e" "el_master_counter (awdl_election_reset_self e) = el_self_counter e"
  by (simp_all add: awdl_election_reset_self_def)

text \<open>\<open>Q\<close> is what is known of the election state of every node, and so of all that the nodes heard of each other.\<close>

definition promised :: "(awdl_election_state \<Rightarrow> bool) \<Rightarrow> awdl_peers \<Rightarrow> bool" where
  "promised Q m \<longleftrightarrow> (\<forall>b p. peer_lookup m b = Some p \<longrightarrow> Q (p_election p))"

definition node_ok :: "nat \<Rightarrow> (awdl_election_state \<Rightarrow> bool) \<Rightarrow> ether_addr \<Rightarrow> daemon_state \<Rightarrow> bool" where
  "node_ok L Q a d \<longleftrightarrow> daemon_ok L d \<and> sender_ok (ds_awdl d) \<and> st_self_address (ds_awdl d) = a \<and>
     st_version (ds_awdl d) \<noteq> 0 \<and> st_dev_class (ds_awdl d) \<noteq> 0 \<and>
     Q (st_election (ds_awdl d)) \<and> Q (awdl_election_reset_self (st_election (ds_awdl d))) \<and>
     promised Q (peers_of (ds_awdl d))"

definition announced :: "(awdl_election_state \<Rightarrow> bool) \<Rightarrow> u8 list \<Rightarrow> bool" where
  "announced Q bytes \<longleftrightarrow>
     data_air bytes \<or> (\<exists>s type. action_air s type bytes \<and> sender_ok s \<and> Q (st_election s))"

definition mesh_inv :: "nat \<Rightarrow> (awdl_election_state \<Rightarrow> bool) \<Rightarrow> mesh \<Rightarrow> bool" where
  "mesh_inv L Q net \<longleftrightarrow> (\<forall>a d. m_nodes net a = Some d \<longrightarrow> node_ok L Q a d) \<and> (\<forall>bytes\<in>m_air net. announced Q bytes)"

lemma node_ok_state: "node_ok L Q a d \<Longrightarrow> state_ok L (ds_awdl d)"
  by (simp add: node_ok_def daemon_ok_def)

lemma node_ok_quiet: "node_ok L Q a d \<Longrightarrow> quiet d d' \<Longrightarrow> daemon_ok L d' \<Longrightarrow> node_ok L Q a d'"
  by (simp add: node_ok_def quiet_def same_node_def sender_ok_def)

text \<open>A state that reception leaves, up to its statistics, is still that of the node.\<close>

lemma node_ok_received:
  assumes "node_ok L Q a d" and "state_ok L s" and "rx_frame_rule (ds_awdl d) s" and "promised Q (peers_of s)"
    and "s' = s \<or> (\<exists>stats. s' = s\<lparr>st_stats := stats\<rparr>)"
  shows "node_ok L Q a (d\<lparr>ds_awdl := s'\<rparr>)"
proof -
  have "state_ok L s'" "peers_of s' = peers_of s" using assms(2,5) by (auto simp: peers_of_def)
  moreover have "st_name s' = st_name (ds_awdl d)" "st_election s' = st_election (ds_awdl d)" "st_channel s' = st_channel (ds_awdl d)"
    "st_self_address s' = st_self_address (ds_awdl d)" "st_version s' = st_version (ds_awdl d)" "st_dev_class s' = st_dev_class (ds_awdl d)"
    using assms(3,5) by (auto simp: rx_frame_rule_def)
  ultimately show ?thesis using assms(1,4) by (simp add: node_ok_def daemon_ok_def sender_ok_def)
qed

lemma promised_sub: "promised Q m \<Longrightarrow> peer_lookup m' \<subseteq>\<^sub>m peer_lookup m \<Longrightarrow> promised Q m'"
  unfolding promised_def map_le_def by (metis domI)

lemma promised_upd: "promised Q m \<Longrightarrow> peer_lookup m' = (peer_lookup m)(a \<mapsto> p) \<Longrightarrow> Q (p_election p) \<Longrightarrow> promised Q m'"
  by (simp add: promised_def)

lemma receive_keeps:
  assumes "node_ok L Q a d" and "captured (ce_radiotap env) rx packet bytes rssi" and "announced Q bytes"
    and "alloc_ok L (env_mem rx)" and "junk_ok (env_peer rx)"
  shows "\<exists>d' effects. awdl_receive_frame env rx hwrite now packet d = Some (d', effects) \<and> node_ok L Q a d' \<and>
    (\<forall>frame. Wlan_frame frame \<notin> set effects)"
proof -
  note ok = node_ok_state [OF assms(1)]
  have table: "promised Q (peers_of (ds_awdl d))" using assms(1) by (simp add: node_ok_def)
  obtain f b where b: "buf_new_const packet (int (length packet)) = Some f" "buf_wf b" "buf_bytes b = bytes"
    "awdl_rx (ce_radiotap env) rx MAX_NUM_AMPDU now f (ds_awdl d) = rx_ieee80211 rx MAX_NUM_AMPDU now rssi b (ds_awdl d)"
    using rx_captured [OF assms(2)] by blast
  have "\<exists>result out s events. rx_ieee80211 rx MAX_NUM_AMPDU now rssi b (ds_awdl d) = Some (result, out, s, events) \<and> state_ok L s \<and>
      rx_frame_rule (ds_awdl d) s \<and> promised Q (peers_of s)"
  proof (cases "data_air bytes")
    case True
    then show ?thesis
      using air_data [of b L "ds_awdl d" MAX_NUM_AMPDU rx now rssi] b(2,3) ok table by (auto simp: MAX_NUM_AMPDU_def)
  next
    case False
    then obtain s type where s: "action_air s type (buf_bytes b)" "sender_ok s" "Q (st_election s)"
      using assms(3) b(3) by (auto simp: announced_def)
    from air_action [OF s(1,2) b(2) assms(4,5) ok, of MAX_NUM_AMPDU now rssi] show ?thesis
      using promised_sub [OF table] promised_upd [OF table] s(3) by metis
  qed
  then obtain result out s events where "awdl_rx (ce_radiotap env) rx MAX_NUM_AMPDU now f (ds_awdl d) = Some (result, out, s, events)"
    "state_ok L s" "rx_frame_rule (ds_awdl d) s" "promised Q (peers_of s)"
    unfolding b(4) by blast
  then show ?thesis
    using receive_frame_run [OF b(1), of env rx now d result out s events hwrite] node_ok_received [OF assms(1)] by blast
qed

section \<open>What the election promises\<close>

text \<open>A property of election states that an election over a table of such states keeps. The network then keeps it too.\<close>

locale election_promise =
  fixes Q :: "awdl_election_state \<Rightarrow> bool"
  assumes run_keeps: "peers_inv L m \<Longrightarrow> promised Q m \<Longrightarrow> Q (awdl_election_reset_self e) \<Longrightarrow> Q (awdl_election_run e m)"
begin

lemma clean_keeps:
  assumes "node_ok L Q a d" and "awdl_clean_peers now d = (d', effects)"
  shows "node_ok L Q a d'" and "Wlan_frame frame \<notin> set effects"
    and "st_election (ds_awdl d') = awdl_election_run (st_election (ds_awdl d)) (peers_of (ds_awdl d'))"
proof -
  let ?s = "ds_awdl d"
  obtain m called where r: "awdl_peers_remove (peers_of ?s) (now - ps_timeout (st_peers ?s)) (st_peer_remove_cb ?s) = (m, called)" by fastforce
  have inv: "peers_inv L (peers_of ?s)" using state_ok_peers node_ok_state [OF assms(1)] by blast
  note spec = peers_remove_spec [OF inv r]
  have d': "d' = d\<lparr>ds_awdl := (set_peers ?s m)\<lparr>st_election := awdl_election_run (st_election ?s) m\<rparr>\<rparr>"
    and effects: "effects = map (awdl_neighbor_remove (ds_io d)) called @ [Timer_again Peer_timer]"
    using assms(2) by (simp_all add: awdl_clean_peers_def r Let_def) (simp_all add: set_peers_def)
  show "Wlan_frame frame \<notin> set effects" by (auto simp: effects awdl_neighbor_remove_def)
  show "st_election (ds_awdl d') = awdl_election_run (st_election ?s) (peers_of (ds_awdl d'))"
    by (simp add: d' peers_of_def set_peers_def)
  have "peer_lookup m \<subseteq>\<^sub>m peer_lookup (peers_of ?s)"
    by (auto simp: map_le_def spec(4) split: option.splits if_splits)
  then have table: "promised Q m" using promised_sub assms(1) by (auto simp: node_ok_def)
  then have "Q (awdl_election_run (st_election ?s) m)"
    using run_keeps [OF spec(1)] assms(1) by (simp add: node_ok_def)
  moreover have "daemon_ok L d'" using clean_peers_ok [of L d now] assms(1,2) by (simp add: node_ok_def)
  ultimately show "node_ok L Q a d'"
    using assms(1) table by (simp add: node_ok_def d' set_peers_def peers_of_def sender_ok_def election_run_self)
qed

lemma mesh_handled:
  assumes "mesh_inv L Q net" and "radiotap_header_ok (ce_radiotap env)"
    and "mesh_event L (a, ev)" and "m_nodes net a = Some d" and "hears env (m_air net) ev"
  shows "\<exists>d' effects. handle env ev d = Some (d', effects) \<and> node_ok L Q a d' \<and>
    (\<forall>frame. Wlan_frame frame \<in> set effects \<longrightarrow> announced Q (on_air (ds_ieee80211 d) frame))"
proof -
  have ok: "node_ok L Q a d" using assms(1,4) by (simp add: mesh_inv_def)
  show ?thesis
  proof (cases "(\<exists>rx hwrite now packet. ev = Ev_wlan rx hwrite now packet) \<or> (\<exists>now. ev = Ev_clean now)")
    case False
    then have "event_ok L ev" "event_fits env ev d" by (cases ev; auto)+
    with handle_ok(1) [OF assms(2), of L d ev] ok obtain d' effects where r: "handle env ev d = Some (d', effects)" "daemon_ok L d'"
      by (auto simp: node_ok_def step_ok_def)
    have "sends_data d (handle env ev d) \<or> (\<exists>type. sends_action type d (handle env ev d))" using other_events [OF assms(2)] False by blast
    with r(1) have "quiet d d'" "\<forall>frame. Wlan_frame frame \<in> set effects \<longrightarrow>
        data_air (on_air (ds_ieee80211 d) frame) \<or> (\<exists>type. action_air (ds_awdl d) type (on_air (ds_ieee80211 d) frame))"
      by (auto simp: sends_data_def sends_action_def)
    with r node_ok_quiet [OF ok _ r(2)] ok show ?thesis by (fastforce simp: announced_def node_ok_def)
  next
    case True
    then show ?thesis
    proof (elim disjE exE)
      fix now
      assume "ev = Ev_clean now"
      then show ?thesis using clean_keeps [OF ok, of now] by (cases "awdl_clean_peers now d") auto
    next
      fix rx hwrite now packet
      assume ev: "ev = Ev_wlan rx hwrite now packet"
      then show ?thesis
        using receive_keeps [OF ok, of env rx _ _ _ hwrite now] assms(1,3,5) ok
        by (cases packet) (fastforce simp: wlan_device_ready_def mesh_inv_def)+
    qed
  qed
qed

lemma mesh_step_keeps:
  assumes "mesh_inv L Q net" and "mesh_event L step" and "\<forall>a. radiotap_header_ok (ce_radiotap (env a))"
  shows "\<exists>net' effects. mesh_step env step net = Some (net', effects) \<and> mesh_inv L Q net'"
proof -
  obtain n ev where step: "step = (n, ev)" by fastforce
  show ?thesis
  proof (cases "m_nodes net n = None \<or> \<not> hears (env n) (m_air net) ev")
    case True
    then show ?thesis using assms(1) by (auto simp: mesh_step_def step split: option.split)
  next
    case False
    then obtain d where d: "m_nodes net n = Some d" "hears (env n) (m_air net) ev" by auto
    from mesh_handled [OF assms(1) _ assms(2) [unfolded step] d] assms(3) obtain d' effects where
      "handle (env n) ev d = Some (d', effects)" "node_ok L Q n d'"
      "\<forall>frame. Wlan_frame frame \<in> set effects \<longrightarrow> announced Q (on_air (ds_ieee80211 d) frame)" by blast
    with d assms(1) show ?thesis by (auto simp: mesh_step_def step mesh_inv_def)
  qed
qed

end

sublocale election_promise \<subseteq> mesh_loop: event_system "mesh_step env"
    "\<lambda>step. mesh_event L step \<and> (\<forall>a. radiotap_header_ok (ce_radiotap (env a)))" "\<lambda>_ _. True" "mesh_inv L Q" for env L
  by unfold_locales (use mesh_step_keeps in auto)

end
