(* ===== verification/Leader.thy ===== *)
theory Leader
  imports Mesh
begin

text \<open>
  The election in the network of \<open>Mesh\<close>. Two promises are kept by every election over a table of states that have them: that
  nobody's state outranks that of the node with the greatest address, and that a node follows at most one other node, which
  has a greater address. From the first follows that the network elects its greatest node, from the second that
  synchronisation never goes in a circle.
\<close>

lemma reset_self_init [simp]: "awdl_election_reset_self (awdl_election_state_init e a) = awdl_election_state_init e a"
  by (auto intro!: awdl_election_state.equality) (simp_all add: awdl_election_reset_self_def)

section \<open>The best node\<close>

text \<open>The state of a node compared with that of the best one, which is its own master: nobody else's state outranks it.\<close>

definition good :: "awdl_election_state \<Rightarrow> awdl_election_state \<Rightarrow> bool" where
  "good best e \<longleftrightarrow> el_height e \<le> 10 \<and> (if el_self_addr e = el_self_addr best then e = best else outranks best e)"

lemma good_not_better: "good best e \<Longrightarrow> \<not> outranks e best"
  using rank.better_irrefl rank.better_asym by (auto simp: good_def split: if_splits)

lemma good_adopt:
  assumes "good best master" and "el_height master + 1 \<le> 10" and "el_height best = 0" and "el_self_addr own \<noteq> el_self_addr best"
  shows "good best (adopt own master)"
proof -
  have "0 < el_height master + 1"
    using assms(1) by (auto simp: good_def word_less_nat_alt word_le_nat_alt unat_word_ariths)
  then show ?thesis
    using assms by (auto simp: good_def adopt_def outranks_def split: if_splits)
qed

lemma candidates_good:
  assumes "peers_inv L m" and "promised (good best) m" and "x \<in> set (candidates own m)"
  shows "good best x" and "el_height x + 1 \<le> 10"
  using assms(2,3) peers_list_set [OF assms(1)]
  by (auto simp: promised_def candidates_def eligible_def AWDL_ELECTION_TREE_MAX_HEIGHT_def)

lemma election_good:
  assumes "peers_inv L m" and "promised (good best) m"
    and "good best (awdl_election_reset_self e)" and "el_height best = 0"
  shows "good best (awdl_election_run e m)"
proof -
  let ?own = "awdl_election_reset_self e"
  let ?pick = "pick outranks ?own (candidates ?own m)"
  note cand = candidates_good [OF assms(1,2), of _ ?own]
  show ?thesis
  proof (cases "?pick = ?own")
    case True
    then show ?thesis using assms(3) by (simp add: election_run_pick [OF assms(1)] Let_def)
  next
    case False
    then have pick: "?pick \<in> set (candidates ?own m)" "outranks ?pick ?own"
      using rank.pick_in [of ?own "candidates ?own m"] rank.pick_strict [of ?own "candidates ?own m"] by auto
    have "?own \<noteq> best" using good_not_better [OF cand(1) [OF pick(1)]] pick(2) by auto
    then have "el_self_addr ?own \<noteq> el_self_addr best" using assms(3) by (auto simp: good_def)
    with good_adopt [OF cand [OF pick(1)] assms(4)] show ?thesis
      using False by (simp add: election_run_pick [OF assms(1)] Let_def)
  qed
qed

lemma election_follows:
  assumes "peers_inv L m" and "promised (good best) m"
    and "good best (awdl_election_reset_self e)" and "best = awdl_election_reset_self best"
    and "el_self_addr e \<noteq> el_self_addr best" and "peer_lookup m (el_self_addr best) = Some p" and "p_is_valid p"
  shows "awdl_election_run e m = e\<lparr>el_master_addr := el_self_addr best, el_sync_addr := el_self_addr best,
      el_master_metric := el_self_metric best, el_master_counter := el_self_counter best, el_height := 1\<rparr>"
proof -
  let ?own = "awdl_election_reset_self e"
  let ?pick = "pick outranks ?own (candidates ?own m)"
  have b: "el_height best = 0" "el_sync_addr best = el_self_addr best" "el_master_addr best = el_self_addr best"
    "el_master_metric best = el_self_metric best" "el_master_counter best = el_self_counter best"
    using assms(4) by (metis reset_self_fields)+
  have p: "p_addr p = el_self_addr best" "p_election p = best"
    using peer_lookup_ok [OF assms(1,6)] assms(2,6) by (auto simp: promised_def good_def peer_ok_def)
  have "best \<in> set (candidates ?own m)"
    using assms(5-7) p b(1,2) peers_list_set [OF assms(1), of p]
    by (auto simp: candidates_def eligible_def AWDL_ELECTION_TREE_MAX_HEIGHT_def intro!: image_eqI [of best p_election p])
  then have "\<not> outranks best ?pick" using rank.pick_best [of best ?own "candidates ?own m"] by simp
  moreover have "good best ?pick"
    using rank.pick_in [of ?own "candidates ?own m"] candidates_good(1) [OF assms(1,2), of _ ?own] assms(3) by auto
  ultimately have "?pick = best" by (auto simp: good_def split: if_splits)
  moreover have "best \<noteq> ?own" using assms(5) by (metis reset_self_fields(1))
  ultimately show ?thesis
    by (simp add: election_run_pick [OF assms(1)] Let_def adopt_def b) (simp add: awdl_election_reset_self_def)
qed

interpretation leads: election_promise "good (awdl_election_state_init e w)" for e w
  by unfold_locales (rule election_good, simp_all)

section \<open>Followers\<close>

text \<open>Nodes that all have the same metric and counter: a node is its own master or follows a master with a greater address.\<close>

definition flat :: "awdl_election_state \<Rightarrow> bool" where
  "flat e \<longleftrightarrow> el_self_metric e = 60 \<and> el_self_counter e = 0 \<and> el_master_metric e = 60 \<and> el_master_counter e = 0 \<and>
     (el_height e = 0 \<and> el_sync_addr e = el_self_addr e \<and> el_master_addr e = el_self_addr e \<or>
      el_height e = 1 \<and> el_sync_addr e = el_master_addr e \<and> el_self_addr e < el_sync_addr e)"

lemma flat_init: "flat (awdl_election_state_init e a)"
  by (simp add: flat_def)

lemma election_flat:
  assumes "peers_inv L m" and "promised flat m" and "flat (awdl_election_reset_self e)"
  shows "flat (awdl_election_run e m)"
proof -
  let ?own = "awdl_election_reset_self e"
  let ?pick = "pick outranks ?own (candidates ?own m)"
  show ?thesis
  proof (cases "?pick = ?own")
    case True
    then show ?thesis using assms(3) by (simp add: election_run_pick [OF assms(1)] Let_def)
  next
    case False
    then have pick: "?pick \<in> set (candidates ?own m)" "outranks ?pick ?own"
      using rank.pick_in [of ?own "candidates ?own m"] rank.pick_strict [of ?own "candidates ?own m"] by auto
    have "flat ?pick" using pick(1) assms(2) peers_list_set [OF assms(1)] by (auto simp: candidates_def promised_def)
    with pick(2) assms(3) have "flat (adopt ?own ?pick)" by (auto simp: flat_def outranks_def adopt_def)
    then show ?thesis using False by (simp add: election_run_pick [OF assms(1)] Let_def)
  qed
qed

interpretation follows: election_promise flat
  by unfold_locales (rule election_flat)

section \<open>The start\<close>

text \<open>A node with the address \<open>a\<close> whose daemon has just been started.\<close>

definition booted :: "nat \<Rightarrow> ether_addr \<Rightarrow> daemon_state \<Rightarrow> bool" where
  "booted L a d \<longleftrightarrow>
     (\<exists>ie io wlan host chan dump now. awdl_init ie io wlan host chan dump now = Some (0, Some d) \<and>
        0 \<in> set (take 64 (ie_hostname ie)) \<and> length (st_name (ie_junk ie)) = HOST_NAME_LENGTH_MAX + 1) \<and>
     INITIAL_SIZE \<le> L \<and> io_if_ether_addr (ds_io d) = a"

lemma init_identity:
  assumes "awdl_init ie io wlan host chan dump now = Some (0, Some d)"
  shows "\<exists>e. st_election (ds_awdl d) = awdl_election_state_init e (io_if_ether_addr (ds_io d))"
    and "st_self_address (ds_awdl d) = io_if_ether_addr (ds_io d)" and "st_version (ds_awdl d) \<noteq> 0" and "st_dev_class (ds_awdl d) \<noteq> 0"
proof -
  from assms obtain io' s q where s: "awdl_init_state (ie_mem ie) (ie_junk ie) (ie_hostname ie) (io_if_ether_addr io') chan now = Some s"
    and d: "d = \<lparr>ds_io = io', ds_awdl = s\<lparr>st_peer_cb := True, st_peer_remove_cb := True\<rparr>, ds_ieee80211 = ieee80211_init_state,
      ds_next = None, ds_queue = q, ds_dump = dump\<rparr>"
    by (auto simp: awdl_init_def split: prod.splits if_splits option.splits)
  then show "\<exists>e. st_election (ds_awdl d) = awdl_election_state_init e (io_if_ether_addr (ds_io d))"
    "st_self_address (ds_awdl d) = io_if_ether_addr (ds_io d)" "st_version (ds_awdl d) \<noteq> 0" "st_dev_class (ds_awdl d) \<noteq> 0"
    by (auto simp: awdl_init_state_def awdl_version_def split: option.splits)
qed

lemma booted_fields:
  assumes "booted L a d"
  shows "daemon_ok L d" "sender_ok (ds_awdl d)" "st_self_address (ds_awdl d) = a" "st_version (ds_awdl d) \<noteq> 0" "st_dev_class (ds_awdl d) \<noteq> 0"
    and "\<exists>e. st_election (ds_awdl d) = awdl_election_state_init e a" and "peer_lookup (peers_of (ds_awdl d)) = Map.empty"
proof -
  obtain ie io wlan host chan dump now where i: "awdl_init ie io wlan host chan dump now = Some (0, Some d)"
    "0 \<in> set (take 64 (ie_hostname ie))" "length (st_name (ie_junk ie)) = HOST_NAME_LENGTH_MAX + 1" "INITIAL_SIZE \<le> L"
    and a: "io_if_ether_addr (ds_io d) = a"
    using assms unfolding booted_def by blast
  note ok = init_ok(1,4,5) [OF i] and id = init_identity [OF i(1), unfolded a]
  show "daemon_ok L d" "st_self_address (ds_awdl d) = a" "st_version (ds_awdl d) \<noteq> 0" "st_dev_class (ds_awdl d) \<noteq> 0"
    "\<exists>e. st_election (ds_awdl d) = awdl_election_state_init e a" "peer_lookup (peers_of (ds_awdl d)) = Map.empty"
    by (fact ok id)+
  show "sender_ok (ds_awdl d)" using ok(1,3) by (simp add: sender_ok_def daemon_ok_def state_ok_def)
qed

text \<open>All nodes start with the same counter and metric, so that the greatest address decides.\<close>

lemma init_good: "a \<le> w \<Longrightarrow> good (awdl_election_state_init e w) (awdl_election_state_init e' a)"
  by (auto simp: good_def outranks_def intro!: awdl_election_state.equality)

lemma mesh_start:
  assumes "\<forall>a d. nodes a = Some d \<longrightarrow> booted L a d" and "\<And>a e. nodes a \<noteq> None \<Longrightarrow> Q (awdl_election_state_init e a)"
  shows "mesh_inv L Q \<lparr>m_nodes = nodes, m_air = {}\<rparr>"
proof -
  have "node_ok L Q a d" if n: "nodes a = Some d" for a d
  proof -
    have b: "booted L a d" using assms(1) n by auto
    obtain e where e: "st_election (ds_awdl d) = awdl_election_state_init e a" using booted_fields(6) [OF b] by blast
    show ?thesis
      using booted_fields(1-5,7) [OF b] assms(2) [of a e] n by (simp add: node_ok_def e promised_def)
  qed
  then show ?thesis by (simp add: mesh_inv_def)
qed

lemma mesh_reached:
  assumes "\<forall>a. radiotap_header_ok (ce_radiotap (env a))" and "\<forall>a d. nodes a = Some d \<longrightarrow> booted L a d"
    and "\<forall>a. nodes a \<noteq> None \<longrightarrow> a \<le> w" and "reach (mesh_step env) (mesh_event L) \<lparr>m_nodes = nodes, m_air = {}\<rparr> net"
  shows "mesh_inv L (good (awdl_election_state_init e w)) net"
  using leads.mesh_loop.reach_inv [of env L "\<lparr>m_nodes = nodes, m_air = {}\<rparr>" net e w] assms(1,4)
    mesh_start [OF assms(2), of "good (awdl_election_state_init e w)"] init_good assms(3)
  by simp

lemma clean_follows:
  assumes "node_ok L (good (awdl_election_state_init e w)) a d" and "a \<noteq> w" and "awdl_clean_peers now d = (d', effects)"
    and "peer_lookup (peers_of (ds_awdl d')) w = Some p" and "p_is_valid p"
  shows "el_master_addr (st_election (ds_awdl d')) = w" "el_sync_addr (st_election (ds_awdl d')) = w" "el_height (st_election (ds_awdl d')) = 1"
proof -
  note keep = leads.clean_keeps [OF assms(1,3)]
  have "peers_inv L (peers_of (ds_awdl d'))" using node_ok_state [OF keep(1)] by (rule state_ok_peers)
  moreover have "promised (good (awdl_election_state_init e w)) (peers_of (ds_awdl d'))" using keep(1) by (simp add: node_ok_def)
  moreover have "good (awdl_election_state_init e w) (awdl_election_reset_self (st_election (ds_awdl d)))"
    "el_self_addr (st_election (ds_awdl d)) \<noteq> w"
    using assms(1,2) by (simp_all add: node_ok_def sender_ok_def)
  ultimately have "awdl_election_run (st_election (ds_awdl d)) (peers_of (ds_awdl d')) =
      (st_election (ds_awdl d))\<lparr>el_master_addr := w, el_sync_addr := w, el_master_metric := 60, el_master_counter := 0, el_height := 1\<rparr>"
    using election_follows [OF _ _ _ reset_self_init [symmetric] _ _ assms(5), of L "peers_of (ds_awdl d')" e w "st_election (ds_awdl d)"] assms(4)
    by simp
  then show "el_master_addr (st_election (ds_awdl d')) = w" "el_sync_addr (st_election (ds_awdl d')) = w" "el_height (st_election (ds_awdl d')) = 1"
    unfolding keep(3) by simp_all
qed

lemma receive_learns:
  assumes "state_ok L (ds_awdl d)" and "captured (ce_radiotap env) rx packet bytes rssi" and "action_air s type bytes" and "sender_ok s"
    and "alloc_ok L (env_mem rx)" and "junk_ok (env_peer rx)" and "st_self_address s \<noteq> st_self_address (ds_awdl d)"
    and "\<not> rssi_too_low (ds_awdl d) (st_self_address s) rssi"
    and "\<And>m. awdl_peer_add (env_mem rx) (env_peer rx) (peers_of (ds_awdl d)) (st_self_address s) tsft (st_peer_cb (ds_awdl d)) \<noteq>
      Some (PEERS_INTERNAL, m, [])"
  shows "\<exists>d' effects p. awdl_receive_frame env rx hwrite tsft packet d = Some (d', effects) \<and>
    peer_lookup (peers_of (ds_awdl d')) (st_self_address s) = Some p \<and> p_last_update p = tsft \<and>
    (type = AWDL_ACTION_MIF \<and> st_version s \<noteq> 0 \<and> st_dev_class s \<noteq> 0 \<longrightarrow> p_is_valid p)"
proof -
  obtain f b where b: "buf_new_const packet (int (length packet)) = Some f" "buf_wf b" "buf_bytes b = bytes"
    "awdl_rx (ce_radiotap env) rx MAX_NUM_AMPDU tsft f (ds_awdl d) = rx_ieee80211 rx MAX_NUM_AMPDU tsft rssi b (ds_awdl d)"
    using rx_captured [OF assms(2)] by blast
  have "\<exists>result r' events p. rx_ieee80211 rx MAX_NUM_AMPDU tsft rssi b (ds_awdl d) = Some (result, [], r', events) \<and>
      peer_lookup (peers_of r') (st_self_address s) = Some p \<and> p_last_update p = tsft \<and>
      (type = AWDL_ACTION_MIF \<and> st_version s \<noteq> 0 \<and> st_dev_class s \<noteq> 0 \<longrightarrow> p_is_valid p)"
    using air_action [OF assms(3) [folded b(3)] assms(4) b(2) assms(5,6,1), of MAX_NUM_AMPDU tsft rssi] assms(7-9)
    by (metis fun_upd_same)
  then obtain result r' events p where rx: "rx_ieee80211 rx MAX_NUM_AMPDU tsft rssi b (ds_awdl d) = Some (result, [], r', events)"
    and p: "peer_lookup (peers_of r') (st_self_address s) = Some p" "p_last_update p = tsft"
      "type = AWDL_ACTION_MIF \<and> st_version s \<noteq> 0 \<and> st_dev_class s \<noteq> 0 \<longrightarrow> p_is_valid p"
    by blast
  obtain s' effects where run: "awdl_receive_frame env rx hwrite tsft packet d = Some (d\<lparr>ds_awdl := s'\<rparr>, effects)"
    "s' = r' \<or> (\<exists>stats. s' = r'\<lparr>st_stats := stats\<rparr>)"
    using receive_frame_run [OF b(1), of env rx tsft d result "[]" r' events hwrite] rx b(4) by auto
  from run(2) have "peers_of s' = peers_of r'" by (auto simp: peers_of_def)
  with run(1) p show ?thesis by simp
qed

lemma clean_lookup:
  assumes "state_ok L (ds_awdl d)" and "awdl_clean_peers now d = (d', effects)" and "peer_lookup (peers_of (ds_awdl d)) w = Some p"
    and "now - ps_timeout (st_peers (ds_awdl d)) \<le> p_last_update p"
  shows "peer_lookup (peers_of (ds_awdl d')) w = Some p"
proof -
  let ?s = "ds_awdl d"
  obtain m called where r: "awdl_peers_remove (peers_of ?s) (now - ps_timeout (st_peers ?s)) (st_peer_remove_cb ?s) = (m, called)" by fastforce
  have "peers_of (ds_awdl d') = m"
    using assms(2) by (simp add: awdl_clean_peers_def r Let_def) (auto simp: peers_of_def set_peers_def)
  with peers_remove_spec(4) [OF state_ok_peers [OF assms(1)] r] assms(3,4) show ?thesis by (simp add: not_less)
qed

section \<open>A network of two nodes\<close>

lemma sample_boot:
  "\<exists>d. booted 256 a d \<and> peers_of (ds_awdl d) = sample_peers \<and> io_wlan_handle (ds_io d) \<and> st_rssi_threshold (ds_awdl d) \<le> 0"
proof -
  define ie where "ie = sample_init\<lparr>ie_link := sample_link\<lparr>lk_addr := a\<rparr>\<rparr>"
  have "\<exists>io. io_state_init (ie_savefile ie) (ie_link ie) (ie_pcap ie) (ie_tun ie) sample_io ''wlan0'' ''awdl0'' = (0, io) \<and>
      io_if_ether_addr io = a \<and> io_wlan_handle io"
    by (simp add: ie_def sample_init_def io_state_init_def io_state_init_wlan_def savefile_init io_state_init_host_def open_tun_def
        open_nonblocking_device_def sample_link_def sample_pcap_def sample_io_def Let_def)
  then obtain io where io: "io_state_init (ie_savefile ie) (ie_link ie) (ie_pcap ie) (ie_tun ie) sample_io ''wlan0'' ''awdl0'' = (0, io)"
    "io_if_ether_addr io = a" "io_wlan_handle io" by blast
  have "\<exists>s. awdl_init_state (ie_mem ie) (ie_junk ie) (ie_hostname ie) a CHAN_OPCLASS_6 1000 = Some s \<and>
      ps_peers (st_peers s) = sample_peers \<and> st_rssi_threshold s \<le> 0"
    by (simp add: ie_def sample_init_def awdl_init_state_def awdl_peer_state_init_def awdl_peers_init_def hashmap_new_def sample_mem_def
        INITIAL_SIZE_def sample_peers_def RSSI_THRESHOLD_DEFAULT_def)
  then obtain s where s: "awdl_init_state (ie_mem ie) (ie_junk ie) (ie_hostname ie) a CHAN_OPCLASS_6 1000 = Some s"
    "ps_peers (st_peers s) = sample_peers" "st_rssi_threshold s \<le> 0" by blast
  obtain q where q: "circular_buf_init (ie_queue_junk ie) 16 = Some q" using cb_init [of 16 "ie_queue_junk ie"] by auto
  have "0 \<le> ie_netutils ie" "0 \<le> ie_gethostname ie" by (simp_all add: ie_def sample_init_def)
  with io s(1) q have "\<exists>d. awdl_init ie sample_io ''wlan0'' ''awdl0'' CHAN_OPCLASS_6 False 1000 = Some (0, Some d) \<and> ds_io d = io \<and>
      ds_awdl d = s\<lparr>st_peer_cb := True, st_peer_remove_cb := True\<rparr>"
    by (simp add: awdl_init_def)
  moreover have "0 \<in> set (take 64 (ie_hostname ie))" "length (st_name (ie_junk ie)) = HOST_NAME_LENGTH_MAX + 1" "INITIAL_SIZE \<le> 256"
    using sample_state_ok by (simp_all add: ie_def sample_init_def INITIAL_SIZE_def state_ok_def)
  ultimately show ?thesis using io(2,3) s(2,3) unfolding booted_def peers_of_def by fastforce
qed

lemma sample_mif:
  assumes "booted 256 a d" and "io_wlan_handle (ds_io d)"
  shows "\<exists>d' frame. awdl_send_action sample_core 7 8 d AWDL_ACTION_MIF = Some (d', [Wlan_frame frame]) \<and>
    length (on_air (ds_ieee80211 d) frame) \<le> 2000"
proof -
  have rt: "radiotap_header_ok (ce_radiotap sample_core)" using sample_radiotap_ok by (simp add: sample_core_def)
  obtain d' sent where run: "awdl_send_action sample_core 7 8 d AWDL_ACTION_MIF = Some (d', sent)"
    using send_action_ok [OF rt booted_fields(1) [OF assms(1)], of 7 8 AWDL_ACTION_MIF] by (auto simp: step_ok_def)
  then obtain frame ie where f: "awdl_init_full_action_frame (ce_radiotap sample_core) 7 8 (ds_awdl d) (ds_ieee80211 d) AWDL_ACTION_MIF = Some (frame, ie)"
    by (auto simp: awdl_send_action_def split: option.splits)
  have "length frame \<le> 370"
    using action_frame_bounds [OF rt _ f] booted_fields(2) [OF assms(1)] by (auto simp: sender_ok_def)
  then have "length (on_air (ds_ieee80211 d) frame) \<le> 2000" by (simp add: on_air_def)
  moreover have "sent = [Wlan_frame frame]"
    using run f assms(2) by (auto simp: awdl_send_action_def wlan_send_def Let_def split: if_splits)
  ultimately show ?thesis using run by blast
qed

text \<open>Two nodes at their start.\<close>

lemma sample_pair:
  obtains d dw where "booted 256 sample_addr d" "booted 256 sample_peer_addr dw" "peers_of (ds_awdl d) = sample_peers" "st_rssi_threshold (ds_awdl d) \<le> 0"
    "io_wlan_handle (ds_io dw)"
    "\<forall>a d'. [sample_addr \<mapsto> d, sample_peer_addr \<mapsto> dw] a = Some d' \<longrightarrow> booted 256 a d'"
    "\<forall>a. [sample_addr \<mapsto> d, sample_peer_addr \<mapsto> dw] a \<noteq> None \<longrightarrow> a \<le> sample_peer_addr"
proof -
  obtain d dw where d: "booted 256 sample_addr d" "peers_of (ds_awdl d) = sample_peers" "st_rssi_threshold (ds_awdl d) \<le> 0"
    and dw: "booted 256 sample_peer_addr dw" "io_wlan_handle (ds_io dw)"
    using sample_boot by blast
  have le: "sample_addr \<le> sample_peer_addr" by (simp add: sample_addr_def sample_peer_addr_def memcmp_ether [symmetric] not_less [symmetric])
  have ok: "\<forall>a d'. [sample_addr \<mapsto> d, sample_peer_addr \<mapsto> dw] a = Some d' \<longrightarrow> booted 256 a d'" using d(1) dw(1) by (simp split: if_splits)
  have max: "\<forall>a. [sample_addr \<mapsto> d, sample_peer_addr \<mapsto> dw] a \<noteq> None \<longrightarrow> a \<le> sample_peer_addr" using le by (simp split: if_splits)
  show thesis by (rule that [OF d(1) dw(1) d(2,3) dw(2) ok max])
qed

section \<open>Properties\<close>

text \<open>C2. The network elects its greatest node. Whatever the order of the events, and whichever frames are lost, delayed
  or repeated, every handler of every node returns (theory \<open>Run\<close> treats the calls behind its effects), the node with the greatest address is always its own master,
  and every other node that has it in its table as a valid peer synchronises to it directly the next time it
  cleans its peers.\<close>

theorem mesh_greatest_leads:
  assumes "\<forall>a. radiotap_header_ok (ce_radiotap (env a))" and "\<forall>a d. nodes a = Some d \<longrightarrow> booted L a d"
    and "\<forall>a. nodes a \<noteq> None \<longrightarrow> a \<le> w" and "reach (mesh_step env) (mesh_event L) \<lparr>m_nodes = nodes, m_air = {}\<rparr> net"
  shows "(\<forall>step. mesh_event L step \<longrightarrow> mesh_step env step net \<noteq> None) \<and>
    (\<forall>d. m_nodes net w = Some d \<longrightarrow> el_master_addr (st_election (ds_awdl d)) = w \<and>
       el_sync_addr (st_election (ds_awdl d)) = w \<and> el_height (st_election (ds_awdl d)) = 0) \<and>
    (\<forall>a d now d' effects p. a \<noteq> w \<and> m_nodes net a = Some d \<and> awdl_clean_peers now d = (d', effects) \<and>
       peer_lookup (peers_of (ds_awdl d')) w = Some p \<and> p_is_valid p \<longrightarrow>
       el_master_addr (st_election (ds_awdl d')) = w \<and> el_sync_addr (st_election (ds_awdl d')) = w \<and> el_height (st_election (ds_awdl d')) = 1)"
proof -
  define best where "best = awdl_election_state_init undefined w"
  have inv: "mesh_inv L (good best) net" unfolding best_def by (rule mesh_reached [OF assms])
  have "mesh_step env step net \<noteq> None" if "mesh_event L step" for step
    using leads.mesh_step_keeps [OF _ that assms(1)] inv by (fastforce simp: best_def)
  moreover have "st_election (ds_awdl d) = best" if "m_nodes net w = Some d" for d
    using inv that by (auto simp: mesh_inv_def node_ok_def sender_ok_def good_def best_def)
  moreover have "el_master_addr (st_election (ds_awdl d')) = w \<and> el_sync_addr (st_election (ds_awdl d')) = w \<and>
      el_height (st_election (ds_awdl d')) = 1"
    if "a \<noteq> w" "m_nodes net a = Some d" "awdl_clean_peers now d = (d', effects)" "peer_lookup (peers_of (ds_awdl d')) w = Some p"
      "p_is_valid p" for a d now d' effects p
    using clean_follows [OF _ that(1,3-5), of L undefined] inv that(2) by (auto simp: mesh_inv_def best_def)
  ultimately show ?thesis by (auto simp: best_def)
qed

theorem mesh_greatest_leads_witness:
  "\<exists>d dw. booted 256 sample_addr d \<and> booted 256 sample_peer_addr dw \<and>
     (let net = \<lparr>m_nodes = [sample_addr \<mapsto> d, sample_peer_addr \<mapsto> dw], m_air = {}\<rparr> in
      mesh_step (\<lambda>_. sample_core) (sample_peer_addr, Ev_mif 7 8 9) net \<noteq> None \<and>
      el_master_addr (st_election (ds_awdl dw)) = sample_peer_addr)"
proof -
  obtain d dw where n: "booted 256 sample_addr d" "booted 256 sample_peer_addr dw"
    "\<forall>a d'. [sample_addr \<mapsto> d, sample_peer_addr \<mapsto> dw] a = Some d' \<longrightarrow> booted 256 a d'"
    "\<forall>a. [sample_addr \<mapsto> d, sample_peer_addr \<mapsto> dw] a \<noteq> None \<longrightarrow> a \<le> sample_peer_addr"
    by (rule sample_pair)
  have rt: "\<forall>a. radiotap_header_ok (ce_radiotap ((\<lambda>_ :: ether_addr. sample_core) a))" using sample_radiotap_ok by (simp add: sample_core_def)
  let ?net = "\<lparr>m_nodes = [sample_addr \<mapsto> d, sample_peer_addr \<mapsto> dw], m_air = {}\<rparr>"
  note leads = mesh_greatest_leads [OF rt n(3,4) reach.start]
  have "mesh_event 256 (sample_peer_addr, Ev_mif 7 8 9)" by simp
  with leads have "mesh_step (\<lambda>_. sample_core) (sample_peer_addr, Ev_mif 7 8 9) ?net \<noteq> None" by blast
  moreover have "m_nodes ?net sample_peer_addr = Some dw" by simp
  with leads have "el_master_addr (st_election (ds_awdl dw)) = sample_peer_addr" by blast
  ultimately show ?thesis unfolding Let_def using n(1,2) by blast
qed

text \<open>C3. A node joins the tree of the greatest node within two events. When it receives a master indication frame that this node
  sent, in whatever state both are, with a sufficient signal and with memory for the peer's record, then the next
  cleaning of its peers within the timeout makes the sender its master and its synchronisation parent.\<close>

theorem mesh_joins:
  assumes "\<forall>a. radiotap_header_ok (ce_radiotap (env a))" and "\<forall>a d. nodes a = Some d \<longrightarrow> booted L a d"
    and "\<forall>a. nodes a \<noteq> None \<longrightarrow> a \<le> w" and "reach (mesh_step env) (mesh_event L) \<lparr>m_nodes = nodes, m_air = {}\<rparr> net"
    and "m_nodes net w = Some dw" and "m_nodes net a = Some d" and "a \<noteq> w"
    and "awdl_send_action (env w) now1 now2 dw AWDL_ACTION_MIF = Some (dw', sent)" and "Wlan_frame frame \<in> set sent"
    and "captured (ce_radiotap (env a)) rx packet (on_air (ds_ieee80211 dw) frame) rssi" and "\<not> rssi_too_low (ds_awdl d) w rssi"
    and "alloc_ok L (env_mem rx)" and "junk_ok (env_peer rx)"
    and "\<And>m. awdl_peer_add (env_mem rx) (env_peer rx) (peers_of (ds_awdl d)) w tsft (st_peer_cb (ds_awdl d)) \<noteq> Some (PEERS_INTERNAL, m, [])"
  shows "\<exists>d1 effects. awdl_receive_frame (env a) rx hwrite tsft packet d = Some (d1, effects) \<and>
    (\<forall>now d2 effects'. now - ps_timeout (st_peers (ds_awdl d1)) \<le> tsft \<and> awdl_clean_peers now d1 = (d2, effects') \<longrightarrow>
      el_master_addr (st_election (ds_awdl d2)) = w \<and> el_sync_addr (st_election (ds_awdl d2)) = w \<and> el_height (st_election (ds_awdl d2)) = 1)"
proof -
  let ?best = "awdl_election_state_init undefined w" and ?bytes = "on_air (ds_ieee80211 dw) frame"
  have inv: "mesh_inv L (good ?best) net" by (rule mesh_reached [OF assms(1-4)])
  have nodes: "node_ok L (good ?best) w dw" "node_ok L (good ?best) a d" using inv assms(5,6) by (simp_all add: mesh_inv_def)
  have w: "sender_ok (ds_awdl dw)" "st_self_address (ds_awdl dw) = w" "st_version (ds_awdl dw) \<noteq> 0" "st_dev_class (ds_awdl dw) \<noteq> 0"
    "good ?best (st_election (ds_awdl dw))" and a: "st_self_address (ds_awdl d) = a"
    using nodes by (simp_all add: node_ok_def)
  have air: "action_air (ds_awdl dw) AWDL_ACTION_MIF ?bytes"
    using send_action_sends [of "env w" AWDL_ACTION_MIF dw now1 now2] assms(1,8,9) by (auto simp: sends_action_def)
  then have ann: "announced (good ?best) ?bytes" using w(1,5) by (auto simp: announced_def)
  have "\<exists>d' effects p. awdl_receive_frame (env a) rx hwrite tsft packet d = Some (d', effects) \<and>
      peer_lookup (peers_of (ds_awdl d')) w = Some p \<and> p_last_update p = tsft \<and> p_is_valid p"
    using receive_learns [OF node_ok_state [OF nodes(2)] assms(10) air w(1) assms(12,13), of tsft hwrite] w(2-4) a assms(7,11,14) by simp
  then obtain d1 effects p where d1: "awdl_receive_frame (env a) rx hwrite tsft packet d = Some (d1, effects)"
    and p: "peer_lookup (peers_of (ds_awdl d1)) w = Some p" "p_last_update p = tsft" "p_is_valid p" by blast
  have n1: "node_ok L (good ?best) a d1" using receive_keeps [OF nodes(2) assms(10) ann assms(12,13), of hwrite tsft] d1 by auto
  show ?thesis
    using d1 clean_follows [OF n1 assms(7)] clean_lookup [OF node_ok_state [OF n1]] p by blast
qed
theorem mesh_joins_witness:
  "\<exists>d dw frame d1 effects d2 effects'. booted 256 sample_addr d \<and> booted 256 sample_peer_addr dw \<and>
     Wlan_frame frame \<in> set (snd (the (awdl_send_action sample_core 7 8 dw AWDL_ACTION_MIF))) \<and>
     awdl_receive_frame sample_core sample_env (\<lambda>_. 0) 9 ([0, 0, 9, 0, 4, 0, 0, 0, 24] @ on_air (ds_ieee80211 dw) frame) d = Some (d1, effects) \<and>
     awdl_clean_peers (ps_timeout (st_peers (ds_awdl d1))) d1 = (d2, effects') \<and> el_master_addr (st_election (ds_awdl d)) = sample_addr \<and>
     el_master_addr (st_election (ds_awdl d2)) = sample_peer_addr"
proof -
  obtain d dw where n: "booted 256 sample_addr d" "booted 256 sample_peer_addr dw" "peers_of (ds_awdl d) = sample_peers"
    "st_rssi_threshold (ds_awdl d) \<le> 0" "io_wlan_handle (ds_io dw)"
    "\<forall>a d'. [sample_addr \<mapsto> d, sample_peer_addr \<mapsto> dw] a = Some d' \<longrightarrow> booted 256 a d'"
    "\<forall>a. [sample_addr \<mapsto> d, sample_peer_addr \<mapsto> dw] a \<noteq> None \<longrightarrow> a \<le> sample_peer_addr"
    by (rule sample_pair)
  let ?net = "\<lparr>m_nodes = [sample_addr \<mapsto> d, sample_peer_addr \<mapsto> dw], m_air = {}\<rparr>"
  have rt: "\<forall>a. radiotap_header_ok (ce_radiotap ((\<lambda>_ :: ether_addr. sample_core) a))" using sample_radiotap_ok by (simp add: sample_core_def)
  have ne: "sample_addr \<noteq> sample_peer_addr" by (simp add: sample_addr_def sample_peer_addr_def)
  have at: "m_nodes ?net sample_peer_addr = Some dw" "m_nodes ?net sample_addr = Some d" using ne by simp_all
  obtain dw' frame where mif: "awdl_send_action sample_core 7 8 dw AWDL_ACTION_MIF = Some (dw', [Wlan_frame frame])"
    "length (on_air (ds_ieee80211 dw) frame) \<le> 2000"
    using sample_mif [OF n(2,5)] by blast
  define packet where "packet = [0, 0, 9, 0, 4, 0, 0, 0, 24] @ on_air (ds_ieee80211 dw) frame"
  have cap: "captured (ce_radiotap sample_core) sample_env packet (on_air (ds_ieee80211 dw) frame) 0"
    unfolding packet_def sample_core_def core_env.simps by (rule sample_captured [OF mif(2)])
  have "state_ok 256 (ds_awdl d)" using booted_fields(1) [OF n(1)] by (simp add: daemon_ok_def)
  from rssi_too_low_eq [OF this] have rssi: "\<not> rssi_too_low (ds_awdl d) sample_peer_addr 0"
    using n(3,4) by (simp add: sample_peers_ok(2))
  have mem: "awdl_peer_add (env_mem sample_env) (env_peer sample_env) (peers_of (ds_awdl d)) sample_peer_addr 9 (st_peer_cb (ds_awdl d)) \<noteq>
      Some (PEERS_INTERNAL, m, [])" for m
    unfolding n(3) by (simp add: sample_env_def sample_add)
  have sent: "Wlan_frame frame \<in> set [Wlan_frame frame]" by simp
  from mesh_joins [OF rt n(6,7) reach.start at ne mif(1) sent cap rssi sample_action_ok(3,4) mem, of "\<lambda>_. 0"]
  obtain d1 effects where d1: "awdl_receive_frame sample_core sample_env (\<lambda>_. 0) 9 packet d = Some (d1, effects)"
    "\<And>now d2 effects'. now - ps_timeout (st_peers (ds_awdl d1)) \<le> 9 \<Longrightarrow> awdl_clean_peers now d1 = (d2, effects') \<Longrightarrow>
      el_master_addr (st_election (ds_awdl d2)) = sample_peer_addr"
    by blast
  obtain d2 effects' where d2: "awdl_clean_peers (ps_timeout (st_peers (ds_awdl d1))) d1 = (d2, effects')" by fastforce
  have "el_master_addr (st_election (ds_awdl d)) = sample_addr" using booted_fields(6) [OF n(1)] by auto
  with n(1,2) mif(1) sent d1(1) d2 d1(2) [OF _ d2] show ?thesis
    unfolding packet_def by (metis option.sel snd_conv diff_self word_zero_le)
qed

text \<open>C4. Synchronisation never goes in a circle. Among nodes of this program, whose metric and counter never change, every node is in every
  reachable state of the network its own master, or follows a node with a greater address that announced to be its own master.
  So the relation between a node and the one it is synchronised to has no cycle, and no node ever announces a height above one.\<close>

theorem mesh_no_cycles:
  assumes "\<forall>a. radiotap_header_ok (ce_radiotap (env a))" and "\<forall>a d. nodes a = Some d \<longrightarrow> booted L a d"
    and "reach (mesh_step env) (mesh_event L) \<lparr>m_nodes = nodes, m_air = {}\<rparr> net"
  shows "acyclic {(a, el_sync_addr (st_election (ds_awdl d))) |a d. m_nodes net a = Some d \<and> el_sync_addr (st_election (ds_awdl d)) \<noteq> a} \<and>
    (\<forall>a d. m_nodes net a = Some d \<longrightarrow> (let e = st_election (ds_awdl d) in
       el_master_counter e = 0 \<and> el_master_metric e = 60 \<and>
       (el_height e = 0 \<and> el_master_addr e = a \<and> el_sync_addr e = a \<or>
        el_height e = 1 \<and> el_master_addr e = el_sync_addr e \<and> a < el_sync_addr e)))"
proof -
  have "mesh_inv L flat net"
    using follows.mesh_loop.reach_inv [of env L "\<lparr>m_nodes = nodes, m_air = {}\<rparr>" net] assms(1,3) mesh_start [OF assms(2), of flat] flat_init
    by simp
  then have flat: "flat (st_election (ds_awdl d)) \<and> el_self_addr (st_election (ds_awdl d)) = a" if "m_nodes net a = Some d" for a d
    using that by (simp add: mesh_inv_def node_ok_def sender_ok_def)
  have "acyclic ({(a, el_sync_addr (st_election (ds_awdl d))) |a d. m_nodes net a = Some d \<and> el_sync_addr (st_election (ds_awdl d)) \<noteq> a}\<inverse>)"
    by (rule acyclicI_order [where f = id]) (use flat in \<open>auto simp: flat_def\<close>)
  moreover have "let e = st_election (ds_awdl d) in el_master_counter e = 0 \<and> el_master_metric e = 60 \<and>
      (el_height e = 0 \<and> el_master_addr e = a \<and> el_sync_addr e = a \<or>
       el_height e = 1 \<and> el_master_addr e = el_sync_addr e \<and> a < el_sync_addr e)" if "m_nodes net a = Some d" for a d
    using flat [OF that] by (auto simp: flat_def Let_def)
  ultimately show ?thesis by simp
qed

theorem mesh_no_cycles_witness:
  "\<exists>d dw d' effects. booted 256 sample_addr d \<and> booted 256 sample_peer_addr dw \<and>
     (let net = \<lparr>m_nodes = [sample_addr \<mapsto> d, sample_peer_addr \<mapsto> dw], m_air = {}\<rparr> in
      mesh_step (\<lambda>_. sample_core) (sample_addr, Ev_clean 5) net = Some (d', effects) \<and>
      el_height (st_election (ds_awdl (the (m_nodes d' sample_addr)))) \<le> 1)"
proof -
  obtain d dw where n: "booted 256 sample_addr d" "booted 256 sample_peer_addr dw"
    "\<forall>a d'. [sample_addr \<mapsto> d, sample_peer_addr \<mapsto> dw] a = Some d' \<longrightarrow> booted 256 a d'"
    by (rule sample_pair)
  have rt: "\<forall>a. radiotap_header_ok (ce_radiotap ((\<lambda>_ :: ether_addr. sample_core) a))" using sample_radiotap_ok by (simp add: sample_core_def)
  let ?net = "\<lparr>m_nodes = [sample_addr \<mapsto> d, sample_peer_addr \<mapsto> dw], m_air = {}\<rparr>"
  have ne: "sample_addr \<noteq> sample_peer_addr" by (simp add: sample_addr_def sample_peer_addr_def)
  obtain d1 eff where c: "awdl_clean_peers 5 d = (d1, eff)" by fastforce
  then obtain net' where step: "mesh_step (\<lambda>_. sample_core) (sample_addr, Ev_clean 5) ?net = Some (net', eff)" "m_nodes net' sample_addr = Some d1"
    using ne by (auto simp: mesh_step_def)
  have "reach (mesh_step (\<lambda>_. sample_core)) (mesh_event 256) ?net net'" 
    using reach.event [OF reach.start, of "mesh_event 256" "(sample_addr, Ev_clean 5)" "mesh_step (\<lambda>_. sample_core)" ?net net'] step(1) by simp
  from mesh_no_cycles [OF rt n(3) this] step(2) have "el_height (st_election (ds_awdl d1)) = 0 \<or> el_height (st_election (ds_awdl d1)) = 1"
    unfolding Let_def by blast
  then have "el_height (st_election (ds_awdl d1)) \<le> 1" by auto
  with n(1,2) step show ?thesis by (fastforce simp: Let_def)
qed

end
