(* ===== verification/Release.thy ===== *)
theory Release
  imports Owl Timers "HOL-Library.Multiset"
begin

text \<open>
  The end of the program: \<^verbatim>\<open>awdl_free\<close> of \<^verbatim>\<open>src/daemon/core.c\<close> with \<^verbatim>\<open>circular_buf_free\<close>, \<^verbatim>\<open>io_state_free\<close> and
  \<^verbatim>\<open>netutils_cleanup\<close>, called by \<^verbatim>\<open>main\<close> when the event loop returns. A function gives the resources it
  hands back, in order; \<^term>\<open>None\<close> is undefined behaviour, here \<^verbatim>\<open>pcap_close\<close> of a pointer that was never set.
\<close>









section \<open>What the program holds\<close>








section \<open>Properties\<close>



end
