(* ===== verification/Macos.thy ===== *)
theory Macos
  imports Netutils Print
begin

text \<open>
  Model of the parts of \<^verbatim>\<open>src/daemon/netutils.c\<close> and \<^verbatim>\<open>src/daemon/io.c\<close> that are compiled on macOS. They have the
  names of the Linux functions, here with the suffix \<open>apple\<close>. The functions of the CoreWLAN bindings, the kernel and
  \<^verbatim>\<open>inet_ntop\<close> are parameters. \<^term>\<open>None\<close> is undefined behaviour.
\<close>

section \<open>The wireless device\<close>

record corewlan =
  cw_init :: int
  cw_set_channel :: "int \<Rightarrow> int \<Rightarrow> int"
  cw_get_hostname :: int

definition netutils_init_apple :: "corewlan \<Rightarrow> int" where
  "netutils_init_apple cw = cw_init cw"

text \<open>The result, and the interface that is passed to \<^verbatim>\<open>corewlan_disassociate\<close>, whose own result is ignored.\<close>

definition set_monitor_mode_apple :: "int \<Rightarrow> int \<times> int" where
  "set_monitor_mode_apple ifindex = (0, ifindex)"

definition is_channel_available_apple :: "int \<Rightarrow> int \<Rightarrow> int \<times> bool" where
  "is_channel_available_apple ifindex channel = (0, True)"

definition set_channel_apple :: "corewlan \<Rightarrow> int \<Rightarrow> int \<Rightarrow> int" where
  "set_channel_apple cw ifindex channel = cw_set_channel cw ifindex channel"

definition link_up_apple :: "int \<Rightarrow> int" where
  "link_up_apple ifindex = 0"

definition link_down_apple :: "int \<Rightarrow> int" where
  "link_down_apple ifindex = 0"

definition get_hostname_apple :: "corewlan \<Rightarrow> int" where
  "get_hostname_apple cw = cw_get_hostname cw"

text \<open>One entry of the list of \<^verbatim>\<open>getifaddrs\<close>: its name and, for a link-level address, the bytes of the address; other families
  and a missing address are not looked at.\<close>

record ifaddr =
  ia_name :: string
  ia_link :: "u8 list option"

text \<open>The address is copied with the length the entry gives, over the six bytes of the caller.\<close>

fun link_addr_search :: "string \<Rightarrow> ifaddr list \<Rightarrow> u8 list \<Rightarrow> (int \<times> u8 list) option" where
  "link_addr_search ifname [] addr = Some (- 1, addr)"
| "link_addr_search ifname (ifa # ifas) addr =
     (case ia_link ifa of
        Some bytes \<Rightarrow>
          if ifname = ia_name ifa
          then (if length bytes \<le> 6 then Some (0, bytes @ drop (length bytes) addr) else None)
          else link_addr_search ifname ifas addr
      | None \<Rightarrow> link_addr_search ifname ifas addr)"

definition link_ether_addr_get_apple :: "ifaddr list option \<Rightarrow> string \<Rightarrow> u8 list \<Rightarrow> (int \<times> u8 list) option" where
  "link_ether_addr_get_apple ifap ifname addr =
     (case ifap of None \<Rightarrow> Some (- 1, addr) | Some ifas \<Rightarrow> link_addr_search ifname ifas addr)"

section \<open>Neighbours\<close>

text \<open>The table of neighbours is changed by the program \<^verbatim>\<open>ndp\<close>. A process that calls \<^verbatim>\<open>execlp\<close> with success goes on as that
  program; every other one returns to its caller.\<close>

datatype process = Returns int | Becomes "u8 list list"

definition INET6_ADDRSTRLEN :: nat where
  "INET6_ADDRSTRLEN = 46"

definition IFNAMSIZ_APPLE :: nat where
  "IFNAMSIZ_APPLE = 16"

text \<open>\<^verbatim>\<open>sprintf(in6scope_str, ...)\<close> of the address and the interface name, which is a null pointer for an unknown index.\<close>

definition in6scope_str :: "(u8 list \<Rightarrow> u8 list) \<Rightarrow> u8 list option \<Rightarrow> u8 list \<Rightarrow> u8 list option" where
  "in6scope_str ntop ifname in6 =
     (case ifname of
        None \<Rightarrow> None
      | Some name \<Rightarrow>
          (let s = ntop in6 @ ascii ''%'' @ name in
           if length s < INET6_ADDRSTRLEN + 1 + IFNAMSIZ_APPLE then Some s else None))"

definition strlcpy :: "u8 list \<Rightarrow> nat \<Rightarrow> u8 list" where
  "strlcpy s n = take (n - 1) s"

text \<open>\<open>fork\<close> is what \<^verbatim>\<open>fork\<close> returns to the process that is looked at, \<open>exec_ok\<close> whether \<^verbatim>\<open>execlp\<close> finds the program.\<close>

definition neighbor_add_apple ::
  "(u8 list \<Rightarrow> u8 list) \<Rightarrow> u8 list option \<Rightarrow> int \<Rightarrow> bool \<Rightarrow> ether_addr \<Rightarrow> u8 list \<Rightarrow> process option" where
  "neighbor_add_apple ntop ifname fork exec_ok eth in6 =
     (if fork \<le> 0
      then (case in6scope_str ntop ifname in6 of
              None \<Rightarrow> None
            | Some scope \<Rightarrow>
                (let eth_str = strlcpy (ether_ntoa eth) 18 in
                 if exec_ok then Some (Becomes [ascii ''/usr/sbin/ndp'', ascii ''-sn'', scope, eth_str]) else Some (Returns 0)))
      else Some (Returns 0))"

definition neighbor_remove_apple :: "(u8 list \<Rightarrow> u8 list) \<Rightarrow> u8 list option \<Rightarrow> int \<Rightarrow> bool \<Rightarrow> u8 list \<Rightarrow> process option" where
  "neighbor_remove_apple ntop ifname fork exec_ok in6 =
     (if fork \<le> 0
      then (case in6scope_str ntop ifname in6 of
              None \<Rightarrow> None
            | Some scope \<Rightarrow>
                if exec_ok then Some (Becomes [ascii ''/usr/sbin/ndp'', ascii ''-dn'', scope]) else Some (Returns 0))
      else Some (Returns 0))"

section \<open>The host device\<close>

text \<open>What the calls on one of the devices \<^verbatim>\<open>/dev/tap0\<close> to \<^verbatim>\<open>/dev/tap15\<close> return; \<open>tp_errno\<close> is the error number after the failed
  call.\<close>

record tap_calls =
  tp_open :: int
  tp_fcntl :: int
  tp_sethwaddr :: int
  tp_setmtu :: int
  tp_setaddr :: int
  tp_errno :: int

text \<open>The descriptor or an error, the device name, whether the device and the auxiliary socket stay open, and the address and
  the mask given to the interface.\<close>

record tap_result =
  tr_fd :: int
  tr_dev :: "u8 list"
  tr_dev_open :: bool
  tr_socket_open :: bool
  tr_in6 :: "(u8 list \<times> u8 list) option"

definition tap_configure :: "tap_calls \<Rightarrow> nat \<Rightarrow> u8 list \<Rightarrow> ether_addr \<Rightarrow> tap_result" where
  "tap_configure tp i dev self =
     (let name = ascii ''tap'' @ number 10 i;
          mask = replicate 8 0xff @ replicate 8 0 in
      if tp_fcntl tp < 0 then \<lparr>tr_fd = - tp_errno tp, tr_dev = dev, tr_dev_open = True, tr_socket_open = False, tr_in6 = None\<rparr>
      else if tp_sethwaddr tp < 0
      then \<lparr>tr_fd = tp_sethwaddr tp, tr_dev = name, tr_dev_open = False, tr_socket_open = True, tr_in6 = None\<rparr>
      else if tp_setmtu tp < 0
      then \<lparr>tr_fd = tp_setmtu tp, tr_dev = name, tr_dev_open = False, tr_socket_open = True, tr_in6 = None\<rparr>
      else if tp_setaddr tp < 0
      then \<lparr>tr_fd = - tp_errno tp, tr_dev = name, tr_dev_open = False, tr_socket_open = True, tr_in6 = None\<rparr>
      else \<lparr>tr_fd = tp_open tp, tr_dev = name, tr_dev_open = True, tr_socket_open = False, tr_in6 = Some (rfc4291_addr self, mask)\<rparr>)"

text \<open>The loop from device \<open>i\<close> on, with \<open>n\<close> devices left.\<close>

fun tap_search :: "(nat \<Rightarrow> tap_calls) \<Rightarrow> nat \<Rightarrow> nat \<Rightarrow> u8 list \<Rightarrow> ether_addr \<Rightarrow> tap_result" where
  "tap_search tp 0 i dev self = \<lparr>tr_fd = - 1, tr_dev = dev, tr_dev_open = False, tr_socket_open = False, tr_in6 = None\<rparr>"
| "tap_search tp (Suc n) i dev self =
     (if tp_open (tp i) > 0 then tap_configure (tp i) i dev self else tap_search tp n (i + 1) dev self)"

definition open_tun_apple :: "(nat \<Rightarrow> tap_calls) \<Rightarrow> u8 list \<Rightarrow> ether_addr \<Rightarrow> tap_result" where
  "open_tun_apple tp dev self = tap_search tp 16 0 dev self"

section \<open>Properties\<close>

lemma length_number_byte: "length (number 16 (unat (w :: u8))) \<le> 2"
proof -
  have "unat w < 256" by (rule unat_u8_less)
  then have "unat w div 16 < 16" by linarith
  then show ?thesis by (simp add: number.simps [of 16 "unat w"] number.simps [of 16 "unat w div 16"])
qed

lemma strlcpy_ether: "strlcpy (ether_ntoa a) 18 = ether_ntoa a"
proof (cases a)
  case (EtherAddr b0 b1 b2 b3 b4 b5)
  have "length (ether_ntoa a) \<le> 17"
    using length_number_byte [of b0] length_number_byte [of b1] length_number_byte [of b2] length_number_byte [of b3]
      length_number_byte [of b4] length_number_byte [of b5]
    by (simp add: EtherAddr ascii_def)
  then show ?thesis by (simp add: strlcpy_def)
qed

text \<open>A change of the neighbour table on macOS. For a known interface the text of the scoped address fits its array, given that
  \<^verbatim>\<open>inet_ntop\<close> writes at most 45 characters. When \<^verbatim>\<open>fork\<close> succeeds the child becomes the program with the address of the peer and
  the parent returns; when it fails, the daemon itself becomes the program, since the test is for a result that is not positive;
  and when the program cannot be started, the child returns and goes on as a second daemon.\<close>

theorem neighbor_add_apple_processes:
  assumes "\<And>in6. length (ntop in6) \<le> 45" and "length name \<le> 15"
  shows "neighbor_add_apple ntop (Some name) fork exec_ok eth (rfc4291_addr eth) =
    Some (if 0 < fork \<or> \<not> exec_ok then Returns 0
      else Becomes [ascii ''/usr/sbin/ndp'', ascii ''-sn'', ntop (rfc4291_addr eth) @ ascii ''%'' @ name, ether_ntoa eth])"
proof -
  have "in6scope_str ntop (Some name) in6 = Some (ntop in6 @ ascii ''%'' @ name)" for in6
    using assms(1) [of in6] assms(2) by (simp add: in6scope_str_def Let_def INET6_ADDRSTRLEN_def IFNAMSIZ_APPLE_def ascii_def)
  then show ?thesis by (simp add: neighbor_add_apple_def strlcpy_ether)
qed

theorem neighbor_add_apple_processes_witness:
  "neighbor_add_apple (\<lambda>_. ascii ''fe80::1'') (Some (ascii ''awdl0'')) (- 1) True (EtherAddr 2 0 0 0 0 1) (rfc4291_addr (EtherAddr 2 0 0 0 0 1)) =
     Some (Becomes [ascii ''/usr/sbin/ndp'', ascii ''-sn'', ascii ''fe80::1%awdl0'', ether_ntoa (EtherAddr 2 0 0 0 0 1)])"
  using neighbor_add_apple_processes [of "\<lambda>_. ascii ''fe80::1''" "ascii ''awdl0''" "- 1" True "EtherAddr 2 0 0 0 0 1"]
  by (simp add: ascii_def)

text \<open>The search for a host device on macOS: a result that is not negative is the descriptor of the first device that could be
  opened, with its name, the link-local address of the node with a prefix of 64 bits, and no socket left open. After an error of
  the first device that could be opened no other one is tried, and the device stays open exactly when it could not be made
  non-blocking.\<close>

theorem open_tun_apple_first:
  assumes "\<forall>i < 16. 0 < tp_errno (tp i)"
  shows "if \<forall>i < 16. tp_open (tp i) \<le> 0 then tr_fd (open_tun_apple tp dev self) = - 1
    else \<exists>i < 16. 0 < tp_open (tp i) \<and> (\<forall>j < i. tp_open (tp j) \<le> 0) \<and>
      (let r = open_tun_apple tp dev self in
       if 0 \<le> tp_fcntl (tp i) \<and> 0 \<le> tp_sethwaddr (tp i) \<and> 0 \<le> tp_setmtu (tp i) \<and> 0 \<le> tp_setaddr (tp i)
       then r = \<lparr>tr_fd = tp_open (tp i), tr_dev = ascii ''tap'' @ number 10 i, tr_dev_open = True, tr_socket_open = False,
         tr_in6 = Some (rfc4291_addr self, replicate 8 0xff @ replicate 8 0)\<rparr>
       else tr_fd r < 0 \<and> (tr_dev_open r \<longleftrightarrow> tp_fcntl (tp i) < 0) \<and> (tr_socket_open r \<longleftrightarrow> 0 \<le> tp_fcntl (tp i)))"
proof -
  have none: "tap_search tp n k dev self = \<lparr>tr_fd = - 1, tr_dev = dev, tr_dev_open = False, tr_socket_open = False, tr_in6 = None\<rparr>"
    if "\<forall>i < k + n. k \<le> i \<longrightarrow> tp_open (tp i) \<le> 0" for n k
    using that
  proof (induction n arbitrary: k)
    case (Suc n)
    then have k: "\<not> 0 < tp_open (tp k)" by (simp add: not_less)
    have "\<forall>i < k + 1 + n. k + 1 \<le> i \<longrightarrow> tp_open (tp i) \<le> 0" using Suc.prems by simp
    from Suc.IH [OF this] k show ?case by simp
  qed simp
  have first: "tap_search tp n k dev self = tap_configure (tp i) i dev self"
    if "0 < tp_open (tp i)" "\<forall>j < i. tp_open (tp j) \<le> 0" "k \<le> i" "i < k + n" for n k i
    using that
  proof (induction n arbitrary: k)
    case (Suc n)
    show ?case
    proof (cases "k = i")
      case False
      with Suc.prems have "k < i" and k: "\<not> 0 < tp_open (tp k)" by (simp_all add: not_less)
      with Suc.IH [of "k + 1"] Suc.prems show ?thesis by simp
    qed (use Suc.prems in simp)
  qed simp
  show ?thesis
  proof (cases "\<forall>i < 16. tp_open (tp i) \<le> 0")
    case True
    then show ?thesis using none [of 0 16] by (simp add: open_tun_apple_def)
  next
    case False
    define i where "i = (LEAST i. 0 < tp_open (tp i))"
    from False obtain k where k: "k < 16" "0 < tp_open (tp k)" by (auto simp: not_le)
    have i: "0 < tp_open (tp i)" "i \<le> k" "\<forall>j < i. tp_open (tp j) \<le> 0"
      unfolding i_def by (rule LeastI [of _ k], rule k(2), rule Least_le, rule k(2), metis not_less_Least not_less)
    have "open_tun_apple tp dev self = tap_configure (tp i) i dev self"
      unfolding open_tun_apple_def using i k(1) by (intro first) simp_all
    moreover have "0 < tp_errno (tp i)" using assms i(2) k(1) by simp
    ultimately have r: "let r = open_tun_apple tp dev self in
       if 0 \<le> tp_fcntl (tp i) \<and> 0 \<le> tp_sethwaddr (tp i) \<and> 0 \<le> tp_setmtu (tp i) \<and> 0 \<le> tp_setaddr (tp i)
       then r = \<lparr>tr_fd = tp_open (tp i), tr_dev = ascii ''tap'' @ number 10 i, tr_dev_open = True, tr_socket_open = False,
         tr_in6 = Some (rfc4291_addr self, replicate 8 0xff @ replicate 8 0)\<rparr>
       else tr_fd r < 0 \<and> (tr_dev_open r \<longleftrightarrow> tp_fcntl (tp i) < 0) \<and> (tr_socket_open r \<longleftrightarrow> 0 \<le> tp_fcntl (tp i))"
      by (auto simp: tap_configure_def Let_def)
    have "i < 16" using i(2) k(1) by simp
    then show ?thesis unfolding if_not_P [OF False] using i(1,3) r by blast
  qed
qed

end
